(* ===== verification/Prelude.thy ===== *)
theory Prelude
  imports Main "HOL-Library.Word" "HOL-Library.Monad_Syntax" "HOL-Library.Signed_Division"
begin

text \<open>
  Shared vocabulary of the development.

  Machine integers are words of their width (\<open>u8\<close> .. \<open>u64\<close>; \<open>usize\<close> is 64 bits wide, the
  host the simulator and the prover run on).  Arithmetic written with plain operators in the
  sources follows the release profile of the workspace: \<open>+\<close>, \<open>-\<close>, \<open>*\<close> wrap, \<open>debug_assert!\<close>
  is not compiled in.  A panic (failed \<open>assert!\<close>, \<open>panic!\<close>, \<open>unreachable!\<close>, checked index out of
  range) is the value \<open>None\<close> of the option monad, so every function that can panic returns an
  \<open>option\<close> and the \<open>do\<close> notation of the library threads it.

  The collections below gather the rewrite rules the component theories share:
  \<open>bits_spec\<close> (bit fields as \<open>take_bit\<close>/\<open>drop_bit\<close>), \<open>panic_simps\<close> (the option monad) and
  \<open>config_defs\<close> (the machine configurations).
\<close>

named_theorems bits_spec "bit-field helpers in terms of take_bit and drop_bit"
named_theorems panic_simps "rules for computations that may panic"
named_theorems config_defs "the constants of the machine configurations"

unbundle bit_operations_syntax

type_synonym u8 = "8 word"
type_synonym u16 = "16 word"
type_synonym u32 = "32 word"
type_synonym u64 = "64 word"
type_synonym usize = "64 word"

subsection \<open>Panics\<close>

definition rust_assert :: "bool \<Rightarrow> unit option" where
  "rust_assert b = (if b then Some () else None)"

abbreviation panic :: "'a option" where
  "panic \<equiv> None"

lemma rust_assert_simps [simp]:
  "rust_assert True = Some ()"
  "rust_assert False = None"
  by (simp_all add: rust_assert_def)

lemma rust_assert_eq_Some [panic_simps]: "rust_assert b = Some u \<longleftrightarrow> b"
  by (simp add: rust_assert_def)

lemma rust_assert_bind_eq_Some [panic_simps]:
  "(do { rust_assert b; f }) = Some y \<longleftrightarrow> b \<and> f = Some y"
  by (cases b) simp_all

lemmas [panic_simps] = bind_eq_Some_conv

text \<open>Checked indexing: out of range panics.\<close>

definition idx :: "'a list \<Rightarrow> nat \<Rightarrow> 'a option" where
  "idx xs i = (if i < length xs then Some (xs ! i) else None)"

lemma idx_in [simp]: "i < length xs \<Longrightarrow> idx xs i = Some (xs ! i)"
  by (simp add: idx_def)

lemma idx_eq_Some [panic_simps]: "idx xs i = Some y \<longleftrightarrow> i < length xs \<and> y = xs ! i"
  by (auto simp: idx_def)

subsection \<open>Bits of 32-bit words\<close>

lemma bit_u32_lt [dest]: "bit (w :: u32) n \<Longrightarrow> n < 32"
  using bit_imp_le_length [of w n] by simp

lemma unat_take_bit_less: "n \<le> LENGTH('a) \<Longrightarrow> unat (take_bit n (w :: 'a::len word)) < 2 ^ n"
  by (metis take_bit_nat_less_exp unsigned_take_bit_eq)

lemma unat_ucast_u64 [simp]: "unat (ucast (w :: u32) :: u64) = unat w"
  using unsigned_less [where ?'a = nat, of w]
  by (simp add: unsigned_ucast_eq unsigned_take_bit_eq take_bit_nat_eq_self)

lemma masked_field:
  "from_bit + num_bits \<le> LENGTH('a) \<Longrightarrow>
   (src :: 'a::len word) AND push_bit from_bit (push_bit num_bits 1 - 1)
     = push_bit from_bit (take_bit num_bits (drop_bit from_bit src))"
  by (rule bit_word_eqI) (auto simp: bit_simps mask_eq_exp_minus_1 [symmetric])

end
