(* ===== verification/Bits.thy ===== *)
theory Bits
  imports Prelude
begin

text \<open>
  Bit-field helpers and instruction formats: \<open>risc_v_simulator/src/utils/mod.rs\<close>,
  \<open>cycle/opcode_formats/*.rs\<close>, \<open>cycle/decoder_utils.rs\<close> and the status registers of
  \<open>cycle/status_registers/*.rs\<close>.  Bit positions and widths are compile-time constants below 32
  in the sources and are natural numbers here.  A function with a \<open>&mut u32\<close> argument returns
  the new word.

  The lemmas characterise every helper by \<open>take_bit\<close>, \<open>drop_bit\<close> and \<open>signed_take_bit\<close>, and show
  that the immediates of the six formats invert the bit scattering of the RISC-V encoding.
\<close>

section \<open>Bit helpers\<close>

definition set_bit_u32 :: "u32 \<Rightarrow> nat \<Rightarrow> u32" where
  "set_bit_u32 dst b = dst OR push_bit b 1"

definition set_bits_to_value :: "u32 \<Rightarrow> nat \<Rightarrow> u32 \<Rightarrow> u32" where
  "set_bits_to_value dst bit_offset value = dst OR push_bit bit_offset value"

definition clear_bit :: "u32 \<Rightarrow> nat \<Rightarrow> u32" where
  "clear_bit dst b = dst AND NOT (push_bit b 1)"

definition test_bit_u32 :: "u32 \<Rightarrow> nat \<Rightarrow> bool" where
  "test_bit_u32 src b \<longleftrightarrow> src AND push_bit b 1 \<noteq> 0"

definition get_bit_right_aligned :: "u32 \<Rightarrow> nat \<Rightarrow> u32" where
  "get_bit_right_aligned src b = drop_bit b src AND 1"

definition get_bit_unaligned :: "u32 \<Rightarrow> nat \<Rightarrow> u32" where
  "get_bit_unaligned src b = src AND push_bit b 1"

definition sign_extend :: "u32 \<Rightarrow> nat \<Rightarrow> u32" where
  "sign_extend dst total_bits =
     (if dst AND push_bit (total_bits - 1) 1 \<noteq> 0
      then dst OR NOT (push_bit total_bits 1 - 1)
      else dst)"

definition get_bits_and_align_right :: "u32 \<Rightarrow> nat \<Rightarrow> nat \<Rightarrow> u32" where
  "get_bits_and_align_right src from_bit num_bits =
     (let mask = push_bit from_bit (push_bit num_bits 1 - 1)
      in drop_bit from_bit (src AND mask))"

definition clear_bits :: "u32 \<Rightarrow> nat \<Rightarrow> nat \<Rightarrow> u32" where
  "clear_bits dst from_bit num_bits =
     (let mask = push_bit from_bit (push_bit num_bits 1 - 1)
      in dst AND NOT mask)"

definition get_bits_and_shift_right :: "u32 \<Rightarrow> nat \<Rightarrow> nat \<Rightarrow> nat \<Rightarrow> u32" where
  "get_bits_and_shift_right src from_bit num_bits shift =
     (let mask = push_bit from_bit (push_bit num_bits 1 - 1)
      in drop_bit shift (src AND mask))"

definition get_bits_and_shift_left :: "u32 \<Rightarrow> nat \<Rightarrow> nat \<Rightarrow> nat \<Rightarrow> u32" where
  "get_bits_and_shift_left src from_bit num_bits shift =
     (let mask = push_bit from_bit (push_bit num_bits 1 - 1)
      in push_bit shift (src AND mask))"

definition sign_extend_16 :: "u32 \<Rightarrow> u32" where
  "sign_extend_16 src = sign_extend (src AND 0x0000ffff) 16"

definition sign_extend_8 :: "u32 \<Rightarrow> u32" where
  "sign_extend_8 src = sign_extend (src AND 0x000000ff) 8"

definition zero_extend_16 :: "u32 \<Rightarrow> u32" where
  "zero_extend_16 src = src AND 0x0000ffff"

definition zero_extend_8 :: "u32 \<Rightarrow> u32" where
  "zero_extend_8 src = src AND 0x000000ff"

definition get_formal_rs1 :: "u32 \<Rightarrow> u32" where
  "get_formal_rs1 src = get_bits_and_align_right src 15 5"

definition get_formal_rs2 :: "u32 \<Rightarrow> u32" where
  "get_formal_rs2 src = get_bits_and_align_right src 20 5"

section \<open>Instruction formats\<close>

definition get_opcode :: "u32 \<Rightarrow> u32" where
  "get_opcode src = src AND 0b01111111"

definition get_rd :: "u32 \<Rightarrow> u32" where
  "get_rd src = drop_bit 7 src AND 0b00011111"

definition RTypeOpcode_rs1 :: "u32 \<Rightarrow> u32" where
  "RTypeOpcode_rs1 src = get_bits_and_align_right src 15 5"

definition RTypeOpcode_rs2 :: "u32 \<Rightarrow> u32" where
  "RTypeOpcode_rs2 src = get_bits_and_align_right src 20 5"

definition RTypeOpcode_funct3 :: "u32 \<Rightarrow> u32" where
  "RTypeOpcode_funct3 src = get_bits_and_align_right src 12 3"

definition RTypeOpcode_funct7 :: "u32 \<Rightarrow> u32" where
  "RTypeOpcode_funct7 src = get_bits_and_align_right src 25 7"

definition ITypeOpcode_rs1 :: "u32 \<Rightarrow> u32" where
  "ITypeOpcode_rs1 src = get_bits_and_align_right src 15 5"

definition ITypeOpcode_funct3 :: "u32 \<Rightarrow> u32" where
  "ITypeOpcode_funct3 src = get_bits_and_align_right src 12 3"

definition ITypeOpcode_imm :: "u32 \<Rightarrow> u32" where
  "ITypeOpcode_imm src = get_bits_and_align_right src 20 12"

definition STypeOpcode_rs1 :: "u32 \<Rightarrow> u32" where
  "STypeOpcode_rs1 src = get_bits_and_align_right src 15 5"

definition STypeOpcode_rs2 :: "u32 \<Rightarrow> u32" where
  "STypeOpcode_rs2 src = get_bits_and_align_right src 20 5"

definition STypeOpcode_funct3 :: "u32 \<Rightarrow> u32" where
  "STypeOpcode_funct3 src = get_bits_and_align_right src 12 3"

definition STypeOpcode_imm :: "u32 \<Rightarrow> u32" where
  "STypeOpcode_imm src =
     get_bits_and_align_right src 7 5 OR get_bits_and_shift_right src 25 7 (25 - 5)"

definition BTypeOpcode_rs1 :: "u32 \<Rightarrow> u32" where
  "BTypeOpcode_rs1 src = get_bits_and_align_right src 15 5"

definition BTypeOpcode_rs2 :: "u32 \<Rightarrow> u32" where
  "BTypeOpcode_rs2 src = get_bits_and_align_right src 20 5"

definition BTypeOpcode_funct3 :: "u32 \<Rightarrow> u32" where
  "BTypeOpcode_funct3 src = get_bits_and_align_right src 12 3"

definition BTypeOpcode_imm :: "u32 \<Rightarrow> u32" where
  "BTypeOpcode_imm src =
     get_bits_and_shift_right src 8 4 (8 - 1)
     OR get_bits_and_shift_right src 25 6 (25 - 5)
     OR get_bits_and_shift_left src 7 1 (11 - 7)
     OR get_bits_and_shift_right src 31 1 (31 - 12)"

definition JTypeOpcode_imm :: "u32 \<Rightarrow> u32" where
  "JTypeOpcode_imm src =
     get_bits_and_shift_right src 21 10 (21 - 1)
     OR get_bits_and_shift_right src 20 1 (20 - 11)
     OR get_bits_and_shift_right src 12 8 0
     OR get_bits_and_shift_right src 31 1 (31 - 20)"

definition UTypeOpcode_imm :: "u32 \<Rightarrow> u32" where
  "UTypeOpcode_imm src = get_bits_and_shift_right src 12 20 0"

section \<open>Decoder of the unrolled machine\<close>

definition OP_IMM_SUBMASK :: u8 where "OP_IMM_SUBMASK = 0b0010011"
definition OP_SUBMASK :: u8 where "OP_SUBMASK = 0b0110011"
definition OPCODE_LUI :: u8 where "OPCODE_LUI = 0b0110111"
definition OPCODE_AUIPC :: u8 where "OPCODE_AUIPC = 0b0010111"
definition OPCODE_JAL :: u8 where "OPCODE_JAL = 0b1101111"
definition OPCODE_JALR :: u8 where "OPCODE_JALR = 0b1100111"
definition OPCODE_BRANCH :: u8 where "OPCODE_BRANCH = 0b1100011"
definition OPCODE_LOAD :: u8 where "OPCODE_LOAD = 0b0000011"
definition OPCODE_STORE :: u8 where "OPCODE_STORE = 0b0100011"
definition OPCODE_SYSTEM :: u8 where "OPCODE_SYSTEM = 0b1110011"
definition SUB_FUNCT7 :: u8 where "SUB_FUNCT7 = 0b0100000"
definition SLL_FUNCT7 :: u8 where "SLL_FUNCT7 = 0"
definition SRL_FUNCT7 :: u8 where "SRL_FUNCT7 = 0"
definition SRA_FUNCT7 :: u8 where "SRA_FUNCT7 = 0b0100000"
definition ROT_FUNCT7 :: u8 where "ROT_FUNCT7 = 0b0110000"
definition M_EXT_FUNCT7 :: u8 where "M_EXT_FUNCT7 = 0b0000001"

definition funct3_bits :: "u32 \<Rightarrow> u8" where
  "funct3_bits src = ucast (drop_bit 12 src AND 0b111)"

definition funct7_bits :: "u32 \<Rightarrow> u8" where
  "funct7_bits src = ucast (drop_bit 25 src AND 0b1111111)"

definition get_opcode_bits :: "u32 \<Rightarrow> u8" where
  "get_opcode_bits src = ucast (src AND 0b01111111)"

definition get_rd_bits :: "u32 \<Rightarrow> u8" where
  "get_rd_bits src = ucast (drop_bit 7 src AND 0b00011111)"

definition get_formal_rs1_bits :: "u32 \<Rightarrow> u8" where
  "get_formal_rs1_bits src = ucast (drop_bit 15 src AND 0b00011111)"

definition get_formal_rs2_bits :: "u32 \<Rightarrow> u8" where
  "get_formal_rs2_bits src = ucast (drop_bit 20 src AND 0b00011111)"

definition formally_parse_rs1_rs2_rd_props_for_tracer :: "u32 \<Rightarrow> u8 \<times> u8 \<times> u8" where
  "formally_parse_rs1_rs2_rd_props_for_tracer opcode =
     (let rd = get_rd_bits opcode;
          formal_rs1 = get_formal_rs1_bits opcode;
          formal_rs2 = get_formal_rs2_bits opcode;
          op = get_opcode_bits opcode;
          rd = (if op = OPCODE_BRANCH then 0 else rd)
      in (formal_rs1, formal_rs2, rd))"

section \<open>Status registers\<close>

definition SATPRegister_is_bare_aligned_bit :: "u32 \<Rightarrow> u32" where
  "SATPRegister_is_bare_aligned_bit src = get_bits_and_align_right src 31 1"

definition SATPRegister_ppn :: "u32 \<Rightarrow> u32" where
  "SATPRegister_ppn src = get_bits_and_align_right src 0 22"

definition MStatusRegister_mie_aligned_bit :: "u32 \<Rightarrow> u32" where
  "MStatusRegister_mie_aligned_bit src = get_bits_and_align_right src 3 1"

definition MStatusRegister_set_mie :: "u32 \<Rightarrow> u32" where
  "MStatusRegister_set_mie dst = set_bit_u32 dst 3"

definition MStatusRegister_clear_mie :: "u32 \<Rightarrow> u32" where
  "MStatusRegister_clear_mie dst = clear_bit dst 3"

definition MStatusRegister_set_mie_to_value :: "u32 \<Rightarrow> u32 \<Rightarrow> u32" where
  "MStatusRegister_set_mie_to_value dst value =
     set_bits_to_value (MStatusRegister_clear_mie dst) 3 value"

definition MStatusRegister_set_mpie :: "u32 \<Rightarrow> u32" where
  "MStatusRegister_set_mpie dst = set_bit_u32 dst 7"

definition MStatusRegister_clear_mpie :: "u32 \<Rightarrow> u32" where
  "MStatusRegister_clear_mpie dst = clear_bit dst 7"

definition MStatusRegister_set_mpie_to_value :: "u32 \<Rightarrow> u32 \<Rightarrow> u32" where
  "MStatusRegister_set_mpie_to_value dst value =
     set_bits_to_value (MStatusRegister_clear_mpie dst) 7 value"

definition MStatusRegister_clear_mpp :: "u32 \<Rightarrow> u32" where
  "MStatusRegister_clear_mpp dst = clear_bits dst 11 2"

definition MStatusRegister_set_mpp_to_machine :: "u32 \<Rightarrow> u32" where
  "MStatusRegister_set_mpp_to_machine dst =
     set_bits_to_value (MStatusRegister_clear_mpp dst) 11 3"

definition MStatusRegister_mpie_aligned_bit :: "u32 \<Rightarrow> u32" where
  "MStatusRegister_mpie_aligned_bit src = get_bits_and_align_right src 7 1"

definition MStatusRegister_mpp :: "u32 \<Rightarrow> u32" where
  "MStatusRegister_mpp src = get_bits_and_align_right src 11 2"

definition MStatusRegister_mprv :: "u32 \<Rightarrow> u32" where
  "MStatusRegister_mprv src = get_bit_unaligned src 17"

definition MStatusRegister_clear_mprv :: "u32 \<Rightarrow> u32" where
  "MStatusRegister_clear_mprv dst = clear_bit dst 17"

definition MStatusRegister_mprv_aligned_bit :: "u32 \<Rightarrow> u32" where
  "MStatusRegister_mprv_aligned_bit src = get_bits_and_align_right src 17 11"

section \<open>Helpers as fields\<close>

lemma get_bits_and_align_right_spec [bits_spec]:
  "from_bit + num_bits \<le> 32 \<Longrightarrow>
   get_bits_and_align_right src from_bit num_bits = take_bit num_bits (drop_bit from_bit src)"
  unfolding get_bits_and_align_right_def Let_def
  by (rule bit_word_eqI) (auto simp: bit_simps mask_eq_exp_minus_1 [symmetric])

lemma get_bits_and_shift_right_spec [bits_spec]:
  "from_bit + num_bits \<le> 32 \<Longrightarrow> shift \<le> from_bit \<Longrightarrow>
   get_bits_and_shift_right src from_bit num_bits shift
     = push_bit (from_bit - shift) (take_bit num_bits (drop_bit from_bit src))"
  unfolding get_bits_and_shift_right_def Let_def
  by (rule bit_word_eqI) (auto simp: bit_simps mask_eq_exp_minus_1 [symmetric] add.commute)

lemma get_bits_and_shift_left_spec [bits_spec]:
  "from_bit + num_bits + shift \<le> 32 \<Longrightarrow>
   get_bits_and_shift_left src from_bit num_bits shift
     = push_bit (from_bit + shift) (take_bit num_bits (drop_bit from_bit src))"
  unfolding get_bits_and_shift_left_def Let_def
  by (rule bit_word_eqI) (auto simp: bit_simps mask_eq_exp_minus_1 [symmetric])

lemma clear_bits_spec [bits_spec]:
  "from_bit + num_bits \<le> 32 \<Longrightarrow>
   bit (clear_bits dst from_bit num_bits) n \<longleftrightarrow> bit dst n \<and> \<not> (from_bit \<le> n \<and> n < from_bit + num_bits)"
  unfolding clear_bits_def Let_def
  by (auto simp: bit_simps mask_eq_exp_minus_1 [symmetric])

lemma sign_extend_spec:
  assumes "0 < n" "n \<le> 32" "take_bit n x = x"
  shows "sign_extend x n = signed_take_bit (n - 1) x"
proof (rule bit_word_eqI)
  fix k assume k: "k < LENGTH(32)"
  obtain m where m: "n = Suc m" using assms(1) by (cases n) auto
  have high: "\<not> bit x j" if "m < j" for j
    using assms(3) that by (metis Suc_le_eq bit_take_bit_iff m not_less)
  have se: "sign_extend x n = (if bit x m then x OR NOT (mask n) else x)"
    unfolding sign_extend_def using m
    by (simp add: and_exp_eq_0_iff_not_bit mask_eq_exp_minus_1)
  consider "k < m" | "k = m" | "m < k" by linarith
  then show "bit (sign_extend x n) k = bit (signed_take_bit (n - 1) x) k"
    using assms(2) k high m unfolding se
    by cases (auto simp: bit_simps)
qed

lemma and_low_mask:
  "x AND 0xff = take_bit 8 (x :: u32)"
  "x AND 0xffff = take_bit 16 x"
  "x AND 0b111 = take_bit 3 x"
  "x AND 0b11111 = take_bit 5 x"
  "x AND 0b1111111 = take_bit 7 x"
  "x AND 1 = take_bit 1 x"
  by (simp_all add: take_bit_eq_mask mask_eq_exp_minus_1)

lemma sign_extend_8_spec [bits_spec]: "sign_extend_8 x = signed_take_bit 7 x"
  by (simp add: sign_extend_8_def and_low_mask sign_extend_spec signed_take_bit_take_bit)

lemma sign_extend_16_spec [bits_spec]: "sign_extend_16 x = signed_take_bit 15 x"
  by (simp add: sign_extend_16_def and_low_mask sign_extend_spec signed_take_bit_take_bit)

lemma zero_extend_8_spec [bits_spec]: "zero_extend_8 x = take_bit 8 x"
  by (simp add: zero_extend_8_def and_low_mask)

lemma zero_extend_16_spec [bits_spec]: "zero_extend_16 x = take_bit 16 x"
  by (simp add: zero_extend_16_def and_low_mask)

lemma get_rd_spec [bits_spec]: "get_rd x = take_bit 5 (drop_bit 7 x)"
  by (simp add: get_rd_def and_low_mask)

lemma get_opcode_spec [bits_spec]: "get_opcode x = take_bit 7 x"
  by (simp add: get_opcode_def and_low_mask)

lemmas decoder_bits_spec [bits_spec] =
  funct3_bits_def [unfolded and_low_mask] funct7_bits_def [unfolded and_low_mask]
  get_opcode_bits_def [unfolded and_low_mask] get_rd_bits_def [unfolded and_low_mask]
  get_formal_rs1_bits_def [unfolded and_low_mask] get_formal_rs2_bits_def [unfolded and_low_mask]

section \<open>Immediates\<close>

text \<open>
  The inverse of the decoder, from the ISA manual: \<open>put_*\<close> writes an immediate into
  its fields of an instruction word and keeps the other bits.\<close>

definition put_field :: "nat \<Rightarrow> nat \<Rightarrow> nat \<Rightarrow> u32 \<Rightarrow> u32 \<Rightarrow> u32" where
  "put_field pos len src imm w =
     (w AND NOT (push_bit pos (mask len))) OR push_bit pos (take_bit len (drop_bit src imm))"

definition put_I :: "u32 \<Rightarrow> u32 \<Rightarrow> u32" where
  "put_I imm = put_field 20 12 0 imm"

definition put_S :: "u32 \<Rightarrow> u32 \<Rightarrow> u32" where
  "put_S imm = put_field 7 5 0 imm \<circ> put_field 25 7 5 imm"

definition put_B :: "u32 \<Rightarrow> u32 \<Rightarrow> u32" where
  "put_B imm = put_field 8 4 1 imm \<circ> put_field 25 6 5 imm \<circ> put_field 7 1 11 imm \<circ> put_field 31 1 12 imm"

definition put_U :: "u32 \<Rightarrow> u32 \<Rightarrow> u32" where
  "put_U imm = put_field 12 20 12 imm"

definition put_J :: "u32 \<Rightarrow> u32 \<Rightarrow> u32" where
  "put_J imm = put_field 21 10 1 imm \<circ> put_field 20 1 11 imm \<circ> put_field 12 8 12 imm \<circ> put_field 31 1 20 imm"

lemma bit_put_field:
  "bit (put_field pos len src imm w) n \<longleftrightarrow>
     n < 32 \<and> (if pos \<le> n \<and> n < pos + len then bit imm (n - pos + src) else bit w n)"
  by (auto simp: put_field_def bit_simps add.commute)

lemma ITypeOpcode_imm_put: "ITypeOpcode_imm (put_I imm w) = take_bit 12 imm"
  by (rule bit_word_eqI)
    (auto simp: ITypeOpcode_imm_def put_I_def bits_spec bit_simps bit_put_field)

lemma STypeOpcode_imm_put: "STypeOpcode_imm (put_S imm w) = take_bit 12 imm"
  by (rule bit_word_eqI)
    (auto simp: STypeOpcode_imm_def put_S_def bits_spec bit_simps bit_put_field)

lemma UTypeOpcode_imm_put: "UTypeOpcode_imm (put_U imm w) = push_bit 12 (drop_bit 12 imm)"
  by (rule bit_word_eqI)
    (auto simp: UTypeOpcode_imm_def put_U_def bits_spec bit_simps bit_put_field)

lemma BTypeOpcode_imm_put: "BTypeOpcode_imm (put_B imm w) = take_bit 13 imm AND NOT 1"
proof (rule bit_word_eqI)
  fix n assume n: "n < LENGTH(32)"
  consider "n = 0" | "1 \<le> n" "n \<le> 4" | "5 \<le> n" "n \<le> 10" | "n = 11" | "n = 12" | "13 \<le> n"
    by linarith
  then show "bit (BTypeOpcode_imm (put_B imm w)) n = bit (take_bit 13 imm AND NOT 1) n"
    using n
    by cases (auto simp: BTypeOpcode_imm_def put_B_def bits_spec bit_simps bit_put_field bit_1_iff
      simp del: One_nat_def push_bit_Suc take_bit_Suc)
qed
lemma JTypeOpcode_imm_put: "JTypeOpcode_imm (put_J imm w) = take_bit 21 imm AND NOT 1"
proof (rule bit_word_eqI)
  fix n assume n: "n < LENGTH(32)"
  consider "n = 0" | "1 \<le> n" "n \<le> 10" | "n = 11" | "12 \<le> n" "n \<le> 19" | "n = 20" | "21 \<le> n"
    by linarith
  then show "bit (JTypeOpcode_imm (put_J imm w)) n = bit (take_bit 21 imm AND NOT 1) n"
    using n
    by cases (auto simp: JTypeOpcode_imm_def put_J_def bits_spec bit_simps bit_put_field bit_1_iff
      simp del: One_nat_def push_bit_Suc take_bit_Suc)
qed

lemmas imm_put = ITypeOpcode_imm_put STypeOpcode_imm_put BTypeOpcode_imm_put JTypeOpcode_imm_put
  UTypeOpcode_imm_put

lemma signed_take_bit_word_of_int:
  assumes "- (2 ^ n) \<le> k" "k < 2 ^ n" "n < 32"
  shows "signed_take_bit n (word_of_int k :: u32) = word_of_int k"
proof -
  have "signed_take_bit n (word_of_int k :: u32) = word_of_int (signed_take_bit n k)"
    using \<open>n < 32\<close> by (intro bit_word_eqI) (auto simp: bit_simps min_def)
  with assms show ?thesis
    by (simp add: signed_take_bit_int_eq_self)
qed

lemma sign_extend_even_imm:
  assumes "- (2 ^ n) \<le> k" "k < 2 ^ n" "n < 31" "even k"
  shows "sign_extend (take_bit (Suc n) (word_of_int k) AND NOT 1) (Suc n) = word_of_int k"
proof -
  have "take_bit (Suc n) (word_of_int k) AND NOT 1 = (take_bit (Suc n) (word_of_int k) :: u32)"
    using \<open>even k\<close> by (intro bit_word_eqI) (auto simp: bit_simps bit_1_iff bit_0 simp del: take_bit_Suc)
  then show ?thesis
    using assms by (simp add: sign_extend_spec signed_take_bit_word_of_int signed_take_bit_take_bit
      del: take_bit_Suc)
qed

lemma sign_extend_imm:
  assumes "- (2 ^ n) \<le> k" "k < 2 ^ n" "n < 31"
  shows "sign_extend (take_bit (Suc n) (word_of_int k)) (Suc n) = word_of_int k"
  using assms by (simp add: sign_extend_spec signed_take_bit_word_of_int signed_take_bit_take_bit
      del: take_bit_Suc)

text \<open>C28: the immediate fields of every instruction format decode to the number an assembler
  encoded, sign extended, for every offset the format can hold, whatever the other bits of the
  instruction word are.\<close>

theorem immediates_round_trip:
  "(- 2048 \<le> k \<and> k < 2048 \<longrightarrow>
      sign_extend (ITypeOpcode_imm (put_I (word_of_int k) w)) 12 = word_of_int k
    \<and> sign_extend (STypeOpcode_imm (put_S (word_of_int k) w)) 12 = word_of_int k)
 \<and> (- 4096 \<le> k \<and> k < 4096 \<and> even k \<longrightarrow>
      sign_extend (BTypeOpcode_imm (put_B (word_of_int k) w)) 13 = word_of_int k)
 \<and> (- 1048576 \<le> k \<and> k < 1048576 \<and> even k \<longrightarrow>
      sign_extend (JTypeOpcode_imm (put_J (word_of_int k) w)) 21 = word_of_int k)
 \<and> UTypeOpcode_imm (put_U imm w) = push_bit 12 (drop_bit 12 imm)"
  using sign_extend_imm [of 11 k] sign_extend_even_imm [of 12 k] sign_extend_even_imm [of 20 k]
  by (simp add: imm_put)

theorem immediates_round_trip_witness:
  "sign_extend (BTypeOpcode_imm (put_B (word_of_int (- 8)) 0x63)) 13 = word_of_int (- 8)
 \<and> sign_extend (JTypeOpcode_imm (put_J (word_of_int (- 1048576)) 0x6f)) 21 = word_of_int (- 1048576)
 \<and> sign_extend (STypeOpcode_imm (put_S (word_of_int 2047) 0x23)) 12 = word_of_int 2047"
  using immediates_round_trip [of "- 8" "0x63" 0] immediates_round_trip [of "- 1048576" "0x6f" 0]
    immediates_round_trip [of 2047 "0x23" 0] by simp

end
