(* ===== verification/Config.thy ===== *)
theory Config
  imports Bits
begin

text \<open>
  Enumerations and compile-time configuration shared by the machines: \<open>TrapReason\<close>,
  \<open>InterruptReason\<close>, \<open>AccessType\<close>, \<open>Mode\<close>, the associated constants of the trait
  \<open>MachineConfig\<close> as a record, and the five configurations the simulator ships with (with the
  default cargo feature \<open>delegation\<close>).  The tracer trait is the free one: the list of calls a
  \<open>Tracer\<close> receives, so every property of the event list holds for every tracer.
\<close>

section \<open>Traps, access types, modes\<close>

datatype interrupt_reason =
    InterruptReserved
  | SupervisorSoftwareInterrupt
  | MachineSoftwareInterrupt
  | SupervisorTimerInterrupt
  | MachineTimerInterrupt
  | SupervisorExternalInterrupt
  | MachineExternalInterrupt

definition INTERRUPT_MASK :: u32 where "INTERRUPT_MASK = 0x80000000"

primrec InterruptReason_discriminant :: "interrupt_reason \<Rightarrow> u32" where
  "InterruptReason_discriminant InterruptReserved = 0"
| "InterruptReason_discriminant SupervisorSoftwareInterrupt = 1"
| "InterruptReason_discriminant MachineSoftwareInterrupt = 3"
| "InterruptReason_discriminant SupervisorTimerInterrupt = 5"
| "InterruptReason_discriminant MachineTimerInterrupt = 7"
| "InterruptReason_discriminant SupervisorExternalInterrupt = 9"
| "InterruptReason_discriminant MachineExternalInterrupt = 11"

definition InterruptReason_as_register_value :: "interrupt_reason \<Rightarrow> u32" where
  "InterruptReason_as_register_value r = InterruptReason_discriminant r OR 0x80000000"

datatype trap_reason =
    InstructionAddressMisaligned
  | InstructionAccessFault
  | IllegalInstruction
  | Breakpoint
  | LoadAddressMisaligned
  | LoadAccessFault
  | StoreOrAMOAddressMisaligned
  | StoreOrAMOAccessFault
  | EnvironmentCallFromUMode
  | EnvironmentCallFromSMode
  | EnvironmentCallFromMMode
  | InstructionPageFault
  | LoadPageFault
  | StoreOrAMOPageFault
  | NoTrap

primrec TrapReason_as_register_value :: "trap_reason \<Rightarrow> u32" where
  "TrapReason_as_register_value InstructionAddressMisaligned = 0"
| "TrapReason_as_register_value InstructionAccessFault = 1"
| "TrapReason_as_register_value IllegalInstruction = 2"
| "TrapReason_as_register_value Breakpoint = 3"
| "TrapReason_as_register_value LoadAddressMisaligned = 4"
| "TrapReason_as_register_value LoadAccessFault = 5"
| "TrapReason_as_register_value StoreOrAMOAddressMisaligned = 6"
| "TrapReason_as_register_value StoreOrAMOAccessFault = 7"
| "TrapReason_as_register_value EnvironmentCallFromUMode = 8"
| "TrapReason_as_register_value EnvironmentCallFromSMode = 9"
| "TrapReason_as_register_value EnvironmentCallFromMMode = 11"
| "TrapReason_as_register_value InstructionPageFault = 12"
| "TrapReason_as_register_value LoadPageFault = 13"
| "TrapReason_as_register_value StoreOrAMOPageFault = 15"
| "TrapReason_as_register_value NoTrap = 0xff"

definition is_a_trap :: "trap_reason \<Rightarrow> bool" where
  "is_a_trap t \<longleftrightarrow> TrapReason_as_register_value t \<noteq> TrapReason_as_register_value NoTrap"

definition TrapReason_from_register_value :: "u32 \<Rightarrow> trap_reason option" where
  "TrapReason_from_register_value v =
    (if v = TrapReason_as_register_value InstructionAddressMisaligned
       then Some InstructionAddressMisaligned
     else if v = TrapReason_as_register_value InstructionAccessFault then Some InstructionAccessFault
     else if v = TrapReason_as_register_value IllegalInstruction then Some IllegalInstruction
     else if v = TrapReason_as_register_value Breakpoint then Some Breakpoint
     else if v = TrapReason_as_register_value LoadAddressMisaligned then Some LoadAddressMisaligned
     else if v = TrapReason_as_register_value LoadAccessFault then Some LoadAccessFault
     else if v = TrapReason_as_register_value StoreOrAMOAddressMisaligned
       then Some StoreOrAMOAddressMisaligned
     else if v = TrapReason_as_register_value StoreOrAMOAccessFault then Some StoreOrAMOAccessFault
     else if v = TrapReason_as_register_value EnvironmentCallFromUMode
       then Some EnvironmentCallFromUMode
     else if v = TrapReason_as_register_value EnvironmentCallFromSMode
       then Some EnvironmentCallFromSMode
     else if v = TrapReason_as_register_value EnvironmentCallFromMMode
       then Some EnvironmentCallFromMMode
     else if v = TrapReason_as_register_value InstructionPageFault then Some InstructionPageFault
     else if v = TrapReason_as_register_value LoadPageFault then Some LoadPageFault
     else if v = TrapReason_as_register_value StoreOrAMOPageFault then Some StoreOrAMOPageFault
     else panic)"

datatype access_type =
    Instruction | MemLoad | MemStore | RegReadFirst | RegReadSecond | RegWrite | AccessNone

primrec is_write_access :: "access_type \<Rightarrow> bool" where
  "is_write_access Instruction = False"
| "is_write_access MemLoad = False"
| "is_write_access MemStore = True"
| "is_write_access RegReadFirst = False"
| "is_write_access RegReadSecond = False"
| "is_write_access RegWrite = True"
| "is_write_access AccessNone = True"

definition is_read_access :: "access_type \<Rightarrow> bool" where
  "is_read_access a \<longleftrightarrow> \<not> is_write_access a"

primrec is_reg_access :: "access_type \<Rightarrow> bool" where
  "is_reg_access Instruction = False"
| "is_reg_access MemLoad = False"
| "is_reg_access MemStore = False"
| "is_reg_access RegReadFirst = True"
| "is_reg_access RegReadSecond = True"
| "is_reg_access RegWrite = True"
| "is_reg_access AccessNone = False"

definition AccessType_from_idx :: "u32 \<Rightarrow> access_type" where
  "AccessType_from_idx i =
    (if i = 0 then Instruction else if i = 1 then MemLoad else if i = 2 then MemStore
     else if i = 3 then RegReadFirst else if i = 4 then RegReadSecond else if i = 5 then RegWrite
     else AccessNone)"

datatype mode = User | Supervisor | Reserved | Machine

primrec Mode_as_register_value :: "mode \<Rightarrow> u32" where
  "Mode_as_register_value User = 0"
| "Mode_as_register_value Supervisor = 1"
| "Mode_as_register_value Reserved = 2"
| "Mode_as_register_value Machine = 3"

text \<open>The last match arm is undefined behaviour in the source; it is \<open>None\<close> here.\<close>

definition Mode_from_proper_bit_value :: "u32 \<Rightarrow> mode option" where
  "Mode_from_proper_bit_value src =
    (if src = Mode_as_register_value User then Some User
     else if src = Mode_as_register_value Supervisor then Some Supervisor
     else if src = Mode_as_register_value Reserved then Some Reserved
     else if src = Mode_as_register_value Machine then Some Machine
     else None)"

section \<open>Machine configurations\<close>

record machine_config =
  SUPPORT_MUL :: bool
  SUPPORT_DIV :: bool
  SUPPORT_SIGNED_MUL :: bool
  SUPPORT_SIGNED_DIV :: bool
  SUPPORT_SIGNED_LOAD :: bool
  SUPPORT_LOAD_LESS_THAN_WORD :: bool
  SUPPORT_SRA :: bool
  SUPPORT_ROT :: bool
  SUPPORT_MOPS :: bool
  HANDLE_EXCEPTIONS :: bool
  SUPPORT_STANDARD_CSRS :: bool
  SUPPORT_ONLY_CSRRW :: bool
  ALLOWED_DELEGATION_CSRS :: "u32 list"

definition NON_DETERMINISM_CSR :: u32 where "NON_DETERMINISM_CSR = 0x7c0"
definition MARKER_CSR :: u32 where "MARKER_CSR = 0x7ff"
definition BLAKE2_ROUND_FUNCTION_WITH_EXTENDED_CONTROL_ACCESS_ID :: u32 where
  "BLAKE2_ROUND_FUNCTION_WITH_EXTENDED_CONTROL_ACCESS_ID = NON_DETERMINISM_CSR + 7"
definition U256_OPS_WITH_CONTROL_ACCESS_ID :: u32 where
  "U256_OPS_WITH_CONTROL_ACCESS_ID = NON_DETERMINISM_CSR + 10"

lemmas csr_ids = NON_DETERMINISM_CSR_def MARKER_CSR_def
  BLAKE2_ROUND_FUNCTION_WITH_EXTENDED_CONTROL_ACCESS_ID_def U256_OPS_WITH_CONTROL_ACCESS_ID_def

definition IMStandardIsaConfig :: machine_config where
  "IMStandardIsaConfig = \<lparr>
    SUPPORT_MUL = True, SUPPORT_DIV = True, SUPPORT_SIGNED_MUL = True, SUPPORT_SIGNED_DIV = True,
    SUPPORT_SIGNED_LOAD = True, SUPPORT_LOAD_LESS_THAN_WORD = True, SUPPORT_SRA = True,
    SUPPORT_ROT = False, SUPPORT_MOPS = False, HANDLE_EXCEPTIONS = False,
    SUPPORT_STANDARD_CSRS = False, SUPPORT_ONLY_CSRRW = True,
    ALLOWED_DELEGATION_CSRS =
      [BLAKE2_ROUND_FUNCTION_WITH_EXTENDED_CONTROL_ACCESS_ID, U256_OPS_WITH_CONTROL_ACCESS_ID]\<rparr>"

definition IMWithoutSignedMulDivIsaConfig :: machine_config where
  "IMWithoutSignedMulDivIsaConfig = \<lparr>
    SUPPORT_MUL = True, SUPPORT_DIV = True, SUPPORT_SIGNED_MUL = False, SUPPORT_SIGNED_DIV = False,
    SUPPORT_SIGNED_LOAD = True, SUPPORT_LOAD_LESS_THAN_WORD = True, SUPPORT_SRA = True,
    SUPPORT_ROT = False, SUPPORT_MOPS = False, HANDLE_EXCEPTIONS = False,
    SUPPORT_STANDARD_CSRS = False, SUPPORT_ONLY_CSRRW = True,
    ALLOWED_DELEGATION_CSRS =
      [BLAKE2_ROUND_FUNCTION_WITH_EXTENDED_CONTROL_ACCESS_ID, U256_OPS_WITH_CONTROL_ACCESS_ID]\<rparr>"

definition IWithoutByteAccessIsaConfigWithDelegation :: machine_config where
  "IWithoutByteAccessIsaConfigWithDelegation = \<lparr>
    SUPPORT_MUL = False, SUPPORT_DIV = False, SUPPORT_SIGNED_MUL = False,
    SUPPORT_SIGNED_DIV = False, SUPPORT_SIGNED_LOAD = False, SUPPORT_LOAD_LESS_THAN_WORD = False,
    SUPPORT_SRA = True, SUPPORT_ROT = False, SUPPORT_MOPS = True, HANDLE_EXCEPTIONS = False,
    SUPPORT_STANDARD_CSRS = False, SUPPORT_ONLY_CSRRW = True,
    ALLOWED_DELEGATION_CSRS = [BLAKE2_ROUND_FUNCTION_WITH_EXTENDED_CONTROL_ACCESS_ID]\<rparr>"

definition IWithoutByteAccessIsaConfig :: machine_config where
  "IWithoutByteAccessIsaConfig = \<lparr>
    SUPPORT_MUL = False, SUPPORT_DIV = False, SUPPORT_SIGNED_MUL = False,
    SUPPORT_SIGNED_DIV = False, SUPPORT_SIGNED_LOAD = False, SUPPORT_LOAD_LESS_THAN_WORD = False,
    SUPPORT_SRA = True, SUPPORT_ROT = False, SUPPORT_MOPS = True, HANDLE_EXCEPTIONS = False,
    SUPPORT_STANDARD_CSRS = False, SUPPORT_ONLY_CSRRW = True,
    ALLOWED_DELEGATION_CSRS = []\<rparr>"

definition IMIsaConfigWithAllDelegations :: machine_config where
  "IMIsaConfigWithAllDelegations = \<lparr>
    SUPPORT_MUL = True, SUPPORT_DIV = True, SUPPORT_SIGNED_MUL = True, SUPPORT_SIGNED_DIV = True,
    SUPPORT_SIGNED_LOAD = True, SUPPORT_LOAD_LESS_THAN_WORD = True, SUPPORT_SRA = True,
    SUPPORT_ROT = False, SUPPORT_MOPS = True, HANDLE_EXCEPTIONS = False,
    SUPPORT_STANDARD_CSRS = False, SUPPORT_ONLY_CSRRW = True,
    ALLOWED_DELEGATION_CSRS =
      [BLAKE2_ROUND_FUNCTION_WITH_EXTENDED_CONTROL_ACCESS_ID, U256_OPS_WITH_CONTROL_ACCESS_ID]\<rparr>"

lemmas isa_config_defs [config_defs] = IMStandardIsaConfig_def IMWithoutSignedMulDivIsaConfig_def
  IWithoutByteAccessIsaConfigWithDelegation_def IWithoutByteAccessIsaConfig_def
  IMIsaConfigWithAllDelegations_def

section \<open>Tracer events\<close>

text \<open>
  One constructor per method of the trait \<open>Tracer\<close>; \<open>'s\<close> is the machine state handed to
  \<open>at_cycle_start\<close> and \<open>at_cycle_end\<close>.  \<open>RecordDelegation\<close> carries the read and written values of
  the register and indirect accesses; their timestamps are filled in by the tracer and never read
  by the simulator.
\<close>

datatype 's trace_event =
    AtCycleStart 's
  | AtCycleEnd 's
  | OpcodeRead u64 u32
  | Rs1Read u32 u32
  | Rs2Read u32 u32
  | RdWrite u32 u32 u32
  | NonDeterminismRead u32
  | NonDeterminismWrite u32
  | RamRead u64 u32
  | RamReadWrite u64 u32 u32
  | AddressTranslation u32 u64 u64
  | RecordDelegation u32 u32 "(u32 \<times> u32) list" "u32 list" "u32 list" "u32 list" "(u32 \<times> u32) list"

type_synonym 's trace = "'s trace_event list"

section \<open>Lemmas\<close>

lemma is_a_trap_iff [simp]: "is_a_trap t \<longleftrightarrow> t \<noteq> NoTrap"
  by (cases t) (simp_all add: is_a_trap_def)

lemma TrapReason_register_round_trip:
  "is_a_trap t \<Longrightarrow> TrapReason_from_register_value (TrapReason_as_register_value t) = Some t"
  by (cases t) (simp_all add: TrapReason_from_register_value_def)

lemma Mode_round_trip: "Mode_from_proper_bit_value (Mode_as_register_value m) = Some m"
  by (cases m) (simp_all add: Mode_from_proper_bit_value_def)

lemma Mode_from_two_bits: "\<exists>m. Mode_from_proper_bit_value (take_bit 2 w) = Some m"
proof -
  have "take_bit 2 w \<in> {0, 1, 2, 3 :: u32}"
    using unat_take_bit_less [of 2 w] by (auto simp: word_unat_eq_iff)
  then show ?thesis
    by (auto simp: Mode_from_proper_bit_value_def)
qed

end
