(* ===== verification/Memory.thy ===== *)
theory Memory
  imports Config
begin

text \<open>
  The word memory of the simulator.  The trait \<open>MemorySource\<close> is a record of its two methods,
  which every client takes as an argument; \<open>VectorMemoryImpl\<close> is the implementation of the
  sources.  On top of it stand the two pairs of sub-word accessors: the traced, trapping ones of
  \<open>abstractions/mod.rs\<close> (first machine) and the panicking ones of \<open>cycle/utils.rs\<close> (unrolled
  machine).  The locale \<open>word_memory\<close> is the contract of a memory; the accessors are proved
  correct against it byte by byte, and \<open>VectorMemoryImpl\<close> is shown to satisfy it.
\<close>

section \<open>The memory trait and the vector implementation\<close>

record 'm memory_source =
  ms_get :: "'m \<Rightarrow> u64 \<Rightarrow> access_type \<Rightarrow> trap_reason \<Rightarrow> (u32 \<times> trap_reason) option"
  ms_set :: "'m \<Rightarrow> u64 \<Rightarrow> u32 \<Rightarrow> access_type \<Rightarrow> trap_reason \<Rightarrow> ('m \<times> trap_reason) option"

definition set_noexcept :: "'m memory_source \<Rightarrow> 'm \<Rightarrow> u64 \<Rightarrow> u32 \<Rightarrow> 'm option" where
  "set_noexcept ms m phys_address value = do {
     (m, _) \<leftarrow> ms_set ms m phys_address value MemStore NoTrap;
     Some m }"

definition get_noexcept :: "'m memory_source \<Rightarrow> 'm \<Rightarrow> u64 \<Rightarrow> u32 option" where
  "get_noexcept ms m phys_address = do {
     (value, _) \<leftarrow> ms_get ms m phys_address MemLoad NoTrap;
     Some value }"

definition get_opcode_noexcept :: "'m memory_source \<Rightarrow> 'm \<Rightarrow> u64 \<Rightarrow> u32 option" where
  "get_opcode_noexcept ms m phys_address = do {
     (value, _) \<leftarrow> ms_get ms m phys_address Instruction NoTrap;
     Some value }"

record vector_memory = inner :: "u32 list"

definition new_for_byte_size :: "usize \<Rightarrow> vector_memory option" where
  "new_for_byte_size bytes = do {
     rust_assert (bytes mod 4 = 0);
     let word_size = bytes div 4;
     Some \<lparr>inner = replicate (unat word_size) 0\<rparr> }"

definition populate :: "vector_memory \<Rightarrow> u32 \<Rightarrow> u32 \<Rightarrow> vector_memory option" where
  "populate m address value = do {
     rust_assert (address mod 4 = 0);
     rust_assert (unat (address div 4) < length (inner m));
     Some (m\<lparr>inner := (inner m)[unat (address div 4) := value]\<rparr>) }"

fun u32_from_le_bytes :: "u8 list \<Rightarrow> u32" where
  "u32_from_le_bytes [] = 0"
| "u32_from_le_bytes (b # bs) = ucast b OR push_bit 8 (u32_from_le_bytes bs)"

text \<open>The loop over \<open>bytes.array_chunks::<4>()\<close> zipped with the words from the entry point on:
  it ends with the shorter of the two, a partial last chunk is dropped.\<close>

fun load_words :: "u8 list \<Rightarrow> u32 list \<Rightarrow> u32 list" where
  "load_words (b0 # b1 # b2 # b3 # bs) (w # ws) =
     u32_from_le_bytes [b0, b1, b2, b3] # load_words bs ws"
| "load_words _ ws = ws"

definition load_image :: "vector_memory \<Rightarrow> u32 \<Rightarrow> u8 list \<Rightarrow> vector_memory option" where
  "load_image m entry_point bytes = do {
     let start = unat (entry_point div 4);
     rust_assert (start \<le> length (inner m));
     Some (m\<lparr>inner := take start (inner m) @ load_words bytes (drop start (inner m))\<rparr>) }"

fun access_fault :: "access_type \<Rightarrow> trap_reason option" where
  "access_fault Instruction = Some InstructionAccessFault"
| "access_fault MemLoad = Some LoadAccessFault"
| "access_fault MemStore = Some StoreOrAMOAccessFault"
| "access_fault _ = panic"

definition VectorMemoryImpl_get ::
  "vector_memory \<Rightarrow> u64 \<Rightarrow> access_type \<Rightarrow> trap_reason \<Rightarrow> (u32 \<times> trap_reason) option" where
  "VectorMemoryImpl_get m phys_address access_type trap =
    (if unat (phys_address div 4) < length (inner m)
     then Some (inner m ! unat (phys_address div 4), trap)
     else do {
       trap \<leftarrow> access_fault access_type;
       Some (0, trap) })"

definition VectorMemoryImpl_set ::
  "vector_memory \<Rightarrow> u64 \<Rightarrow> u32 \<Rightarrow> access_type \<Rightarrow> trap_reason \<Rightarrow> (vector_memory \<times> trap_reason) option"
  where
  "VectorMemoryImpl_set m phys_address value access_type trap =
    (if unat (phys_address div 4) < length (inner m)
     then Some (m\<lparr>inner := (inner m)[unat (phys_address div 4) := value]\<rparr>, trap)
     else do {
       trap \<leftarrow> access_fault access_type;
       Some (m, trap) })"

definition VectorMemoryImpl :: "vector_memory memory_source" where
  "VectorMemoryImpl = \<lparr>ms_get = VectorMemoryImpl_get, ms_set = VectorMemoryImpl_set\<rparr>"

section \<open>Sub-word accesses\<close>

text \<open>The pairs of unalignment and width both accessors accept, and their masks.  A width the
  match does not list is undefined behaviour in the sources and \<open>None\<close> here.\<close>

definition supported_accesses :: "(nat \<times> nat) list" where
  "supported_accesses = [(0, 4), (0, 2), (2, 2), (0, 1), (1, 1), (2, 1), (3, 1)]"

definition value_mask :: "nat \<Rightarrow> u32 option" where
  "value_mask num_bytes =
    (if num_bytes = 1 then Some 0x000000ff else if num_bytes = 2 then Some 0x0000ffff
     else if num_bytes = 4 then Some 0xffffffff else None)"

definition mask_old :: "nat \<Rightarrow> nat \<Rightarrow> u32 option" where
  "mask_old unalignment num_bytes =
    (if (unalignment, num_bytes) = (0, 1) then Some 0xffffff00
     else if (unalignment, num_bytes) = (0, 2) then Some 0xffff0000
     else if (unalignment, num_bytes) = (0, 4) then Some 0x00000000
     else if (unalignment, num_bytes) = (1, 1) then Some 0xffff00ff
     else if (unalignment, num_bytes) = (1, 2) then Some 0xffff00ff
     else if (unalignment, num_bytes) = (2, 1) then Some 0xff00ffff
     else if (unalignment, num_bytes) = (2, 2) then Some 0x0000ffff
     else if (unalignment, num_bytes) = (3, 1) then Some 0x00ffffff
     else None)"

definition unalignment_of :: "u64 \<Rightarrow> nat" where
  "unalignment_of phys_address = unat (phys_address AND 3)"

definition aligned_address_of :: "u64 \<Rightarrow> u64" where
  "aligned_address_of phys_address = phys_address AND NOT 3"

definition trace_mem_read :: "access_type \<Rightarrow> u64 \<Rightarrow> u32 \<Rightarrow> 's trace_event" where
  "trace_mem_read access_type addr value =
    (if access_type = Instruction then OpcodeRead addr value else RamRead addr value)"

definition mem_read ::
  "machine_config \<Rightarrow> 'm memory_source \<Rightarrow> 'm \<Rightarrow> 's trace \<Rightarrow> u64 \<Rightarrow> nat \<Rightarrow> access_type \<Rightarrow> trap_reason
   \<Rightarrow> (u32 \<times> 's trace \<times> trap_reason) option" where
  "mem_read C ms m tracer phys_address num_bytes access_type trap = do {
     rust_assert (access_type = Instruction \<or> access_type = MemLoad);
     let unalignment = unalignment_of phys_address;
     let aligned_address = aligned_address_of phys_address;
     if SUPPORT_LOAD_LESS_THAN_WORD C then do {
       (value, tracer, trap) \<leftarrow>
         (if (unalignment, num_bytes) \<in> set supported_accesses then do {
            (value, trap) \<leftarrow> ms_get ms m aligned_address access_type trap;
            let tracer = tracer @ [trace_mem_read access_type aligned_address value];
            Some (drop_bit (unalignment * 8) value, tracer, trap) }
          else Some (0, tracer, LoadAddressMisaligned));
       mask \<leftarrow> value_mask num_bytes;
       Some (value AND mask, tracer, trap) }
     else if (unalignment, num_bytes) = (0, 4) then do {
       (value, trap) \<leftarrow> ms_get ms m aligned_address access_type trap;
       Some (value, tracer @ [trace_mem_read access_type aligned_address value], trap) }
     else Some (0, tracer, LoadAddressMisaligned) }"

definition mem_write ::
  "machine_config \<Rightarrow> 'm memory_source \<Rightarrow> 'm \<Rightarrow> 's trace \<Rightarrow> u64 \<Rightarrow> u32 \<Rightarrow> nat \<Rightarrow> trap_reason
   \<Rightarrow> ('m \<times> 's trace \<times> trap_reason) option" where
  "mem_write C ms m tracer phys_address value num_bytes trap = do {
     let unalignment = unalignment_of phys_address;
     let aligned_address = aligned_address_of phys_address;
     if SUPPORT_LOAD_LESS_THAN_WORD C then
       (if (unalignment, num_bytes) \<in> set supported_accesses then do {
          (old_value, trap) \<leftarrow> ms_get ms m aligned_address MemLoad trap;
          if is_a_trap trap then Some (m, tracer, trap)
          else do {
            mask \<leftarrow> value_mask num_bytes;
            old \<leftarrow> mask_old unalignment num_bytes;
            let new_value = push_bit (unalignment * 8) (value AND mask) OR (old_value AND old);
            (m, trap) \<leftarrow> ms_set ms m aligned_address new_value MemStore trap;
            Some (m, tracer @ [RamReadWrite aligned_address old_value new_value], trap) } }
        else Some (m, tracer, StoreOrAMOAddressMisaligned))
     else if (unalignment, num_bytes) = (0, 4) then do {
       (old_value, trap) \<leftarrow> ms_get ms m aligned_address MemLoad trap;
       if is_a_trap trap then Some (m, tracer, trap)
       else do {
         (m, trap) \<leftarrow> ms_set ms m aligned_address value MemStore trap;
         Some (m, tracer @ [RamReadWrite aligned_address old_value value], trap) } }
     else Some (m, tracer, StoreOrAMOAddressMisaligned) }"

definition opcode_read :: "'m memory_source \<Rightarrow> u32 \<Rightarrow> 'm \<Rightarrow> u32 option" where
  "opcode_read ms pc m = get_opcode_noexcept ms m (ucast pc)"

definition mem_read_noexcept ::
  "machine_config \<Rightarrow> 'm memory_source \<Rightarrow> 'm \<Rightarrow> u64 \<Rightarrow> nat \<Rightarrow> (u32 \<times> u32) option" where
  "mem_read_noexcept C ms m phys_address num_bytes = do {
     let unalignment = unalignment_of phys_address;
     let aligned_address = aligned_address_of phys_address;
     aligned_value \<leftarrow> get_noexcept ms m aligned_address;
     if SUPPORT_LOAD_LESS_THAN_WORD C then do {
       value \<leftarrow>
         (if (unalignment, num_bytes) \<in> set supported_accesses
          then Some (drop_bit (unalignment * 8) aligned_value)
          else panic);
       mask \<leftarrow> value_mask num_bytes;
       Some (aligned_value, value AND mask) }
     else if (unalignment, num_bytes) = (0, 4) then Some (aligned_value, aligned_value)
     else panic }"

definition mem_write_noexcept ::
  "machine_config \<Rightarrow> 'm memory_source \<Rightarrow> 'm \<Rightarrow> u64 \<Rightarrow> u32 \<Rightarrow> nat \<Rightarrow> ((u32 \<times> u32) \<times> 'm) option" where
  "mem_write_noexcept C ms m phys_address value num_bytes = do {
     let unalignment = unalignment_of phys_address;
     let aligned_address = aligned_address_of phys_address;
     old_aligned_value \<leftarrow> get_noexcept ms m aligned_address;
     if SUPPORT_LOAD_LESS_THAN_WORD C then
       (if (unalignment, num_bytes) \<in> set supported_accesses then do {
          mask \<leftarrow> value_mask num_bytes;
          old \<leftarrow> mask_old unalignment num_bytes;
          let new_value =
            push_bit (unalignment * 8) (value AND mask) OR (old_aligned_value AND old);
          m \<leftarrow> set_noexcept ms m aligned_address new_value;
          Some ((old_aligned_value, new_value), m) }
        else panic)
     else if (unalignment, num_bytes) = (0, 4) then do {
       m \<leftarrow> set_noexcept ms m aligned_address value;
       Some ((old_aligned_value, value), m) }
     else panic }"

section \<open>Bytes of the memory\<close>

text \<open>The byte view a specification needs: byte \<open>k\<close> of a word, the byte at an address, and which
  accesses a configuration accepts.\<close>

definition byte_of :: "nat \<Rightarrow> u32 \<Rightarrow> u32" where
  "byte_of k w = take_bit 8 (drop_bit (8 * k) w)"

definition byte_at :: "('m \<Rightarrow> nat \<Rightarrow> u32 option) \<Rightarrow> 'm \<Rightarrow> u64 \<Rightarrow> u32 option" where
  "byte_at word_at m b = map_option (byte_of (unat b mod 4)) (word_at m (unat b div 4))"

definition aligned_access :: "machine_config \<Rightarrow> u64 \<Rightarrow> nat \<Rightarrow> bool" where
  "aligned_access C a n \<longleftrightarrow>
    (if SUPPORT_LOAD_LESS_THAN_WORD C then (unat a mod 4, n) \<in> set supported_accesses
     else unat a mod 4 = 0 \<and> n = 4)"

lemma supported_bound: "(i, n) \<in> set supported_accesses \<Longrightarrow> i + n \<le> 4 \<and> 0 < n"
  by (auto simp: supported_accesses_def)

lemma supported_masks:
  assumes "(i, n) \<in> set supported_accesses"
  shows "value_mask n = Some (mask (8 * n))"
    and "mask_old i n = Some (NOT (push_bit (8 * i) (mask (8 * n))))"
  using assms
  by (auto simp: supported_accesses_def value_mask_def mask_old_def mask_eq_exp_minus_1 push_bit_eq_mult)

lemma bit_byte_of: "bit (byte_of k w) j \<longleftrightarrow> j < 8 \<and> bit w (8 * k + j)"
  by (auto simp: byte_of_def bit_simps)

lemma byte_of_merge:
  assumes "i + n \<le> 4" "j < 4"
  shows "byte_of j (push_bit (8 * i) (v AND mask (8 * n)) OR (old AND NOT (push_bit (8 * i) (mask (8 * n)))))
    = (if i \<le> j \<and> j < i + n then byte_of (j - i) v else byte_of j old)"
  using assms
  by (intro bit_word_eqI) (auto simp: bit_byte_of bit_simps diff_mult_distrib2 )
lemma byte_of_read:
  "byte_of k (drop_bit (8 * i) w AND mask (8 * n)) = (if k < n then byte_of (i + k) w else 0)"
  by (rule bit_word_eqI) (auto simp: bit_byte_of bit_simps algebra_simps)



lemma and_3_eq: "(a :: u64) AND 3 = a mod 4" "a AND NOT 3 = a div 4 * 4"
proof -
  have m: "(3 :: u64) = mask 2"
    by (simp add: mask_eq_exp_minus_1)
  have "a AND 3 = take_bit 2 a"
    by (simp only: take_bit_eq_mask m)
  then show "a AND 3 = a mod 4"
    by (simp add: take_bit_eq_mod)
  have "a AND NOT 3 = push_bit 2 (drop_bit 2 a)"
    unfolding m
    by (rule bit_word_eqI) (auto simp: bit_simps not_less; metis add_2_eq_Suc' le_add_diff_inverse2)
  then show "a AND NOT 3 = a div 4 * 4"
    by (simp add: drop_bit_eq_div push_bit_eq_mult)
qed

lemma unalignment_of_mod: "unalignment_of a = unat a mod 4"
  by (simp add: unalignment_of_def and_3_eq unat_mod_distrib)

lemma unat_align: "unat (aligned_address_of a) = 4 * (unat a div 4)"
  using unsigned_less [where ?'a = nat, of a]
  unfolding and_3_eq aligned_address_of_def by (simp add: unat_word_ariths(2) unat_div_distrib)

lemma in_access_iff_nat:
  fixes A B M :: nat
  assumes "4 * A + i < 4 * M" "4 * B + j < 4 * M" "i < 4" "j < 4" "i + n \<le> 4" "2 \<le> M"
  shows "(if 4 * A + i \<le> 4 * B + j then 4 * B + j - (4 * A + i) else 4 * B + j + 4 * M - (4 * A + i)) < n
    \<longleftrightarrow> B = A \<and> i \<le> j \<and> j < i + n"
proof -
  consider "B = A" | d where "B = A + d" "0 < d" | d where "A = B + d" "0 < d"
    by (metis less_imp_add_positive nat_neq_iff)
  then show ?thesis
  proof cases
    case 1 with assms show ?thesis by auto
  next
    case 2 with assms show ?thesis by auto
  next
    case 3
    moreover have "B + d + 1 \<le> M" using assms 3 by simp
    then obtain k where "M = B + d + 1 + k" using le_Suc_ex by blast
    ultimately show ?thesis using assms by auto
  qed
qed
lemma in_access_iff:
  fixes a b :: u64
  assumes "unat a mod 4 + n \<le> 4" 
  shows "unat (b - a) < n \<longleftrightarrow>
    unat b div 4 = unat a div 4 \<and> unat a mod 4 \<le> unat b mod 4 \<and> unat b mod 4 < unat a mod 4 + n"
proof -
  have "unat (b - a) < n \<longleftrightarrow>
      (if unat a \<le> unat b then unat b - unat a else unat b + 4 * 2 ^ 62 - unat a) < n"
    by (simp add: unat_sub_if_size word_size)
  moreover have "unat a < 4 * 2 ^ 62" "unat b < 4 * 2 ^ 62" "2 \<le> (2 ^ 62 :: nat)"
    using unsigned_less [where ?'a = nat, of a] unsigned_less [where ?'a = nat, of b] by simp_all
  ultimately show ?thesis
    using in_access_iff_nat [of "unat a div 4" "unat a mod 4" "2 ^ 62" "unat b div 4" "unat b mod 4" n]
      assms by (simp only: mult_div_mod_eq mod_less_divisor zero_less_numeral)
qed


lemma unat_align_div [simp]: "unat (aligned_address_of a) div 4 = unat a div 4"
  by (simp add: unat_align)

lemma byte_of_4: "k < 4 \<Longrightarrow> byte_of k (w AND mask 32) = byte_of k w"
  by (rule bit_word_eqI) (auto simp: bit_byte_of bit_simps)


lemma and_mask_32 [simp]: "(w :: u32) AND mask 32 = w"
  by (rule bit_word_eqI) (auto simp: bit_simps)

lemma unat_add_in_word:
  fixes a :: u64
  assumes "unat a mod 4 + k < 4"
  shows "unat (a + of_nat k) div 4 = unat a div 4" "unat (a + of_nat k) mod 4 = unat a mod 4 + k"
proof -
  have "unat a + k < 2 ^ 64"
  proof -
    have "unat a div 4 + 1 \<le> 2 ^ 62"
      using unsigned_less [where ?'a = nat, of a] by (simp add: div_less_iff_less_mult Suc_le_eq)
    moreover have "unat a = 4 * (unat a div 4) + unat a mod 4"
      by simp
    ultimately have "unat a + k < 4 * 2 ^ 62"
      using assms by linarith
    then show ?thesis by simp
  qed
  moreover have "unat (of_nat k :: u64) = k"
    using assms by (simp add: unat_of_nat take_bit_eq_mod)
  ultimately have "unat (a + of_nat k) = unat a + k"
    by (simp add: unat_word_ariths(1))
  then have "unat (a + of_nat k) = 4 * (unat a div 4) + (unat a mod 4 + k)"
    by simp
  with assms show "unat (a + of_nat k) div 4 = unat a div 4" "unat (a + of_nat k) mod 4 = unat a mod 4 + k"
    by (simp_all only: div_mult_self4 mod_mult_self4 div_less mod_less
        add_0_right)
qed

lemma unat_diff_in_word:
  fixes a b :: u64
  assumes "unat b div 4 = unat a div 4" "unat a mod 4 \<le> unat b mod 4"
  shows "unat (b - a) = unat b mod 4 - unat a mod 4"
proof -
  have "unat a \<le> unat b"
    using assms by (metis add_le_cancel_left mult_div_mod_eq)
  then have "unat (b - a) = unat b - unat a"
    by (simp add: unat_sub word_le_nat_alt)
  with assms show ?thesis
    by (metis add_diff_cancel_left mult_div_mod_eq)
qed

lemma bytes_eqI: "(\<And>k. k < 4 \<Longrightarrow> byte_of k x = byte_of k y) \<Longrightarrow> x = y"
proof (rule bit_word_eqI)
  fix j assume eq: "\<And>k. k < 4 \<Longrightarrow> byte_of k x = byte_of k y" and "j < LENGTH(32)"
  then have "bit (byte_of (j div 8) x) (j mod 8) = bit (byte_of (j div 8) y) (j mod 8)"
    by simp
  then show "bit x j = bit y j"
    by (simp add: bit_byte_of)
qed

lemma aligned_access_bound: "aligned_access C a n \<Longrightarrow> unat a mod 4 + n \<le> 4"
  by (auto simp: aligned_access_def dest: supported_bound split: if_splits)

section \<open>The contract of a memory\<close>

locale word_memory =
  fixes ms :: "'m memory_source" and word_at :: "'m \<Rightarrow> nat \<Rightarrow> u32 option"
  assumes get_in: "word_at m (unat a div 4) = Some v \<Longrightarrow> ms_get ms m a acc trap = Some (v, trap)"
    and get_out: "word_at m (unat a div 4) = None \<Longrightarrow>
      ms_get ms m a acc trap = map_option (Pair 0) (access_fault acc)"
    and set_in: "word_at m (unat a div 4) = Some v \<Longrightarrow>
      \<exists>m'. (\<forall>acc trap. ms_set ms m a w acc trap = Some (m', trap)) \<and>
        word_at m' = (word_at m)(unat a div 4 \<mapsto> w)"
    and set_out: "word_at m (unat a div 4) = None \<Longrightarrow>
      ms_set ms m a w acc trap = map_option (Pair m) (access_fault acc)"
begin

lemma mem_read_in:
  assumes "aligned_access C a n" "word_at m (unat a div 4) = Some w"
    "acc = Instruction \<or> acc = MemLoad"
  shows "mem_read C ms m tr a n acc trap =
    Some (drop_bit (8 * (unat a mod 4)) w AND mask (8 * n),
      tr @ [trace_mem_read acc (aligned_address_of a) w], trap)"
  using assms
  by (auto simp: mem_read_def aligned_access_def get_in supported_masks unalignment_of_mod Let_def
      mult.commute split: if_splits)

lemma mem_read_out:
  assumes "aligned_access C a n" "word_at m (unat a div 4) = None"
    "acc = Instruction \<or> acc = MemLoad"
  shows "mem_read C ms m tr a n acc trap =
    Some (0, tr @ [trace_mem_read acc (aligned_address_of a) 0], the (access_fault acc))"
  using assms
  by (auto simp: mem_read_def aligned_access_def get_out supported_masks unalignment_of_mod Let_def
      split: if_splits)

lemma mem_write_in:
  assumes "aligned_access C a n" "word_at m (unat a div 4) = Some w"
  shows "\<exists>m' new. mem_write C ms m tr a v n NoTrap =
      Some (m', tr @ [RamReadWrite (aligned_address_of a) w new], NoTrap) \<and>
    word_at m' = (word_at m)(unat a div 4 \<mapsto> new) \<and>
    (\<forall>j < 4. byte_of j new = (if unat a mod 4 \<le> j \<and> j < unat a mod 4 + n
       then byte_of (j - unat a mod 4) v else byte_of j w))"
proof (cases "SUPPORT_LOAD_LESS_THAN_WORD C")
  case True
  let ?i = "unat a mod 4"
  define new where "new = push_bit (8 * ?i) (v AND mask (8 * n)) OR (w AND NOT (push_bit (8 * ?i) (mask (8 * n))))"
  have sup: "(?i, n) \<in> set supported_accesses"
    using assms True by (simp add: aligned_access_def)
  obtain m' where m': "ms_set ms m (aligned_address_of a) new MemStore NoTrap = Some (m', NoTrap)"
    "word_at m' = (word_at m)(unat a div 4 \<mapsto> new)"
    using set_in [of m "aligned_address_of a" w new] assms(2)
    unfolding unat_align_div by blast
  have "mem_write C ms m tr a v n NoTrap =
      Some (m', tr @ [RamReadWrite (aligned_address_of a) w new], NoTrap)"
    using True sup m'(1) assms(2) supported_masks [OF sup]
    by (simp add: mem_write_def get_in unalignment_of_mod mult.commute [of _ 8] Let_def
        del: push_bit_and flip: new_def)
  moreover have "\<forall>j < 4. byte_of j new = (if ?i \<le> j \<and> j < ?i + n
      then byte_of (j - ?i) v else byte_of j w)"
    unfolding new_def using byte_of_merge supported_bound [OF sup] by blast
  ultimately show ?thesis
    using m'(2) by blast
next
  case False
  then have al: "unat a mod 4 = 0" "n = 4"
    using assms by (auto simp: aligned_access_def)
  obtain m' where "ms_set ms m (aligned_address_of a) v MemStore NoTrap = Some (m', NoTrap)"
    "word_at m' = (word_at m)(unat a div 4 \<mapsto> v)"
    using set_in [of m "aligned_address_of a" w v] assms by auto
  then show ?thesis
    using False al assms by (auto simp: mem_write_def get_in unalignment_of_mod)
qed

lemma mem_write_out:
  assumes "aligned_access C a n" "word_at m (unat a div 4) = None"
  shows "mem_write C ms m tr a v n trap = Some (m, tr, LoadAccessFault)"
  using assms
  by (auto simp: mem_write_def aligned_access_def get_out unalignment_of_mod split: if_splits)

lemma mem_write_bytes:
  assumes "aligned_access C a n" "word_at m (unat a div 4) = Some w"
  shows "\<exists>m' new. mem_write C ms m tr a v n NoTrap =
      Some (m', tr @ [RamReadWrite (aligned_address_of a) w new], NoTrap) \<and>
    (\<forall>i. (word_at m' i = None) = (word_at m i = None)) \<and>
    (\<forall>b. byte_at word_at m' b =
      (if unat (b - a) < n then Some (byte_of (unat (b - a)) v) else byte_at word_at m b))"
proof -
  obtain m' new where wr: "mem_write C ms m tr a v n NoTrap =
      Some (m', tr @ [RamReadWrite (aligned_address_of a) w new], NoTrap)"
    and upd: "word_at m' = (word_at m)(unat a div 4 \<mapsto> new)"
    and new: "\<forall>j < 4. byte_of j new = (if unat a mod 4 \<le> j \<and> j < unat a mod 4 + n
       then byte_of (j - unat a mod 4) v else byte_of j w)"
    using mem_write_in [OF assms] by blast
  have "byte_at word_at m' b =
      (if unat (b - a) < n then Some (byte_of (unat (b - a)) v) else byte_at word_at m b)" for b
    using assms new in_access_iff [OF aligned_access_bound [OF assms(1)], of b]
      unat_diff_in_word [of b a] by (auto simp: byte_at_def upd)
  then show ?thesis
    using wr upd assms(2) by auto
qed

lemma mem_read_bytes:
  assumes "aligned_access C a n" "word_at m (unat a div 4) = Some w"
    "acc = Instruction \<or> acc = MemLoad"
  shows "\<exists>v. mem_read C ms m tr a n acc trap =
      Some (v, tr @ [trace_mem_read acc (aligned_address_of a) w], trap) \<and>
    (\<forall>k < 4. Some (byte_of k v) =
      (if k < n then byte_at word_at m (a + of_nat k) else Some 0))"
proof -
  have "Some (byte_of k (drop_bit (8 * (unat a mod 4)) w AND mask (8 * n))) =
      (if k < n then byte_at word_at m (a + of_nat k) else Some 0)" for k
    using assms unat_add_in_word [of a k] aligned_access_bound [OF assms(1)]
    by (auto simp: byte_of_read byte_at_def)
  then show ?thesis
    using mem_read_in [OF assms] by blast
qed

text \<open>What a load sees after a store: every byte is the stored one where the two accesses
  overlap and the old one elsewhere.\<close>

lemma mem_read_after_write:
  assumes "aligned_access C a n" "word_at m (unat a div 4) = Some w"
    and "aligned_access C b k" "word_at m (unat b div 4) = Some w'"
  shows "\<exists>m' tr' x tr''. mem_write C ms m tr a v n NoTrap = Some (m', tr', NoTrap) \<and>
    mem_read C ms m' tr' b k MemLoad NoTrap = Some (x, tr'', NoTrap) \<and>
    (\<forall>j < 4. Some (byte_of j x) =
      (if k \<le> j then Some 0
       else if unat (b + of_nat j - a) < n then Some (byte_of (unat (b + of_nat j - a)) v)
       else byte_at word_at m (b + of_nat j)))"
proof -
  obtain m' new where wr: "mem_write C ms m tr a v n NoTrap =
      Some (m', tr @ [RamReadWrite (aligned_address_of a) w new], NoTrap)"
    and dom: "\<forall>i. (word_at m' i = None) = (word_at m i = None)"
    and new: "\<forall>b. byte_at word_at m' b =
      (if unat (b - a) < n then Some (byte_of (unat (b - a)) v) else byte_at word_at m b)"
    using mem_write_bytes [OF assms(1,2)] by blast
  obtain w'' where "word_at m' (unat b div 4) = Some w''"
    using dom assms(4) by (metis not_None_eq)
  then obtain x where rd: "mem_read C ms m' (tr @ [RamReadWrite (aligned_address_of a) w new]) b k MemLoad NoTrap =
      Some (x, (tr @ [RamReadWrite (aligned_address_of a) w new]) @ [trace_mem_read MemLoad (aligned_address_of b) w''], NoTrap)"
    and x: "\<forall>j < 4. Some (byte_of j x) = (if j < k then byte_at word_at m' (b + of_nat j) else Some 0)"
    using mem_read_bytes [OF assms(3)] by blast
  show ?thesis
    by (intro exI conjI, rule wr, rule rd) (use x new in auto)
qed

end

section \<open>The vector memory satisfies the contract\<close>

definition vector_word_at :: "vector_memory \<Rightarrow> nat \<Rightarrow> u32 option" where
  "vector_word_at m i = (if i < length (inner m) then Some (inner m ! i) else None)"

interpretation vm: word_memory VectorMemoryImpl vector_word_at
proof
  fix m a v w
  show "vector_word_at m (unat a div 4) = Some v \<Longrightarrow>
      \<exists>m'. (\<forall>acc trap. ms_set VectorMemoryImpl m a w acc trap = Some (m', trap)) \<and>
        vector_word_at m' = (vector_word_at m)(unat a div 4 \<mapsto> w)"
    by (auto simp: VectorMemoryImpl_def VectorMemoryImpl_set_def vector_word_at_def unat_div_distrib
        fun_eq_iff split: if_splits)
qed (auto simp: VectorMemoryImpl_def VectorMemoryImpl_get_def VectorMemoryImpl_set_def
    vector_word_at_def unat_div_distrib map_option_case split: if_splits option.splits)


section \<open>Agreement of the two accessor pairs\<close>

lemma aligned_address_of_aligned: "unalignment_of a = 0 \<Longrightarrow> aligned_address_of a = a"
proof -
  assume "unalignment_of a = 0"
  then have "unat (aligned_address_of a) = unat a"
    by (metis add.right_neutral mult_div_mod_eq unalignment_of_mod unat_align)
  then show ?thesis
    by (rule word_unat_eq_iff [THEN iffD2])
qed

lemma word_access_supported: "(i, 4) \<in> set supported_accesses \<longleftrightarrow> i = 0"
  by (auto simp: supported_accesses_def)

lemma value_mask_4: "value_mask 4 = Some (mask 32)"
  using supported_masks(1) [of 0 4] by (simp add: word_access_supported)

lemma mem_read_SomeD:
  assumes "mem_read C ms m tr a n acc NoTrap = Some (v, tr', NoTrap)"
  shows "\<exists>w msk. ms_get ms m (aligned_address_of a) acc NoTrap = Some (w, NoTrap) \<and>
    tr' = tr @ [trace_mem_read acc (aligned_address_of a) w] \<and>
    (if SUPPORT_LOAD_LESS_THAN_WORD C
     then (unalignment_of a, n) \<in> set supported_accesses \<and> value_mask n = Some msk \<and>
       v = drop_bit (unalignment_of a * 8) w AND msk
     else unalignment_of a = 0 \<and> n = 4 \<and> v = w)"
  using assms
  by (cases "SUPPORT_LOAD_LESS_THAN_WORD C")
    (auto simp: mem_read_def Let_def panic_simps split: if_splits)

lemma mem_read_agrees:
  assumes "mem_read C ms m tr a n MemLoad NoTrap = Some (v, tr', NoTrap)"
  shows "\<exists>w. mem_read_noexcept C ms m a n = Some (w, v) \<and> tr' = tr @ [RamRead (aligned_address_of a) w]"
  using mem_read_SomeD [OF assms]
  by (cases "SUPPORT_LOAD_LESS_THAN_WORD C")
    (auto simp: mem_read_noexcept_def get_noexcept_def trace_mem_read_def)

lemma opcode_read_agrees:
  assumes "mem_read C ms m tr (ucast pc) 4 Instruction NoTrap = Some (v, tr', NoTrap)" 
  shows "opcode_read ms pc m = Some v"
  using mem_read_SomeD [OF assms]
  by (auto simp: opcode_read_def get_opcode_noexcept_def word_access_supported value_mask_4
      aligned_address_of_aligned split: if_splits)

lemma mem_write_agrees:
  assumes "mem_write C ms m tr a v n NoTrap = Some (m', tr', NoTrap)"
  shows "\<exists>w w'. mem_write_noexcept C ms m a v n = Some ((w, w'), m') \<and>
    tr' = tr @ [RamReadWrite (aligned_address_of a) w w']"
proof (cases "SUPPORT_LOAD_LESS_THAN_WORD C")
  case True
  with assms obtain w msk old where
    "ms_get ms m (aligned_address_of a) MemLoad NoTrap = Some (w, NoTrap)"
    "(unalignment_of a, n) \<in> set supported_accesses" "value_mask n = Some msk"
    "mask_old (unalignment_of a) n = Some old"
    "ms_set ms m (aligned_address_of a)
      (push_bit (unalignment_of a * 8) (v AND msk) OR (w AND old)) MemStore NoTrap = Some (m', NoTrap)"
    "tr' = tr @ [RamReadWrite (aligned_address_of a) w
      (push_bit (unalignment_of a * 8) (v AND msk) OR (w AND old))]"
    by (auto simp: mem_write_def Let_def panic_simps simp del: push_bit_and split: if_splits)
  with True show ?thesis
    by (simp add: mem_write_noexcept_def get_noexcept_def set_noexcept_def Let_def del: push_bit_and)
next
  case False
  with assms show ?thesis
    by (auto simp: mem_write_def mem_write_noexcept_def get_noexcept_def set_noexcept_def Let_def
        panic_simps split: if_splits)
qed

text \<open>C3: a load after a store reads, byte by byte, the stored value where the two accesses
  overlap and the previous memory everywhere else, for every pair of aligned in-range accesses
  of any width the configuration supports; neither traps.\<close>

theorem load_after_store:
  assumes "aligned_access C a n" "unat a div 4 < length (inner m)"
    and "aligned_access C b k" "unat b div 4 < length (inner m)"
  shows "\<exists>m' tr' x tr''. mem_write C VectorMemoryImpl m tr a v n NoTrap = Some (m', tr', NoTrap) \<and>
    mem_read C VectorMemoryImpl m' tr' b k MemLoad NoTrap = Some (x, tr'', NoTrap) \<and>
    (\<forall>j < 4. Some (byte_of j x) =
      (if k \<le> j then Some 0
       else if unat (b + of_nat j - a) < n then Some (byte_of (unat (b + of_nat j - a)) v)
       else byte_at vector_word_at m (b + of_nat j)))"
  using assms by (intro vm.mem_read_after_write) (auto simp: vector_word_at_def)

theorem load_after_store_witness:
  "\<exists>m' tr' x tr''.
    mem_write IMStandardIsaConfig VectorMemoryImpl \<lparr>inner = [0x11223344, 0]\<rparr> ([] :: unit trace) 2 0xabcd 2 NoTrap
      = Some (m', tr', NoTrap) \<and>
    mem_read IMStandardIsaConfig VectorMemoryImpl m' tr' 3 1 MemLoad NoTrap = Some (x, tr'', NoTrap) \<and>
    byte_of 0 x = 0xab"
proof -
  have *: "aligned_access IMStandardIsaConfig 2 2" "aligned_access IMStandardIsaConfig 3 1"
    by (simp_all add: aligned_access_def config_defs supported_accesses_def)
  let ?m = "\<lparr>inner = [0x11223344, 0]\<rparr> :: vector_memory"
  obtain m' tr' x tr'' where
    "mem_write IMStandardIsaConfig VectorMemoryImpl ?m ([] :: unit trace) 2 0xabcd 2 NoTrap
      = Some (m', tr', NoTrap)"
    "mem_read IMStandardIsaConfig VectorMemoryImpl m' tr' 3 1 MemLoad NoTrap = Some (x, tr'', NoTrap)"
    and x: "\<forall>j < 4. Some (byte_of j x) =
      (if 1 \<le> j then Some 0
       else if unat (3 + of_nat j - 2 :: u64) < 2 then Some (byte_of (unat (3 + of_nat j - 2 :: u64)) 0xabcd)
       else byte_at vector_word_at ?m (3 + of_nat j))"
    using load_after_store [OF *(1) _ *(2), of ?m "[] :: unit trace" "0xabcd"] by auto
  moreover have "byte_of 0 x = 0xab"
    using spec [OF x, of 0] by (simp add: byte_of_def)
  ultimately show ?thesis
    by blast
qed

end
