(* ===== verification/Mmu.thy ===== *)
theory Mmu
  imports Memory
begin

text \<open>
  Address translation (\<open>mmu/mod.rs\<close>): the trait \<open>MMUImplementation\<close> as a record of its methods, the
  identity \<open>NoMMU\<close> the simulator runs with, and the Sv32 page-table walk of \<open>SimpleMMU\<close>.
\<close>

section \<open>The trait\<close>

record ('m, 's, 'mmu) mmu_impl =
  read_sapt :: "'mmu \<Rightarrow> mode \<Rightarrow> trap_reason \<Rightarrow> u32 \<times> 'mmu \<times> trap_reason"
  write_sapt :: "'mmu \<Rightarrow> u32 \<Rightarrow> mode \<Rightarrow> trap_reason \<Rightarrow> 'mmu \<times> trap_reason"
  map_virtual_to_physical ::
    "'mmu \<Rightarrow> u32 \<Rightarrow> mode \<Rightarrow> access_type \<Rightarrow> 'm \<Rightarrow> 's trace \<Rightarrow> trap_reason
     \<Rightarrow> (u64 \<times> 'm \<times> 's trace \<times> trap_reason) option"

section \<open>NoMMU\<close>

record no_mmu = no_mmu_sapt :: u32

definition NoMMU_read_sapt :: "no_mmu \<Rightarrow> mode \<Rightarrow> trap_reason \<Rightarrow> u32 \<times> no_mmu \<times> trap_reason" where
  "NoMMU_read_sapt mmu mode trap = (no_mmu_sapt mmu, mmu, trap)"

definition NoMMU_write_sapt :: "no_mmu \<Rightarrow> u32 \<Rightarrow> mode \<Rightarrow> trap_reason \<Rightarrow> no_mmu \<times> trap_reason" where
  "NoMMU_write_sapt mmu value mode trap = (mmu\<lparr>no_mmu_sapt := value\<rparr>, trap)"

definition NoMMU_map_virtual_to_physical ::
  "no_mmu \<Rightarrow> u32 \<Rightarrow> mode \<Rightarrow> access_type \<Rightarrow> 'm \<Rightarrow> 's trace \<Rightarrow> trap_reason
   \<Rightarrow> (u64 \<times> 'm \<times> 's trace \<times> trap_reason) option" where
  "NoMMU_map_virtual_to_physical mmu virt_address mode access_type m tracer trap =
     Some (ucast virt_address, m, tracer, trap)"

definition NoMMU :: "('m, 's, no_mmu) mmu_impl" where
  "NoMMU = \<lparr>read_sapt = NoMMU_read_sapt, write_sapt = NoMMU_write_sapt,
     map_virtual_to_physical = NoMMU_map_virtual_to_physical\<rparr>"

section \<open>Page table entries\<close>

datatype entry_bit =
  EntryValid | EntryRead | EntryWrite | EntryExecute | EntryUserMode | EntryGlobal | EntryAccessed
  | EntryDirty

primrec EntryBit_index :: "entry_bit \<Rightarrow> nat" where
  "EntryBit_index EntryValid = 0"
| "EntryBit_index EntryRead = 1"
| "EntryBit_index EntryWrite = 2"
| "EntryBit_index EntryExecute = 3"
| "EntryBit_index EntryUserMode = 4"
| "EntryBit_index EntryGlobal = 5"
| "EntryBit_index EntryAccessed = 6"
| "EntryBit_index EntryDirty = 7"

record page_table_entry = pte_value :: u32

definition vpn_0 :: "u32 \<Rightarrow> u32" where "vpn_0 src = get_bits_and_align_right src 12 10"
definition vpn_1 :: "u32 \<Rightarrow> u32" where "vpn_1 src = get_bits_and_align_right src 22 10"
definition ppn_0 :: "u32 \<Rightarrow> u32" where "ppn_0 src = get_bits_and_align_right src 10 10"
definition ppn_1 :: "u32 \<Rightarrow> u32" where "ppn_1 src = get_bits_and_align_right src 20 12"
definition ppn :: "u32 \<Rightarrow> u32" where "ppn src = get_bits_and_align_right src 10 22"

definition PageTableEntry_new :: page_table_entry where
  "PageTableEntry_new = \<lparr>pte_value = 0\<rparr>"

definition PageTableEntry_from_value :: "u32 \<Rightarrow> page_table_entry" where
  "PageTableEntry_from_value value = \<lparr>pte_value = value\<rparr>"

definition PageTableEntry_test_bit :: "page_table_entry \<Rightarrow> entry_bit \<Rightarrow> u32" where
  "PageTableEntry_test_bit pte b = get_bit_right_aligned (pte_value pte) (EntryBit_index b)"

definition PageTableEntry_is_valid :: "page_table_entry \<Rightarrow> bool" where
  "PageTableEntry_is_valid pte \<longleftrightarrow>
     PageTableEntry_test_bit pte EntryValid \<noteq> 0 \<and>
     \<not> (PageTableEntry_test_bit pte EntryWrite \<noteq> 0 \<and> PageTableEntry_test_bit pte EntryRead = 0)"

definition is_valid_for_access_type_in_privilege ::
  "page_table_entry \<Rightarrow> access_type \<Rightarrow> mode \<Rightarrow> bool" where
  "is_valid_for_access_type_in_privilege pte access_type privilege =
    (let invalid = privilege = User \<and> PageTableEntry_test_bit pte EntryUserMode = 0;
         invalid = (invalid \<or> access_type = MemLoad \<and> PageTableEntry_test_bit pte EntryRead = 0);
         invalid = (invalid \<or> access_type = MemStore \<and> PageTableEntry_test_bit pte EntryWrite = 0);
         invalid = (invalid \<or> access_type = Instruction \<and> PageTableEntry_test_bit pte EntryExecute = 0)
     in \<not> invalid)"

definition is_valid_for_ad_flags :: "page_table_entry \<Rightarrow> access_type \<Rightarrow> bool" where
  "is_valid_for_ad_flags pte access_type =
    (let invalid = PageTableEntry_test_bit pte EntryAccessed = 0;
         invalid = (invalid \<or> access_type = MemStore \<and> PageTableEntry_test_bit pte EntryDirty = 0)
     in \<not> invalid)"

definition SV32_PAGE_SIZE_LOG_2 :: nat where "SV32_PAGE_SIZE_LOG_2 = 12"
definition SV32_SUPERPAGE_SIZE_LOG_2 :: nat where "SV32_SUPERPAGE_SIZE_LOG_2 = 22"
definition SV32_LEVELS :: nat where "SV32_LEVELS = 2"
definition SV32_PTE_SHIFT :: nat where "SV32_PTE_SHIFT = 2"

section \<open>SimpleMMU\<close>

record simple_mmu = simple_mmu_sapt :: u32

definition SimpleMMU_read_sapt ::
  "simple_mmu \<Rightarrow> mode \<Rightarrow> trap_reason \<Rightarrow> u32 \<times> simple_mmu \<times> trap_reason" where
  "SimpleMMU_read_sapt mmu mode trap = (simple_mmu_sapt mmu, mmu, trap)"

definition SimpleMMU_write_sapt ::
  "simple_mmu \<Rightarrow> u32 \<Rightarrow> mode \<Rightarrow> trap_reason \<Rightarrow> simple_mmu \<times> trap_reason" where
  "SimpleMMU_write_sapt mmu value mode trap =
    (if mode \<noteq> Machine then (mmu, IllegalInstruction)
     else (mmu\<lparr>simple_mmu_sapt := value\<rparr>, trap))"

fun page_fault :: "access_type \<Rightarrow> trap_reason option" where
  "page_fault Instruction = Some InstructionPageFault"
| "page_fault MemLoad = Some LoadPageFault"
| "page_fault MemStore = Some StoreOrAMOPageFault"
| "page_fault _ = panic"

text \<open>The loop over the levels: \<open>Inl trap\<close> is the early return (with the value 0), \<open>Inr (i, pte)\<close>
  the state after the loop (a leaf was found, or every level was a pointer and \<open>i = -1\<close>).\<close>

fun sv32_walk ::
  "machine_config \<Rightarrow> 'm memory_source \<Rightarrow> 'm \<Rightarrow> access_type \<Rightarrow> u32 list \<Rightarrow> nat \<Rightarrow> u32 \<Rightarrow> int
   \<Rightarrow> page_table_entry \<Rightarrow> 's trace \<Rightarrow> trap_reason
   \<Rightarrow> ((trap_reason + int \<times> page_table_entry) \<times> 's trace) option" where
  "sv32_walk C ms m access_type vpns 0 a i pte tracer trap = Some (Inr (i, pte), tracer)"
| "sv32_walk C ms m access_type vpns (Suc levels) a i pte tracer trap = do {
     vpn \<leftarrow> idx vpns (nat i);
     let pte_addr = a + vpn;
     (pte_val, tracer, trap) \<leftarrow> mem_read C ms m tracer (ucast pte_addr) 4 access_type trap;
     if is_a_trap trap then Some (Inl trap, tracer)
     else do {
       let pte = PageTableEntry_from_value pte_val;
       if \<not> PageTableEntry_is_valid pte then do {
         trap \<leftarrow> page_fault access_type;
         Some (Inl trap, tracer) }
       else if PageTableEntry_test_bit pte EntryRead = 0 \<and> PageTableEntry_test_bit pte EntryExecute = 0
       then sv32_walk C ms m access_type vpns levels
              (push_bit SV32_PAGE_SIZE_LOG_2 (ppn (pte_value pte))) (i - 1) pte tracer trap
       else Some (Inr (i, pte), tracer) } }"

definition SimpleMMU_map_virtual_to_physical ::
  "machine_config \<Rightarrow> 'm memory_source \<Rightarrow> simple_mmu \<Rightarrow> u32 \<Rightarrow> mode \<Rightarrow> access_type \<Rightarrow> 'm \<Rightarrow> 's trace
   \<Rightarrow> trap_reason \<Rightarrow> (u64 \<times> 'm \<times> 's trace \<times> trap_reason) option" where
  "SimpleMMU_map_virtual_to_physical C ms mmu virt_address mode access_type m tracer trap = do {
     let should_translate = Mode_as_register_value mode < Mode_as_register_value Machine \<and>
       SATPRegister_is_bare_aligned_bit (simple_mmu_sapt mmu) \<noteq> 0;
     if \<not> should_translate then Some (ucast virt_address, m, tracer, trap)
     else do {
       let a = push_bit SV32_PAGE_SIZE_LOG_2 (SATPRegister_ppn (simple_mmu_sapt mmu));
       let vpns = [vpn_0 virt_address, vpn_1 virt_address];
       (walk, tracer) \<leftarrow> sv32_walk C ms m access_type vpns SV32_LEVELS a (int SV32_LEVELS - 1)
         PageTableEntry_new tracer trap;
       case walk of
         Inl trap \<Rightarrow> Some (0, m, tracer, trap)
       | Inr (i, pte) \<Rightarrow>
           if i < 0 \<or> \<not> is_valid_for_access_type_in_privilege pte access_type mode then do {
             trap \<leftarrow> page_fault access_type;
             Some (0, m, tracer, trap) }
           else do {
             let pte_val = push_bit SV32_PTE_SHIFT (pte_value pte);
             let ppns = [ppn_0 pte_val, ppn_1 pte_val];
             let physical_address_candidates =
               [push_bit 22 (ucast (ppns ! 1)) OR push_bit 12 (ucast (ppns ! 0))
                  OR ucast (get_bits_and_align_right virt_address 0 SV32_PAGE_SIZE_LOG_2),
                push_bit 22 (ucast (ppns ! 1))
                  OR ucast (get_bits_and_align_right virt_address 0 SV32_SUPERPAGE_SIZE_LOG_2)];
             if (0 < i \<and> ppns ! nat (i - 1) \<noteq> 0) \<or> \<not> is_valid_for_ad_flags pte access_type then do {
               trap \<leftarrow> page_fault access_type;
               Some (0, m, tracer, trap) }
             else do {
               pa \<leftarrow> idx physical_address_candidates (nat i);
               Some (pa, m, tracer, trap) } } } }"

definition SimpleMMU :: "machine_config \<Rightarrow> 'm memory_source \<Rightarrow> ('m, 's, simple_mmu) mmu_impl" where
  "SimpleMMU C ms = \<lparr>read_sapt = SimpleMMU_read_sapt, write_sapt = SimpleMMU_write_sapt,
     map_virtual_to_physical = SimpleMMU_map_virtual_to_physical C ms\<rparr>"

section \<open>The contract of the machine\<close>

text \<open>What the machines rely on outside of translation: a bare MMU maps an address to itself,
  touches neither memory nor trace and never traps.\<close>

locale bare_mmu =
  fixes mmu_ops :: "('m, 's, 'mmu) mmu_impl" and bare :: "'mmu \<Rightarrow> mode \<Rightarrow> bool"
  assumes map_bare: "bare mmu mode \<Longrightarrow>
      map_virtual_to_physical mmu_ops mmu a mode acc m tr trap = Some (ucast a, m, tr, trap)"
    and read_sapt_pure: "fst (snd (read_sapt mmu_ops mmu mode trap)) = mmu"
    and write_sapt_bare: "bare mmu Machine \<Longrightarrow> bare (fst (write_sapt mmu_ops mmu v Machine trap)) Machine"
begin

lemma map_bare_bind:
  "bare mmu mode \<Longrightarrow>
   (map_virtual_to_physical mmu_ops mmu a mode acc m tr trap \<bind> f) = f (ucast a, m, tr, trap)"
  by (simp add: map_bare)

end

interpretation nommu: bare_mmu NoMMU "\<lambda>_ _. True"
  by unfold_locales
    (simp_all add: NoMMU_def NoMMU_map_virtual_to_physical_def NoMMU_read_sapt_def)

interpretation simplemmu: bare_mmu "SimpleMMU C ms"
  "\<lambda>mmu mode. mode = Machine \<or> SATPRegister_is_bare_aligned_bit (simple_mmu_sapt mmu) = 0"
  by unfold_locales
    (auto simp: SimpleMMU_def SimpleMMU_map_virtual_to_physical_def SimpleMMU_read_sapt_def)

section \<open>Translated stores\<close>

lemma sv32_walk_store_panics:
  "sv32_walk C ms m MemStore vpns (Suc levels) a i pte tracer trap = panic"
  by (simp add: mem_read_def Let_def)

text \<open>C31: with translation switched on (below machine mode, mode bit of satp set), translating the
  address of a store panics: the walk reads the page table with the access type of the store, which
  the memory accessor rejects.\<close>

theorem simple_mmu_store_panics:
  assumes "Mode_as_register_value mode < Mode_as_register_value Machine"
    and "SATPRegister_is_bare_aligned_bit (simple_mmu_sapt mmu) \<noteq> 0"
  shows "SimpleMMU_map_virtual_to_physical C ms mmu virt_address mode MemStore m tracer trap = panic"
  using assms
  by (simp add: SimpleMMU_map_virtual_to_physical_def SV32_LEVELS_def numeral_2_eq_2
      sv32_walk_store_panics del: sv32_walk.simps)

theorem simple_mmu_store_panics_witness:
  "SimpleMMU_map_virtual_to_physical IMStandardIsaConfig VectorMemoryImpl
     \<lparr>simple_mmu_sapt = 0x80000001\<rparr> 0x1000 User MemStore \<lparr>inner = [0, 1, 2, 3]\<rparr>
     ([] :: unit trace) NoTrap = panic"
  by (rule simple_mmu_store_panics)
    (simp_all add: SATPRegister_is_bare_aligned_bit_def get_bits_and_align_right_def)

end
