(* ===== verification/NonDet.thy ===== *)
theory NonDet
  imports Memory
begin

text \<open>
  Sources of non-determinism (\<open>abstractions/non_determinism.rs\<close>): the trait
  \<open>NonDeterminismCSRSource\<close> as a record, \<open>ZeroedSource\<close>, and the quasi-UART protocol with which a
  guest program prints: the host side \<open>QuasiUARTSourceState::process_write\<close> and the guest side
  \<open>QuasiUART\<close> of \<open>riscv_common\<close>.  What \<open>println!\<close> prints is an extra result.  The guest is a 32-bit
  machine, so its \<open>usize\<close> is \<open>u32\<close>.
\<close>

section \<open>The trait\<close>

record ('m, 'nd) nd_source =
  SHOULD_MOCK_READS_BEFORE_WRITES :: bool
  SHOULD_IGNORE_WRITES_AFTER_READS :: bool
  nd_read :: "'nd \<Rightarrow> (u32 \<times> 'nd) option"
  nd_write_with_memory_access :: "'nd \<Rightarrow> 'm \<Rightarrow> u32 \<Rightarrow> 'nd option"

definition ZeroedSource :: "('m, unit) nd_source" where
  "ZeroedSource = \<lparr>
     SHOULD_MOCK_READS_BEFORE_WRITES = True,
     SHOULD_IGNORE_WRITES_AFTER_READS = True,
     nd_read = (\<lambda>s. Some (0, s)),
     nd_write_with_memory_access = (\<lambda>s m value. Some s)\<rparr>"

section \<open>Host side of the quasi-UART\<close>

datatype quasi_uart_source_state =
    Ready
  | Buffering "usize option" "usize option" "u8 list"

definition HELLO_VALUE :: u32 where "HELLO_VALUE = -1"

definition u32_to_le_bytes :: "u32 \<Rightarrow> u8 list" where
  "u32_to_le_bytes w = [ucast w, ucast (drop_bit 8 w), ucast (drop_bit 16 w), ucast (drop_bit 24 w)]"

text \<open>The result is the new state and the message printed, if any.\<close>

fun process_write :: "quasi_uart_source_state \<Rightarrow> u32 \<Rightarrow> quasi_uart_source_state \<times> u8 list option" where
  "process_write Ready value =
    (if value = HELLO_VALUE then (Buffering None None [], None) else (Ready, None))"
| "process_write (Buffering None remaining_len_in_bytes buffer) value =
    (Buffering (Some (ucast value)) remaining_len_in_bytes [], None)"
| "process_write (Buffering (Some remaining_words) None buffer) value =
    (Buffering (Some (remaining_words - 1)) (Some (ucast value)) buffer, None)"
| "process_write (Buffering (Some remaining_words) (Some remaining_len) buffer) value =
    (let (remaining_words, remaining_len, buffer) =
       (if 0 < remaining_words then
          (if 4 \<le> remaining_len
           then (remaining_words - 1, remaining_len - 4, buffer @ u32_to_le_bytes value)
           else (remaining_words - 1, 0, buffer @ take (unat remaining_len) (u32_to_le_bytes value)))
        else (remaining_words, remaining_len, buffer))
     in if remaining_words = 0 then (Ready, Some buffer)
        else (Buffering (Some remaining_words) (Some remaining_len) buffer, None))"

record quasi_uart_source =
  uart_oracle :: "u32 list"
  write_state :: quasi_uart_source_state
  uart_stdout :: "u8 list list"

definition QuasiUARTSource_new_with_reads :: "u32 list \<Rightarrow> quasi_uart_source" where
  "QuasiUARTSource_new_with_reads reads = \<lparr>uart_oracle = reads, write_state = Ready, uart_stdout = []\<rparr>"

definition QuasiUARTSource_default :: quasi_uart_source where
  "QuasiUARTSource_default = \<lparr>uart_oracle = [], write_state = Ready, uart_stdout = []\<rparr>"

definition QuasiUARTSource_read :: "quasi_uart_source \<Rightarrow> u32 \<times> quasi_uart_source" where
  "QuasiUARTSource_read s =
    (case uart_oracle s of [] \<Rightarrow> (0, s) | v # vs \<Rightarrow> (v, s\<lparr>uart_oracle := vs\<rparr>))"

definition QuasiUARTSource_write :: "quasi_uart_source \<Rightarrow> u32 \<Rightarrow> quasi_uart_source" where
  "QuasiUARTSource_write s value =
    (let (st, msg) = process_write (write_state s) value
     in s\<lparr>write_state := st,
          uart_stdout := uart_stdout s @ (case msg of None \<Rightarrow> [] | Some b \<Rightarrow> [b])\<rparr>)"

definition QuasiUARTSource :: "('m, quasi_uart_source) nd_source" where
  "QuasiUARTSource = \<lparr>
     SHOULD_MOCK_READS_BEFORE_WRITES = True,
     SHOULD_IGNORE_WRITES_AFTER_READS = True,
     nd_read = (\<lambda>s. Some (QuasiUARTSource_read s)),
     nd_write_with_memory_access = (\<lambda>s m value. Some (QuasiUARTSource_write s value))\<rparr>"

section \<open>Guest side of the quasi-UART\<close>

text \<open>The guest writes words to the CSR; each operation returns them in order.\<close>

record quasi_uart =
  qu_buffer :: "u8 list"
  qu_len :: u32

definition QuasiUART_new :: quasi_uart where
  "QuasiUART_new = \<lparr>qu_buffer = [0, 0, 0, 0], qu_len = 0\<rparr>"

definition next_multiple_of_4 :: "u32 \<Rightarrow> u32" where
  "next_multiple_of_4 n = (if n mod 4 = 0 then n else n + (4 - n mod 4))"

definition write_entry_sequence :: "u32 \<Rightarrow> u32 list" where
  "write_entry_sequence message_len =
     [HELLO_VALUE, next_multiple_of_4 message_len div 4 + 1, message_len]"

definition write_byte :: "quasi_uart \<Rightarrow> u8 \<Rightarrow> (quasi_uart \<times> u32 list) option" where
  "write_byte u byte = do {
     rust_assert (unat (qu_len u) < length (qu_buffer u));
     let buffer = (qu_buffer u)[unat (qu_len u) := byte];
     let len = qu_len u + 1;
     if len = 4 then Some (\<lparr>qu_buffer = buffer, qu_len = 0\<rparr>, [u32_from_le_bytes buffer])
     else Some (\<lparr>qu_buffer = buffer, qu_len = len\<rparr>, []) }"

definition flush :: "quasi_uart \<Rightarrow> (quasi_uart \<times> u32 list) option" where
  "flush u =
    (if qu_len u = 0 then Some (u\<lparr>qu_buffer := replicate 4 0\<rparr>, [])
     else do {
       rust_assert (length (qu_buffer u) = 4);
       let buffer = take (unat (qu_len u)) (qu_buffer u) @ replicate (4 - unat (qu_len u)) 0;
       Some (\<lparr>qu_buffer = buffer, qu_len = 0\<rparr>, [u32_from_le_bytes buffer]) })"

fun write_bytes :: "quasi_uart \<Rightarrow> u8 list \<Rightarrow> (quasi_uart \<times> u32 list) option" where
  "write_bytes u [] = Some (u, [])"
| "write_bytes u (b # bs) = do {
     (u, ws) \<leftarrow> write_byte u b;
     (u, ws') \<leftarrow> write_bytes u bs;
     Some (u, ws @ ws') }"

definition write_str :: "quasi_uart \<Rightarrow> u8 list \<Rightarrow> (quasi_uart \<times> u32 list) option" where
  "write_str u s = do {
     let ws0 = write_entry_sequence (of_nat (length s));
     (u, ws1) \<leftarrow> write_bytes u s;
     (u, ws2) \<leftarrow> flush u;
     Some (u, ws0 @ ws1 @ ws2) }"

text \<open>The host consuming a list of words.\<close>

fun process_writes ::
  "quasi_uart_source_state \<Rightarrow> u32 list \<Rightarrow> quasi_uart_source_state \<times> u8 list list" where
  "process_writes st [] = (st, [])"
| "process_writes st (w # ws) =
    (let (st, msg) = process_write st w; (st, out) = process_writes st ws
     in (st, (case msg of None \<Rightarrow> [] | Some b \<Rightarrow> [b]) @ out))"

section \<open>Guest and host together\<close>

lemma list4: "length bs = 4 \<Longrightarrow> \<exists>a b c d. bs = [a, b, c, d]"
  by (auto simp: length_Suc_conv eval_nat_numeral)

lemma to_from_le_bytes: "length bs = 4 \<Longrightarrow> u32_to_le_bytes (u32_from_le_bytes bs) = bs"
proof -
  assume "length bs = 4"
  then obtain a b c d where bs: "bs = [a, b, c, d]"
    using list4 by blast
  show ?thesis
    unfolding bs u32_to_le_bytes_def u32_from_le_bytes.simps list.inject
    by (intro conjI bit_word_eqI) (auto simp: bit_simps dest: bit_imp_le_length)
qed

text \<open>The data words of a message: chunks of four bytes, the last one padded with zeros.\<close>

fun words_of :: "u8 list \<Rightarrow> u32 list" where
  "words_of [] = []"
| "words_of bs = u32_from_le_bytes (take 4 bs @ replicate (4 - length bs) 0) # words_of (drop 4 bs)"

definition buffered :: "quasi_uart \<Rightarrow> u8 list \<Rightarrow> bool" where
  "buffered u p \<longleftrightarrow> length p < 4 \<and> qu_len u = of_nat (length p) \<and> length (qu_buffer u) = 4 \<and>
     take (length p) (qu_buffer u) = p"

lemma buffered_cases:
  assumes "buffered u p"
  obtains a b c d where "u = \<lparr>qu_buffer = [a, b, c, d], qu_len = 0\<rparr>" "p = []"
  | a b c d where "u = \<lparr>qu_buffer = [a, b, c, d], qu_len = 1\<rparr>" "p = [a]"
  | a b c d where "u = \<lparr>qu_buffer = [a, b, c, d], qu_len = 2\<rparr>" "p = [a, b]"
  | a b c d where "u = \<lparr>qu_buffer = [a, b, c, d], qu_len = 3\<rparr>" "p = [a, b, c]"
proof -
  obtain bs n where u: "u = \<lparr>qu_buffer = bs, qu_len = n\<rparr>"
    by (cases u) auto
  obtain a b c d where bs: "bs = [a, b, c, d]"
    using assms list4 [of bs] by (auto simp: buffered_def u)
  consider "length p = 0" | "length p = 1" | "length p = 2" | "length p = 3"
    using assms unfolding buffered_def by linarith
  then show thesis
    using assms that by cases (auto simp: buffered_def u bs)
qed

lemma flush_buffered: "buffered u p \<Longrightarrow> \<exists>u'. flush u = Some (u', words_of p)"
  by (erule buffered_cases) (simp_all add: flush_def Let_def)

lemma write_byte_buffered:
  assumes "buffered u p"
  shows "\<exists>u'. (if length p = 3 then write_byte u b = Some (u', words_of (p @ [b])) \<and> buffered u' []
    else write_byte u b = Some (u', []) \<and> buffered u' (p @ [b]))"
  using assms by (rule buffered_cases) (auto simp: write_byte_def buffered_def)

lemma words_of_append: "length p = 4 \<Longrightarrow> words_of (p @ bs) = words_of p @ words_of bs"
  by (cases p) auto

lemma write_bytes_buffered:
  "buffered u p \<Longrightarrow> \<exists>u' ws u'' ws'. write_bytes u bs = Some (u', ws) \<and> flush u' = Some (u'', ws') \<and>
     ws @ ws' = words_of (p @ bs)"
proof (induction bs arbitrary: u p)
  case Nil
  then show ?case using flush_buffered by fastforce
next
  case (Cons b bs)
  show ?case
  proof (cases "length p = 3")
    case True
    obtain u' where u': "write_byte u b = Some (u', words_of (p @ [b]))" "buffered u' []"
      using write_byte_buffered [OF Cons.prems, of b] True by auto
    then obtain u1 ws u2 ws' where "write_bytes u' bs = Some (u1, ws)" "flush u1 = Some (u2, ws')"
      "ws @ ws' = words_of bs"
      using Cons.IH by fastforce
    with True u' words_of_append [of "p @ [b]" bs] show ?thesis
      by auto
  next
    case False
    obtain u' where u': "write_byte u b = Some (u', [])" "buffered u' (p @ [b])"
      using write_byte_buffered [OF Cons.prems, of b] False by auto
    with Cons.IH [of u' "p @ [b]"] show ?thesis
      by auto
  qed
qed

lemma process_data_words:
  assumes "0 < length s" "length s < 2 ^ 31"
  shows "process_writes (Buffering (Some (of_nat ((length s + 3) div 4))) (Some (of_nat (length s))) buf)
     (words_of s) = (Ready, [buf @ s])"
  using assms
proof (induction s arbitrary: buf rule: words_of.induct)
  case (2 b bs)
  let ?s = "b # bs"
  let ?n = "(length ?s + 3) div 4"
  have n: "0 < (of_nat ?n :: u64)" "unat (of_nat (length ?s) :: u64) = length ?s"
    "(4 \<le> (of_nat (length ?s) :: u64)) = (4 \<le> length ?s)" 
    using 2(3)
    by (simp_all add: word_less_nat_alt word_le_nat_alt unat_of_nat take_bit_eq_mod del: of_nat_Suc)
  have bytes: "u32_to_le_bytes (u32_from_le_bytes (take 4 ?s @ replicate (4 - length ?s) 0))
      = take 4 ?s @ replicate (4 - length ?s) 0"
    by (rule to_from_le_bytes) simp
  show ?case
  proof (cases "length ?s \<le> 4")
    case True
    then have "?n = 1"
      by simp
    then have one: "(of_nat ?n :: u64) = 1"
      by simp
    show ?thesis
      using n bytes True one
      by (cases "length bs = 3") (simp_all del: of_nat_Suc of_nat_add)
  next
    case False
    let ?r = "drop 4 ?s"
    have "?n = Suc ((length ?r + 3) div 4)"
      using False by simp
    then have words: "(of_nat ?n :: u64) - 1 = of_nat ((length ?r + 3) div 4)"
      by simp
    have len: "(of_nat (length ?s) :: u64) - 4 = of_nat (length ?r)"
      using False by (simp add: of_nat_diff)
    have "(of_nat ((length ?r + 3) div 4) :: u64) \<noteq> 0"
      using 2(3) False by (simp add: word_unat_eq_iff unat_of_nat take_bit_eq_mod)
    moreover have "process_writes (Buffering (Some (of_nat ((length ?r + 3) div 4)))
        (Some (of_nat (length ?r))) (buf @ take 4 ?s)) (words_of ?r) = (Ready, [buf @ ?s])"
      using 2(1) [of "buf @ take 4 ?s"] 2(3) False by simp
    ultimately show ?thesis
      using n bytes words len False
      by (simp del: of_nat_Suc of_nat_add of_nat_diff length_drop)
  qed
qed simp

lemma unat_of_nat_small: "n < 2 ^ 32 \<Longrightarrow> unat (of_nat n :: u32) = n"
  by (simp add: unat_of_nat take_bit_eq_mod)

lemma next_multiple_of_4_of_nat:
  assumes "n < 2 ^ 31"
  shows "next_multiple_of_4 (of_nat n) = of_nat (4 * ((n + 3) div 4))"
proof -
  have m: "(of_nat n :: u32) mod 4 = of_nat (n mod 4)"
    using assms by (simp add: word_unat_eq_iff unat_mod_distrib unat_of_nat_small)
  have z: "(of_nat (n mod 4) :: u32) = 0 \<longleftrightarrow> n mod 4 = 0"
    by (simp add: word_unat_eq_iff unat_of_nat_small)
  show ?thesis
  proof (cases "n mod 4 = 0")
    case True
    then have "n = 4 * ((n + 3) div 4)"
      by presburger
    then show ?thesis
      using True m z by (simp add: next_multiple_of_4_def)
  next
    case False
    have "4 - (of_nat (n mod 4) :: u32) = of_nat (4 - n mod 4)"
      by (simp add: of_nat_diff less_imp_le)
    moreover have "n + (4 - n mod 4) = 4 * ((n + 3) div 4)"
      using False by presburger
    then have "(of_nat n :: u32) + of_nat (4 - n mod 4) = of_nat (4 * ((n + 3) div 4))"
      by (simp only: flip: of_nat_add)
    ultimately show ?thesis
      using False m z by (simp add: next_multiple_of_4_def)
  qed
qed

lemma entry_words:
  assumes "n < 2 ^ 31"
  shows "ucast (next_multiple_of_4 (of_nat n) div 4 + 1 :: u32) = (of_nat ((n + 3) div 4) + 1 :: u64)"
proof -
  let ?k = "(n + 3) div 4"
  have k: "?k < 2 ^ 30"
    using assms by simp
  have "(of_nat (4 * ?k) :: u32) div 4 = of_nat ?k"
    using k by (simp add: word_unat_eq_iff unat_div_distrib unat_of_nat_small del: of_nat_mult)
  moreover have "ucast (of_nat (Suc ?k) :: u32) = (of_nat (Suc ?k) :: u64)"
    using k by (simp add: word_unat_eq_iff unsigned_ucast_eq unat_of_nat take_bit_eq_mod del: of_nat_Suc)
  ultimately show ?thesis
    using assms by (simp add: next_multiple_of_4_of_nat add.commute del: of_nat_mult)
qed



lemma process_writes_append:
  "process_writes st (xs @ ys) =
    (let (st1, out1) = process_writes st xs; (st2, out2) = process_writes st1 ys in (st2, out1 @ out2))"
  by (induction xs arbitrary: st) (auto simp: Let_def split: prod.splits)

lemma process_writes_ignored: "HELLO_VALUE \<notin> set ws \<Longrightarrow> process_writes Ready ws = (Ready, [])"
  by (induction ws) auto

lemma small_not_hello: "n < 2 ^ 32 - 1 \<Longrightarrow> (of_nat n :: u32) \<noteq> HELLO_VALUE"
  by (simp add: HELLO_VALUE_def word_unat_eq_iff unat_of_nat_small unsigned_minus_1_eq_mask mask_eq_exp_minus_1)

lemma entry_words_not_hello:
  assumes "n < 2 ^ 31"
  shows "next_multiple_of_4 (of_nat n) div 4 + 1 \<noteq> (HELLO_VALUE :: u32)"
proof -
  let ?k = "(n + 3) div 4"
  have k: "?k < 2 ^ 30"
    using assms by simp
  have "(of_nat (4 * ?k) :: u32) div 4 = of_nat ?k"
    using k by (simp add: word_unat_eq_iff unat_div_distrib unat_of_nat_small del: of_nat_mult)
  then show ?thesis
    using assms k small_not_hello [of "Suc ?k"]
    by (simp add: next_multiple_of_4_of_nat add.commute del: of_nat_mult)
qed

text \<open>C32: after the guest printed the empty message, the host takes the greeting word of the next
  message for the end of the empty one and drops that whole message.\<close>

theorem empty_message_swallows_next:
  assumes "length s < 2 ^ 31" "HELLO_VALUE \<notin> set (words_of s)"
  shows "\<exists>u ws u' ws'. write_str QuasiUART_new [] = Some (u, ws) \<and> write_str u s = Some (u', ws') \<and>
     process_writes Ready (ws @ ws') = (Ready, [[]])"
proof -
  have "buffered QuasiUART_new []"
    by (simp add: buffered_def QuasiUART_new_def)
  then obtain u' ws u'' ws' where wr: "write_bytes QuasiUART_new s = Some (u', ws)"
    "flush u' = Some (u'', ws')" "ws @ ws' = words_of s"
    using write_bytes_buffered [of QuasiUART_new "[]" s] by auto
  have "write_str QuasiUART_new [] = Some (QuasiUART_new, [HELLO_VALUE, 1, 0])"
    by (simp add: write_str_def flush_def QuasiUART_new_def write_entry_sequence_def
        next_multiple_of_4_def eval_nat_numeral)
  moreover have "write_str QuasiUART_new s = Some (u'', write_entry_sequence (of_nat (length s)) @ words_of s)"
    using wr by (simp add: write_str_def)
  moreover have "process_writes Ready ([HELLO_VALUE, 1, 0] @ write_entry_sequence (of_nat (length s)) @ words_of s)
      = (Ready, [[]])"
    using assms small_not_hello [of "length s"] entry_words_not_hello [OF assms(1)]
    by (simp add: write_entry_sequence_def process_writes_ignored)
  ultimately show ?thesis
    by blast
qed

theorem empty_message_swallows_next_witness:
  "\<exists>u ws u' ws'. write_str QuasiUART_new [] = Some (u, ws) \<and> write_str u [72, 105, 33, 33] = Some (u', ws') \<and>
     process_writes Ready (ws @ ws') = (Ready, [[]])"
  by (rule empty_message_swallows_next) (simp_all add: HELLO_VALUE_def)
end
