(* ===== verification/Mersenne.thy ===== *)
theory Mersenne
  imports Main
begin

text \<open>
  Number theory of the modulus \<open>2147483647 = 2 ^ 31 - 1\<close>, from first principles: 7 has multiplicative
  order \<open>2147483646\<close> (its powers to the cofactors of the prime factors of \<open>2147483646\<close> are not 1), so
  its powers are all the non-zero residues, and every non-zero residue satisfies Fermat's identity.
  The field theories use it for inverses and square roots.
\<close>

section \<open>Modular powers\<close>

fun powm :: "int \<Rightarrow> num \<Rightarrow> int \<Rightarrow> int" where
  "powm b num.One m = b mod m"
| "powm b (num.Bit0 n) m = (powm b n m) ^ 2 mod m"
| "powm b (num.Bit1 n) m = (powm b n m) ^ 2 * b mod m"

lemma powm: "b ^ numeral n mod m = powm b n m"
proof (induction n)
  case (Bit0 n)
  have "b ^ numeral (num.Bit0 n) mod m = (b ^ numeral n) ^ 2 mod m"
    by (subst numeral_Bit0) (simp add: power_add power2_eq_square)
  also have "\<dots> = (b ^ numeral n mod m) ^ 2 mod m"
    by (simp only: power_mod)
  finally show ?case
    by (simp add: Bit0.IH)
next
  case (Bit1 n)
  have "b ^ numeral (num.Bit1 n) mod m = (b ^ numeral n) ^ 2 * b mod m"
    by (subst numeral_Bit1) (simp only: power_add power_one_right power2_eq_square)
  also have "\<dots> = ((b ^ numeral n mod m) ^ 2 mod m) * b mod m"
    by (simp only: power_mod mod_mult_left_eq)
  finally show ?case
    by (simp add: Bit1.IH mod_mult_left_eq)
qed simp

section \<open>The order of 7\<close>

lemma gen_pow: "(7 :: int) ^ 2147483646 mod 2147483647 = 1"
  "(7 :: int) ^ 1073741823 mod 2147483647 \<noteq> 1"
  "(7 :: int) ^ 715827882 mod 2147483647 \<noteq> 1"
  "(7 :: int) ^ 306783378 mod 2147483647 \<noteq> 1"
  "(7 :: int) ^ 195225786 mod 2147483647 \<noteq> 1"
  "(7 :: int) ^ 69273666 mod 2147483647 \<noteq> 1"
  "(7 :: int) ^ 14221746 mod 2147483647 \<noteq> 1"
  "(7 :: int) ^ 6487866 mod 2147483647 \<noteq> 1"
  unfolding powm by simp_all

definition divisors_trivial :: "int \<Rightarrow> bool" where
  "divisors_trivial q \<longleftrightarrow> list_all (\<lambda>d. q mod d \<noteq> 0 \<or> d = 1 \<or> d = q) [1..q]"

lemma small_primes: "list_all divisors_trivial [2, 3, 7, 11, 31, 151, 331]"
  by code_simp

lemma coprime_small:
  assumes "q \<in> set [2, 3, 7, 11, 31, 151, 331 :: int]" "\<not> q dvd e"
  shows "coprime e q"
proof (rule coprimeI)
  fix c assume c: "c dvd e" "c dvd q"
  let ?d = "\<bar>c\<bar>"
  have q: "0 < q" "divisors_trivial q"
    using assms(1) small_primes by (auto simp: list_all_iff)
  then have "?d \<le> q" "1 \<le> ?d"
    using c(2) by (auto intro: zdvd_imp_le) (metis abs_ge_zero abs_of_nonneg c(2) dvd_0_left_iff le_neq_trans less_irrefl zero_less_abs_iff zless_imp_add1_zle add_0)
  moreover have "q mod ?d = 0"
    using c(2) by simp
  ultimately have "?d = 1 \<or> ?d = q"
    using q(2) by (auto simp: divisors_trivial_def list_all_iff)
  then show "is_unit c"
    using assms(2) c(1) by auto
qed

lemma factor_cover:
  fixes e :: int
  assumes "e dvd 2147483646" "0 < e" "e \<noteq> 1"
  shows "\<exists>q \<in> set [2, 3, 7, 11, 31, 151, 331]. q dvd e"
proof (rule ccontr)
  assume "\<not> ?thesis"
  then have cp: "coprime e q" if "q \<in> set [2, 3, 7, 11, 31, 151, 331]" for q
    using coprime_small that by blast
  have "coprime e (2 * 3 * 3 * 7 * 11 * 31 * 151 * 331)"
    unfolding coprime_mult_right_iff by (intro conjI; rule cp, simp)
  then have "coprime e 2147483646"
    by simp
  then show False
    using assms by (metis coprime_absorb_left zdvd1_eq abs_of_pos)
qed

lemma gen_pow_mult: "(7 :: int) ^ i mod 2147483647 = 1 \<Longrightarrow> 7 ^ (i * j) mod 2147483647 = (1 :: int)"
  using power_mod [of "7 ^ i :: int" 2147483647 j] by (simp add: power_mult)

lemma cofactor: assumes q: "q \<in> set [2, 3, 7, 11, 31, 151, 331 :: int]" and m: "2147483646 = nat q * m"
  shows "m = 1073741823 \<or> m = 715827882 \<or> m = 306783378 \<or> m= 195225786 \<or> m= 69273666 \<or> m=14221746 \<or> m = 6487866"
proof -
  have "q = 2 \<or> q = 3 \<or> q = 7 \<or> q = 11 \<or> q = 31 \<or> q = 151 \<or> q = 331" using q by simp
  then show ?thesis using m by (elim disjE) (simp_all)
qed

lemma gen_pow_ne:
  assumes "m = 1073741823 \<or> m = 715827882 \<or> m = 306783378 \<or> m = 195225786 \<or> m = 69273666
    \<or> m = 14221746 \<or> m = 6487866"
  shows "(7 :: int) ^ m mod 2147483647 \<noteq> 1"
  using assms by (elim disjE; hypsubst) (rule gen_pow)+

lemma gen_no_divisor:
  assumes d: "(7 :: int) ^ d mod 2147483647 = 1" and e: "N = d * e" and N: "N = 2147483646" and "d < N"
  shows False
proof -
  have "int e \<noteq> 1"
    using e \<open>d < N\<close> by auto
  moreover have "0 < int e"
    using e N by (intro of_nat_0_less_iff [THEN iffD2] gr0I) simp
  moreover have "int e dvd 2147483646"
  proof -
    have "int e dvd int N"
      using e by simp
    then show ?thesis
      using N by simp
  qed
  ultimately obtain q where q: "q \<in> set [2, 3, 7, 11, 31, 151, 331 :: int]" "q dvd int e"
    using factor_cover [of "int e"] by blast
  have "0 \<le> q"
    using q(1) by auto
  then obtain f where f: "e = nat q * f"
    using q(2) by (metis dvd_def int_dvd_int_iff nat_0_le)
  have "N = nat q * (d * f)"
    using e f by (simp only: mult.left_commute)
  then have m: "2147483646 = nat q * (d * f)"
    by (simp only: N)
  have "(7 :: int) ^ (d * f) mod 2147483647 = 1"
    by (rule gen_pow_mult [OF d])
  then show False
    using gen_pow_ne [OF cofactor [OF q(1) m]] by blast
qed

lemma gen_order:
  assumes "0 < k" "k < 2147483646"
  shows "(7 :: int) ^ k mod 2147483647 \<noteq> 1"
proof
  let ?p = "2147483647 :: int"
  define N :: nat where "N = 2147483646"
  assume k: "(7 :: int) ^ k mod ?p = 1"
  have N: "(7 :: int) ^ N mod ?p = 1"
    unfolding N_def by (rule gen_pow)
  obtain x y where xy: "k * x = N * y + gcd k N"
    using bezout_nat [of k N] assms by auto
  have "(7 :: int) ^ gcd k N mod ?p = (7 ^ (N * y) mod ?p) * 7 ^ gcd k N mod ?p"
    by (simp only: gen_pow_mult [OF N] mult_1)
  also have "\<dots> = 7 ^ (k * x) mod ?p"
    by (simp only: xy power_add mod_mult_left_eq)
  finally have d: "(7 :: int) ^ gcd k N mod ?p = 1"
    by (simp only: gen_pow_mult [OF k])
  obtain e where e: "N = gcd k N * e"
    using gcd_dvd2 by (metis dvdE)
  have "gcd k N < N"
    using assms gcd_le1_nat [of k N] unfolding N_def by linarith
  then show False
    using gen_no_divisor [OF d e N_def] by blast
qed

lemma gen_pow_cancel:
  assumes "i \<le> N" "(7 :: int) ^ N mod 2147483647 = 1"
  shows "(7 ^ (N - i) :: int) * 7 ^ i mod 2147483647 = 1"
  using assms by (simp flip: power_add)

section \<open>Fermat's identity\<close>

definition N31 :: nat where "N31 = 2147483646"

lemma gen_N31: "(7 :: int) ^ N31 mod 2147483647 = 1"
  unfolding N31_def by (rule gen_pow)

lemma gen_distinct:
  assumes "i < j" "j < N31"
  shows "(7 :: int) ^ i mod 2147483647 \<noteq> 7 ^ j mod 2147483647"
proof
  let ?p = "2147483647 :: int"
  assume eq: "(7 :: int) ^ i mod ?p = 7 ^ j mod ?p"
  have "1 = (7 ^ (N31 - i) :: int) * 7 ^ i mod ?p"
    using gen_pow_cancel [OF _ gen_N31, of i] assms by simp
  also have "\<dots> = 7 ^ (N31 - i) * (7 ^ i mod ?p) mod ?p"
    by (simp only: mod_mult_right_eq)
  also have "\<dots> = 7 ^ (N31 - i) * 7 ^ j mod ?p"
    unfolding eq by (simp only: mod_mult_right_eq)
  also have "\<dots> = 7 ^ N31 * 7 ^ (j - i) mod ?p"
    using assms by (simp flip: power_add)
  also have "\<dots> = (7 ^ N31 mod ?p) * 7 ^ (j - i) mod ?p"
    by (simp only: mod_mult_left_eq)
  also have "\<dots> = 7 ^ (j - i) mod ?p"
    by (simp only: gen_N31 mult_1)
  finally have "1 = (7 :: int) ^ (j - i) mod ?p" .
  then show False
  proof -
    have "0 < j - i" "j - i < 2147483646"
      using assms unfolding N31_def by linarith+
    then show ?thesis
      using gen_order [of "j - i"] \<open>1 = 7 ^ (j - i) mod ?p\<close> by metis
  qed
qed

lemma gen_inj: "inj_on (\<lambda>i. (7 :: int) ^ i mod 2147483647) {0..<N31}"
  by (rule linorder_inj_onI) (auto simp: gen_distinct)

lemma gen_nonzero:
  assumes "i < N31"
  shows "(7 :: int) ^ i mod 2147483647 \<noteq> 0"
proof
  assume "(7 :: int) ^ i mod 2147483647 = 0"
  then have "(7 ^ (N31 - i) :: int) * (7 ^ i mod 2147483647) mod 2147483647 = 0"
    by simp
  then show False
    using gen_pow_cancel [OF _ gen_N31, of i] assms by (simp only: mod_mult_right_eq)
qed

lemma gen_image: "(\<lambda>i. (7 :: int) ^ i mod 2147483647) ` {0..<N31} = {1..<2147483647}"
proof (rule card_subset_eq)
  show "(\<lambda>i. (7 :: int) ^ i mod 2147483647) ` {0..<N31} \<subseteq> {1..<2147483647}"
  proof (rule image_subsetI)
    fix i assume "i \<in> {0..<N31}"
    then have "(7 :: int) ^ i mod 2147483647 \<noteq> 0"
      by (simp add: gen_nonzero)
    moreover have "0 \<le> (7 :: int) ^ i mod 2147483647" "(7 :: int) ^ i mod 2147483647 < 2147483647"
      by simp_all
    ultimately show "(7 :: int) ^ i mod 2147483647 \<in> {1..<2147483647}"
      unfolding atLeastLessThan_iff by linarith
  qed
  show "card ((\<lambda>i. (7 :: int) ^ i mod 2147483647) ` {0..<N31}) = card {1..<2147483647 :: int}"
    unfolding card_image [OF gen_inj] by (simp add: N31_def)
qed simp

lemma fermat_m31:
  assumes "0 < a" "a < (2147483647 :: int)"
  shows "a ^ N31 mod 2147483647 = 1"
proof -
  have "a \<in> {1..<2147483647}"
    using assms by simp
  then obtain i where i: "a = 7 ^ i mod 2147483647"
    unfolding gen_image [symmetric] by blast
  have "a ^ N31 mod 2147483647 = (7 ^ N31 mod 2147483647) ^ i mod 2147483647"
    unfolding i power_mod by (simp only: mult.commute flip: power_mult)
  then show ?thesis
    by (simp only: gen_N31) simp
qed
end
