(* ===== verification/M31.thy ===== *)
theory M31
  imports Prelude Mersenne
begin

text \<open>
  The Mersenne-31 prime field of the crate \<open>field\<close> (\<open>ops.rs\<close>, \<open>base.rs\<close>).  An element is a \<open>u32\<close>
  in \<open>0..=ORDER\<close>: on the host zero has the two representations 0 and \<open>ORDER\<close>; on the guest
  (feature \<open>use_division\<close>) elements are canonical.  The host operations and the compile-time
  variants of the guest are modelled; the guest's run-time variants are single instructions of
  the machine (\<open>remu\<close>, \<open>mop.rr.*\<close>).
\<close>

section \<open>Operations on words\<close>

type_synonym m31 = u32

definition ORDER :: u32 where "ORDER = push_bit 31 1 - 1"
definition MSBITMASK :: u32 where "MSBITMASK = push_bit 31 1"

definition add_mod :: "u32 \<Rightarrow> u32 \<Rightarrow> u32" where
  "add_mod a b =
    (let sum = a + b;
         msb = sum AND push_bit 31 1;
         sum = sum XOR msb
     in sum + of_bool (msb \<noteq> 0))"

definition sub_mod :: "u32 \<Rightarrow> u32 \<Rightarrow> u32" where
  "sub_mod a b =
    (let sum = a - b;
         msb = sum AND push_bit 31 1;
         sum = sum XOR msb
     in sum - of_bool (msb \<noteq> 0))"

definition mul_mod :: "u32 \<Rightarrow> u32 \<Rightarrow> u32" where
  "mul_mod a b =
    (let product = (ucast a :: u64) * ucast b;
         product_low = (ucast product :: u32) AND (push_bit 31 1 - 1);
         product_high = ucast (drop_bit 31 product)
     in add_mod product_low product_high)"

definition fma_mod :: "u32 \<Rightarrow> u32 \<Rightarrow> u32 \<Rightarrow> u32" where
  "fma_mod a b c =
    (let product = (ucast a :: u64) * ucast b + ucast c;
         product_low = (ucast product :: u32) AND (push_bit 31 1 - 1);
         product_high = ucast (drop_bit 31 product)
     in add_mod product_low product_high)"

definition reduce_with_division_ct :: "u32 \<Rightarrow> u32" where
  "reduce_with_division_ct value = value mod ORDER"

definition add_mod_ct :: "u32 \<Rightarrow> u32 \<Rightarrow> u32" where
  "add_mod_ct a b = reduce_with_division_ct (a + b)"

definition sub_mod_ct :: "u32 \<Rightarrow> u32 \<Rightarrow> u32" where
  "sub_mod_ct a b = reduce_with_division_ct (ORDER + a - b)"

definition mul_mod_ct :: "u32 \<Rightarrow> u32 \<Rightarrow> u32" where
  "mul_mod_ct a b =
    (let product = (ucast a :: u64) * ucast b;
         product_low = (ucast product :: u32) AND (push_bit 31 1 - 1);
         product_high = ucast (drop_bit 31 product)
     in reduce_with_division_ct (product_low + product_high))"

section \<open>Field elements\<close>

definition to_reduced_u32 :: "m31 \<Rightarrow> u32" where
  "to_reduced_u32 x = (if x = ORDER then 0 else x)"

definition from_nonreduced_u32 :: "u32 \<Rightarrow> m31" where
  "from_nonreduced_u32 c =
    (let c = (if ORDER \<le> c then c - ORDER else c);
         c = (if ORDER \<le> c then c - ORDER else c)
     in c)"

definition mul_2exp_u64 :: "m31 \<Rightarrow> u64 \<Rightarrow> m31" where
  "mul_2exp_u64 x exp =
    (let exp = unat (exp mod 31);
         left = push_bit exp x AND (push_bit 31 1 - 1);
         right = drop_bit (31 - exp) x
     in left OR right)"

definition div_2exp_u64 :: "m31 \<Rightarrow> u64 \<Rightarrow> m31" where
  "div_2exp_u64 x exp =
    (let exp = unat (exp mod 31);
         left = drop_bit exp x;
         right = push_bit (31 - exp) x AND (push_bit 31 1 - 1)
     in left OR right)"

definition from_negative_u64_with_reduction :: "u64 \<Rightarrow> m31" where
  "from_negative_u64_with_reduction x =
    (let x_low = (ucast x :: u32) AND (push_bit 31 1 - 1);
         x_high = (ucast (drop_bit 31 x) :: u32) AND (push_bit 31 1 - 1);
         x_sign = (ucast (drop_bit 63 x) :: u32);
         res_wrapped = x_low + x_high;
         res_wrapped = res_wrapped - x_sign;
         msb = res_wrapped AND push_bit 31 1;
         sum = res_wrapped XOR msb;
         res = sum + of_bool (msb \<noteq> 0)
     in if ORDER \<le> res then res - ORDER else res)"

definition from_u62 :: "u64 \<Rightarrow> m31" where
  "from_u62 x =
    (let product_low = (ucast x :: u32) AND (push_bit 31 1 - 1);
         product_high = ucast (drop_bit 31 x)
     in add_mod product_low product_high)"

definition m31_eq :: "m31 \<Rightarrow> m31 \<Rightarrow> bool" where
  "m31_eq x y \<longleftrightarrow> to_reduced_u32 x = to_reduced_u32 y"

definition m31_is_zero :: "m31 \<Rightarrow> bool" where
  "m31_is_zero x \<longleftrightarrow> x = 0 \<or> x = ORDER"

definition m31_is_one :: "m31 \<Rightarrow> bool" where
  "m31_is_one x \<longleftrightarrow> x = 1"

definition m31_square :: "m31 \<Rightarrow> m31" where
  "m31_square x = mul_mod x x"

fun m31_exp_power_of_2 :: "m31 \<Rightarrow> nat \<Rightarrow> m31" where
  "m31_exp_power_of_2 x 0 = x"
| "m31_exp_power_of_2 x (Suc power_log) = m31_exp_power_of_2 (m31_square x) power_log"

definition m31_inverse :: "m31 \<Rightarrow> m31 option" where
  "m31_inverse x =
    (if m31_is_zero x then None
     else let
       p101 = mul_mod (m31_exp_power_of_2 x 2) x;
       p1111 = mul_mod (m31_square p101) p101;
       p11111111 = mul_mod (m31_exp_power_of_2 p1111 4) p1111;
       p111111110000 = m31_exp_power_of_2 p11111111 4;
       p111111111111 = mul_mod p111111110000 p1111;
       p1111111111111111 = mul_mod (m31_exp_power_of_2 p111111110000 4) p11111111;
       p1111111111111111111111111111 =
         mul_mod (m31_exp_power_of_2 p1111111111111111 12) p111111111111;
       p1111111111111111111111111111101 =
         mul_mod (m31_exp_power_of_2 p1111111111111111111111111111 3) p101
     in Some p1111111111111111111111111111101)"

definition m31_sqrt :: "m31 \<Rightarrow> m31 option" where
  "m31_sqrt x =
    (let candidate = m31_exp_power_of_2 x 29;
         t = m31_square candidate
     in if m31_eq t x then Some candidate else None)"

definition m31_negate :: "m31 \<Rightarrow> m31" where
  "m31_negate x = ORDER - x"

definition m31_double :: "m31 \<Rightarrow> m31" where
  "m31_double x =
    (let sum = push_bit 1 x;
         msb = sum AND MSBITMASK;
         sum = sum XOR msb
     in sum + of_bool (msb \<noteq> 0))"

definition m31_mul_by_non_residue :: "m31 \<Rightarrow> m31" where
  "m31_mul_by_non_residue x = m31_negate x"

definition m31_mul_by_two :: "m31 \<Rightarrow> m31" where
  "m31_mul_by_two x = mul_2exp_u64 x 1"

definition m31_div_by_two :: "m31 \<Rightarrow> m31" where
  "m31_div_by_two x = div_2exp_u64 x 1"

definition m31_fused_mul_add_assign :: "m31 \<Rightarrow> m31 \<Rightarrow> m31 \<Rightarrow> m31" where
  "m31_fused_mul_add_assign x a b = fma_mod x a b"

definition m31_add_assign_product :: "m31 \<Rightarrow> m31 \<Rightarrow> m31 \<Rightarrow> m31" where
  "m31_add_assign_product x a b = fma_mod a b x"

definition m31_from_u64 :: "u64 \<Rightarrow> m31 option" where
  "m31_from_u64 value = (if ORDER \<le> ucast value then None else Some (ucast value))"

definition m31_from_u64_with_reduction :: "u64 \<Rightarrow> m31" where
  "m31_from_u64_with_reduction value = ucast (value mod ucast ORDER)"

definition m31_as_u64_reduced :: "m31 \<Rightarrow> u64" where
  "m31_as_u64_reduced x = ucast (to_reduced_u32 x)"

text \<open>The default method \<open>pow\<close> of the trait \<open>Field\<close>, on this field.\<close>

function m31_pow_loop :: "m31 \<Rightarrow> m31 \<Rightarrow> u32 \<Rightarrow> m31" where
  "m31_pow_loop base result exp =
    (if 0 < exp then
       m31_pow_loop (m31_square base) (if exp mod 2 = 1 then mul_mod result base else result)
         (drop_bit 1 exp)
     else result)"
  by pat_completeness auto
termination
  by (relation "measure (\<lambda>(_, _, e). unat e)")
    (auto simp: drop_bit_eq_div unat_div_distrib word_less_nat_alt)

definition m31_pow :: "m31 \<Rightarrow> u32 \<Rightarrow> m31" where
  "m31_pow x exp = m31_pow_loop x 1 exp"

section \<open>Values\<close>

text \<open>The invariant of a host element and the residue it stands for.\<close>

declare m31_pow_loop.simps [simp del]

abbreviation p31 :: int where "p31 \<equiv> 2147483647"

definition m31_wf :: "m31 \<Rightarrow> bool" where
  "m31_wf x \<longleftrightarrow> x \<le> ORDER"

definition m31_val :: "m31 \<Rightarrow> int" where
  "m31_val x = uint x mod p31"

lemma ORDER_eq: "ORDER = 2147483647"
  by (simp add: ORDER_def)

lemma m31_wf_iff: "m31_wf x \<longleftrightarrow> uint x \<le> p31"
  by (simp add: m31_wf_def ORDER_eq word_le_def)

lemma uint_u32_bounds: "0 \<le> uint (x :: u32)" "uint x < 4294967296"
  using uint_bounded [of x] by simp_all

lemma div_2_31:
  "0 \<le> x \<Longrightarrow> x < 4294967296 \<Longrightarrow> (x :: int) div 2147483648 = (if x < 2147483648 then 0 else 1)"
  by (simp add: div_pos_geq)

lemma mod_2_31:
  "0 \<le> x \<Longrightarrow> x < 4294967296 \<Longrightarrow>
   (x :: int) mod 2147483648 = (if x < 2147483648 then x else x - 2147483648)"
  using div_2_31 [of x] by (simp add: minus_div_mult_eq_mod [symmetric])

lemma bit31_iff: "bit (s :: u32) 31 \<longleftrightarrow> 2147483648 \<le> uint s"
proof -
  have "bit s 31 \<longleftrightarrow> bit (uint s) 31"
    by (simp add: bit_uint_iff)
  also have "\<dots> \<longleftrightarrow> odd (uint s div 2147483648)"
    by (simp add: bit_iff_odd)
  finally show ?thesis
    using uint_u32_bounds [of s] by (auto simp: div_2_31)
qed

lemma msb_eq: "(2147483648 :: u32) = 2 ^ 31"
  by simp

lemma bit_msb: "bit (2147483648 :: u32) n \<longleftrightarrow> n = 31"
  unfolding msb_eq by (simp only: bit_exp_iff) (auto simp: possible_bit_word)

lemma split_msb:
  "(s :: u32) XOR (s AND 2147483648) = take_bit 31 s"
  "s AND 2147483648 = 0 \<longleftrightarrow> uint s < 2147483648"
proof -
  show "s XOR (s AND 2147483648) = take_bit 31 s"
  proof (rule bit_word_eqI)
    fix n assume "n < LENGTH(32)"
    then show "bit (s XOR (s AND 2147483648)) n = bit (take_bit 31 s) n"
      unfolding bit_xor_iff bit_and_iff bit_take_bit_iff bit_msb by auto
  qed
  show "s AND 2147483648 = 0 \<longleftrightarrow> uint s < 2147483648"
    unfolding msb_eq and_exp_eq_0_iff_not_bit bit31_iff by linarith
qed
lemma low31: "uint (take_bit 31 (s :: u32)) = uint s mod 2147483648"
  by (simp add: take_bit_eq_mod uint_mod_distrib)

lemma fold31:
  "uint (((s :: u32) XOR (s AND 2147483648)) + of_bool (s AND 2147483648 \<noteq> 0)) =
     uint s mod 2147483648 + uint s div 2147483648"
proof -
  have "uint (take_bit 31 s + 1) = uint s mod 2147483648 + 1"
    by (simp add: uint_word_ariths(1) low31)
  then show ?thesis
    using uint_u32_bounds [of s]
    by (cases "uint s < 2147483648") (simp_all only: split_msb low31 div_2_31 of_bool_eq if_True if_False
       not_True_eq_False not_False_eq_True add_0_right)
qed

lemma m31_wf_bounds:
  assumes "m31_wf a" "m31_wf b"
  shows "0 \<le> uint a + uint b" "uint a + uint b \<le> 2 * p31" "- p31 \<le> uint a - uint b"
    "uint a - uint b \<le> p31"
  using assms uint_u32_bounds [of a] uint_u32_bounds [of b] unfolding m31_wf_iff by linarith+

lemma add_mod_uint:
  assumes "uint a + uint b < 4294967296"
  shows "uint (add_mod a b) = (uint a + uint b) mod 2147483648 + (uint a + uint b) div 2147483648"
proof -
  have "uint (a + b) = uint a + uint b"
    using assms by (simp add: uint_word_ariths(1))
  then show ?thesis
    using fold31 [of "a + b"] by (simp add: add_mod_def Let_def)
qed

lemma fold_bound: "0 \<le> s \<Longrightarrow> s \<le> 2 * p31 \<Longrightarrow> s mod 2147483648 + s div 2147483648 \<le> p31"
  by (simp add: div_2_31 mod_2_31)

lemma fold_mod: "(s mod 2147483648 + s div 2147483648) mod p31 = s mod p31"
proof -
  have "s = p31 * (s div 2147483648) + (s mod 2147483648 + s div 2147483648)"
    by (simp add: algebra_simps)
  then show ?thesis
    by (metis mod_mult_self4)
qed

lemma add_mod_correct:
  assumes "m31_wf a" "m31_wf b"
  shows "m31_wf (add_mod a b)" "m31_val (add_mod a b) = (m31_val a + m31_val b) mod p31"
proof -
  note b = m31_wf_bounds(1,2) [OF assms]
  have u: "uint (add_mod a b) = (uint a + uint b) mod 2147483648 + (uint a + uint b) div 2147483648"
    using b by (intro add_mod_uint) linarith
  show "m31_wf (add_mod a b)"
    using fold_bound [OF b] by (simp only: m31_wf_iff u)
  show "m31_val (add_mod a b) = (m31_val a + m31_val b) mod p31"
    by (simp only: m31_val_def u fold_mod mod_add_eq)
qed
lemma unfold31:
  "uint (((s :: u32) XOR (s AND 2147483648)) - of_bool (s AND 2147483648 \<noteq> 0)) =
     (if uint s < 2147483648 then uint s else (uint s - 2147483649) mod 4294967296)"
proof -
  have "uint (take_bit 31 s - 1) = (uint s - 2147483649) mod 4294967296" if "\<not> uint s < 2147483648"
    using that uint_u32_bounds [of s] by (simp add: uint_word_ariths low31 mod_2_31)
  then show ?thesis
    using uint_u32_bounds [of s]
    by (cases "uint s < 2147483648") (simp_all add: split_msb low31)
qed

lemma sub_mod_uint:
  assumes "m31_wf a" "m31_wf b"
  shows "uint (sub_mod a b) = (if uint b \<le> uint a then uint a - uint b else p31 + uint a - uint b)"
proof (cases "uint b \<le> uint a")
  case True
  then have "uint (a - b) = uint a - uint b"
    by (simp add: uint_sub_if_size)
  moreover have "uint a - uint b < 2147483648"
    using m31_wf_bounds [OF assms] by linarith
  ultimately show ?thesis
    using unfold31 [of "a - b"] True by (simp add: sub_mod_def Let_def)
next
  case False
  then have "uint (a - b) = 4294967296 + uint a - uint b"
    by (simp add: uint_sub_if_size word_size)
  moreover have "\<not> 4294967296 + uint a - uint b < 2147483648"
    using m31_wf_bounds [OF assms] by linarith
  moreover have "(p31 + uint a - uint b) mod 4294967296 = p31 + uint a - uint b"
    using m31_wf_bounds [OF assms] False by (intro mod_pos_pos_trivial) linarith+
  ultimately show ?thesis
    using unfold31 [of "a - b"] False by (simp add: sub_mod_def Let_def)
qed

lemma sub_mod_correct:
  assumes "m31_wf a" "m31_wf b"
  shows "m31_wf (sub_mod a b)" "m31_val (sub_mod a b) = (m31_val a - m31_val b) mod p31"
proof -
  show "m31_wf (sub_mod a b)"
    using m31_wf_bounds [OF assms] unfolding m31_wf_iff sub_mod_uint [OF assms] by (auto split: if_splits)
  have "uint (sub_mod a b) mod p31 = (uint a - uint b) mod p31"
    using mod_add_self1 [of p31 "uint a - uint b"] by (simp add: sub_mod_uint assms add_diff_eq)
  then show "m31_val (sub_mod a b) = (m31_val a - m31_val b) mod p31"
    by (simp add: m31_val_def mod_diff_eq)
qed


lemma and_low31: "(x :: u32) AND 2147483647 = take_bit 31 x"
  by (simp add: take_bit_eq_mask mask_eq_exp_minus_1)

lemma uint_low_part: "uint (take_bit 31 (ucast (x :: u64) :: u32)) = uint x mod 2147483648"
proof -
  have "uint (ucast x :: u32) = uint x mod 4294967296"
    by (simp add: unsigned_ucast_eq take_bit_eq_mod)
  then show ?thesis
    by (simp add: low31 mod_mod_cancel)
qed

lemma uint_high_part:
  assumes "uint x < 4611686018427387904"
  shows "uint (ucast (drop_bit 31 (x :: u64)) :: u32) = uint x div 2147483648"
proof -
  have "uint x div 2147483648 < 4294967296"
    using assms by (simp add: div_less_iff_less_mult)
  moreover have "0 \<le> uint x div 2147483648"
    by (simp add: pos_imp_zdiv_nonneg_iff)
  ultimately have "uint x div 2147483648 mod 4294967296 = uint x div 2147483648"
    by (intro mod_pos_pos_trivial)
  then show ?thesis
    by (simp add: unsigned_ucast_eq take_bit_eq_mod unsigned_drop_bit_eq drop_bit_eq_div uint_div_distrib)
qed

lemma from_u62_correct:
  assumes "uint x < 4611686018427387904"
  shows "m31_wf (from_u62 x)" "m31_val (from_u62 x) = uint x mod p31"
proof -
  let ?l = "take_bit 31 (ucast x :: u32)" and ?h = "ucast (drop_bit 31 x) :: u32"
  have l: "uint ?l = uint x mod 2147483648" and h: "uint ?h = uint x div 2147483648"
    by (rule uint_low_part, rule uint_high_part [OF assms])
  have "uint x mod 2147483648 < 2147483648" "uint x div 2147483648 < 2147483648"
    using assms by (simp_all add: div_less_iff_less_mult)
  then have wf: "m31_wf ?l" "m31_wf ?h"
    by (simp_all only: m31_wf_iff l h)
  have eq: "from_u62 x = add_mod ?l ?h"
    by (simp add: from_u62_def and_low31)
  show "m31_wf (from_u62 x)"
    unfolding eq by (rule add_mod_correct [OF wf])
  show "m31_val (from_u62 x) = uint x mod p31"
    unfolding eq add_mod_correct [OF wf] 
    by (simp only: m31_val_def l h fold_mod mod_add_eq)
qed
lemma mul_mod_from_u62: "mul_mod a b = from_u62 (ucast a * ucast b)"
  by (simp add: mul_mod_def from_u62_def Let_def)

lemma fma_mod_from_u62: "fma_mod a b c = from_u62 (ucast a * ucast b + ucast c)"
  by (simp add: fma_mod_def from_u62_def Let_def)

lemma uint_ucast_64: "uint (ucast (a :: u32) :: u64) = uint a"
  using uint_u32_bounds [of a] by (simp add: unsigned_ucast_eq take_bit_int_eq_self)

lemma product_bound:
  assumes "m31_wf a" "m31_wf b"
  shows "0 \<le> uint a * uint b" "uint a * uint b \<le> p31 * p31"
  using assms mult_mono [of "uint a" p31 "uint b" p31] by (simp_all add: m31_wf_iff)

lemma mul_mod_correct:
  assumes "m31_wf a" "m31_wf b"
  shows "m31_wf (mul_mod a b)" "m31_val (mul_mod a b) = (m31_val a * m31_val b) mod p31"
proof -
  have u: "uint (ucast a * ucast b :: u64) = uint a * uint b"
    using product_bound [OF assms] by (simp add: uint_word_ariths(3) uint_ucast_64)
  then have lt: "uint (ucast a * ucast b :: u64) < 4611686018427387904"
    using product_bound [OF assms] by simp
  show "m31_wf (mul_mod a b)" "m31_val (mul_mod a b) = (m31_val a * m31_val b) mod p31"
    using from_u62_correct [OF lt] by (simp_all only: mul_mod_from_u62 u m31_val_def mod_mult_eq)
qed

lemma fma_mod_correct:
  assumes "m31_wf a" "m31_wf b" "m31_wf c"
  shows "m31_wf (fma_mod a b c)" "m31_val (fma_mod a b c) = (m31_val a * m31_val b + m31_val c) mod p31"
proof -
  have c: "uint c \<le> p31"
    using assms by (simp add: m31_wf_iff)
  have u: "uint (ucast a * ucast b + ucast c :: u64) = uint a * uint b + uint c"
    using product_bound [OF assms(1,2)] c by (simp add: uint_word_ariths(1,3) uint_ucast_64)
  then have lt: "uint (ucast a * ucast b + ucast c :: u64) < 4611686018427387904"
    using product_bound [OF assms(1,2)] c by simp
  show "m31_wf (fma_mod a b c)" "m31_val (fma_mod a b c) = (m31_val a * m31_val b + m31_val c) mod p31"
    using from_u62_correct [OF lt]
    by (simp_all only: fma_mod_from_u62 u m31_val_def mod_add_right_eq)
      (subst (1 2) mod_add_left_eq [symmetric], simp only: mod_mult_eq)
qed

lemma to_reduced_val: "m31_wf x \<Longrightarrow> uint (to_reduced_u32 x) = m31_val x"
proof (cases "x = ORDER")
  case False
  assume "m31_wf x"
  with False have "uint x < p31"
    by (simp add: m31_wf_def ORDER_eq word_le_def order_le_less word_uint_eq_iff)
  with False show ?thesis
    by (simp add: to_reduced_u32_def m31_val_def)
qed (simp add: to_reduced_u32_def m31_val_def ORDER_eq)

lemma m31_eq_iff: "m31_wf x \<Longrightarrow> m31_wf y \<Longrightarrow> m31_eq x y \<longleftrightarrow> m31_val x = m31_val y"
  by (simp add: m31_eq_def word_uint_eq_iff to_reduced_val)

lemma m31_is_zero_iff: "m31_wf x \<Longrightarrow> m31_is_zero x \<longleftrightarrow> m31_val x = 0"
  using to_reduced_val [of x] by (auto simp: m31_is_zero_def to_reduced_u32_def word_uint_eq_iff split: if_splits)

lemma m31_val_bounds: "0 \<le> m31_val x" "m31_val x < p31"
  by (simp_all add: m31_val_def)

lemma m31_consts: "m31_wf 0" "m31_wf 1" "m31_val 0 = 0" "m31_val 1 = 1" "m31_wf ORDER" "m31_val ORDER = 0"
  by (simp_all add: m31_wf_iff m31_val_def ORDER_eq)

lemma negate_correct:
  assumes "m31_wf x"
  shows "m31_wf (m31_negate x)" "m31_val (m31_negate x) = (- m31_val x) mod p31"
proof -
  have "x \<le> ORDER"
    using assms by (simp add: m31_wf_def)
  then have u: "uint (m31_negate x) = p31 - uint x"
    by (simp add: m31_negate_def uint_minus_simple_alt word_le_def ORDER_eq)
  show "m31_wf (m31_negate x)"
    by (simp add: m31_wf_iff u)
  show "m31_val (m31_negate x) = (- m31_val x) mod p31"
    using mod_add_self1 [of p31 "- uint x"] by (simp add: m31_val_def u mod_minus_eq)
qed

lemma double_correct:
  assumes "m31_wf x"
  shows "m31_wf (m31_double x)" "m31_val (m31_double x) = (2 * m31_val x) mod p31"
proof -
  have eq: "m31_double x = add_mod x x"
  proof -
    have "push_bit 1 x = x + x"
      by (simp add: push_bit_eq_mult mult_2_right)
    then show ?thesis
      by (simp only: m31_double_def add_mod_def MSBITMASK_def)
  qed
  show "m31_wf (m31_double x)" "m31_val (m31_double x) = (2 * m31_val x) mod p31"
    using add_mod_correct [OF assms assms] by (simp_all only: eq mult_2)
qed

lemma square_correct:
  assumes "m31_wf x"
  shows "m31_wf (m31_square x)" "m31_val (m31_square x) = (m31_val x) ^ 2 mod p31"
  using mul_mod_correct [OF assms assms] by (simp_all add: m31_square_def power2_eq_square)

lemma exp_power_of_2_correct:
  assumes "m31_wf x"
  shows "m31_wf (m31_exp_power_of_2 x k) \<and>
    m31_val (m31_exp_power_of_2 x k) = (m31_val x) ^ (2 ^ k) mod p31"
  using assms
proof (induction k arbitrary: x)
  case 0
  then show ?case
    by (simp add: m31_val_def)
next
  case (Suc k)
  then show ?case
    using square_correct [OF Suc.prems]
    by (simp add: power_mod power_mult [symmetric] mult.commute)
qed

lemma pow_split_mod:
  fixes r b p :: int
  shows "(r * b ^ (n mod 2) mod p) * (b ^ 2 mod p) ^ (n div 2) mod p = r * b ^ n mod p"
proof -
  have "(r * b ^ (n mod 2) mod p) * (b ^ 2 mod p) ^ (n div 2) mod p
      = r * b ^ (n mod 2) * ((b ^ 2 mod p) ^ (n div 2) mod p) mod p"
    by (simp only: mod_mult_left_eq mod_mult_right_eq)
  also have "\<dots> = r * b ^ (n mod 2) * (b ^ 2) ^ (n div 2) mod p"
    by (simp only: power_mod mod_mult_right_eq)
  also have "\<dots> = r * b ^ (n mod 2 + 2 * (n div 2)) mod p"
    by (simp only: power_add power_mult mult.assoc)
  finally show ?thesis
    by (simp only: mod_mult_div_eq)
qed

lemma unat_odd: "unat (e :: u32) mod 2 = (if e mod 2 = 1 then 1 else 0)"
proof -
  have "unat (2 :: u32) = 2" "unat (1 :: u32) = 1"
    by simp_all
  then have "unat (e mod 2) = unat e mod 2" "e mod 2 = 1 \<longleftrightarrow> unat (e mod 2) = 1"
    by (simp_all only: unat_mod_distrib word_unat_eq_iff)
  then show ?thesis
    by (cases "unat e mod 2 = 1") simp_all
qed
lemma pow_loop_correct:
  assumes "m31_wf base" "m31_wf result"
  shows "m31_wf (m31_pow_loop base result exp) \<and>
    m31_val (m31_pow_loop base result exp) = m31_val result * m31_val base ^ unat exp mod p31"
  using assms
proof (induction base result exp rule: m31_pow_loop.induct)
  case (1 base result exp)
  show ?case
  proof (cases "0 < exp")
    case True
    let ?r = "if exp mod 2 = 1 then mul_mod result base else result"
    have r: "m31_wf ?r" "m31_val ?r = m31_val result * m31_val base ^ (unat exp mod 2) mod p31"
      using mul_mod_correct [OF 1(3,2)] 1(3) m31_val_bounds [of result] by (simp_all add: unat_odd)
    have "m31_pow_loop base result exp = m31_pow_loop (m31_square base) ?r (drop_bit 1 exp)"
      using True by (subst m31_pow_loop.simps) simp
    moreover have "unat (drop_bit 1 exp) = unat exp div 2"
      by (simp add: drop_bit_eq_div unat_div_distrib)
    ultimately show ?thesis
      using 1(1) [OF True square_correct(1) [OF 1(2)] r(1)]
      by (simp only: r(2) square_correct(2) [OF 1(2)] pow_split_mod)
  next
    case False
    then have "exp = 0"
      by (simp add: word_gt_0)
    then show ?thesis
      using 1 m31_val_bounds [of result] by (simp add: m31_pow_loop.simps)
  qed
qed

lemma pow_correct:
  "m31_wf x \<Longrightarrow> m31_wf (m31_pow x e) \<and> m31_val (m31_pow x e) = m31_val x ^ unat e mod p31"
  using pow_loop_correct [of x 1 e] by (simp add: m31_pow_def m31_consts)

end
