(* ===== verification/M31_Laws.thy ===== *)
theory M31_Laws
  imports M31
begin

text \<open>
  What the field operations compute: inverses and square roots (through Fermat's identity of the
  theory \<open>Mersenne\<close>), rotations by powers of two, conversions, the guest's canonical variants, and
  the properties of the component.
\<close>

section \<open>Powers, inverses and square roots\<close>

definition m31_pow_of :: "m31 \<Rightarrow> m31 \<Rightarrow> nat \<Rightarrow> bool" where
  "m31_pow_of x y k \<longleftrightarrow> m31_wf y \<and> m31_val y = m31_val x ^ k mod p31"

lemma pow_of_self: "m31_wf x \<Longrightarrow> m31_pow_of x x 1"
  by (simp add: m31_pow_of_def m31_val_def)

lemma pow_of_mul:
  "m31_pow_of x a i \<Longrightarrow> m31_pow_of x b j \<Longrightarrow> m31_pow_of x (mul_mod a b) (i + j)"
  by (simp add: m31_pow_of_def mul_mod_correct mod_mult_eq power_add)

lemma pow_of_exp:
  "m31_pow_of x a i \<Longrightarrow> m31_pow_of x (m31_exp_power_of_2 a k) (i * 2 ^ k)"
  by (simp add: m31_pow_of_def exp_power_of_2_correct power_mod power_mult)

lemma pow_of_square: "m31_pow_of x a i \<Longrightarrow> m31_pow_of x (m31_square a) (i * 2)"
  by (simp add: m31_pow_of_def square_correct power_mod power_mult)

lemma inverse_pow:
  assumes "m31_wf x" "\<not> m31_is_zero x"
  shows "\<exists>y. m31_inverse x = Some y \<and> m31_pow_of x y 2147483645"
proof -
  define p101 where "p101 = mul_mod (m31_exp_power_of_2 x 2) x"
  define p1111 where "p1111 = mul_mod (m31_square p101) p101"
  define p8 where "p8 = mul_mod (m31_exp_power_of_2 p1111 4) p1111"
  define p8_0 where "p8_0 = m31_exp_power_of_2 p8 4"
  define p12 where "p12 = mul_mod p8_0 p1111"
  define p16 where "p16 = mul_mod (m31_exp_power_of_2 p8_0 4) p8"
  define p28 where "p28 = mul_mod (m31_exp_power_of_2 p16 12) p12"
  have 1: "m31_pow_of x p101 5"
    using pow_of_mul [OF pow_of_exp [OF pow_of_self, of x 2] pow_of_self] assms by (simp add: p101_def)
  have 2: "m31_pow_of x p1111 15"
    using pow_of_mul [OF pow_of_square [OF 1] 1] by (simp add: p1111_def)
  have 3: "m31_pow_of x p8 255"
    using pow_of_mul [OF pow_of_exp [OF 2, of 4] 2] by (simp add: p8_def)
  have 4: "m31_pow_of x p8_0 4080"
    using pow_of_exp [OF 3, of 4] by (simp add: p8_0_def)
  have 5: "m31_pow_of x p12 4095"
    using pow_of_mul [OF 4 2] by (simp add: p12_def)
  have 6: "m31_pow_of x p16 65535"
    using pow_of_mul [OF pow_of_exp [OF 4, of 4] 3] by (simp add: p16_def)
  have 7: "m31_pow_of x p28 268435455"
    using pow_of_mul [OF pow_of_exp [OF 6, of 12] 5] by (simp add: p28_def)
  have 8: "m31_pow_of x (mul_mod (m31_exp_power_of_2 p28 3) p101) 2147483645"
    using pow_of_mul [OF pow_of_exp [OF 7, of 3] 1] by simp
  have "m31_inverse x = Some (mul_mod (m31_exp_power_of_2 p28 3) p101)"
    using assms(2) unfolding m31_inverse_def p101_def p1111_def p8_def p8_0_def p12_def p16_def p28_def Let_def
    by (simp only: if_False)
  with 8 show ?thesis
    by blast
qed

lemma inverse_correct:
  assumes "m31_wf x" "\<not> m31_is_zero x"
  shows "\<exists>y. m31_inverse x = Some y \<and> m31_wf y \<and> m31_val x * m31_val y mod p31 = 1"
proof -
  obtain y where y: "m31_inverse x = Some y" "m31_wf y" "m31_val y = m31_val x ^ 2147483645 mod p31"
    using inverse_pow [OF assms] unfolding m31_pow_of_def by blast
  have "m31_val x * m31_val y mod p31 = m31_val x * m31_val x ^ 2147483645 mod p31"
    unfolding y(3) by (simp only: mod_mult_right_eq)
  also have "\<dots> = m31_val x ^ N31 mod p31"
  proof -
    have "N31 = Suc 2147483645"
      by (simp add: N31_def)
    then show ?thesis
      by (metis power_Suc)
  qed
  also have "\<dots> = 1"
    using assms m31_val_bounds [of x] by (intro fermat_m31) (auto simp: m31_is_zero_iff)
  finally show ?thesis
    using y by blast
qed

lemma fermat_plus_2: "(y :: int) ^ (N31 + 2) mod p31 = y ^ 2 mod p31"
proof -
  let ?y = "y mod p31"
  have "?y ^ N31 * ?y ^ 2 mod p31 = ?y ^ 2 mod p31"
  proof (cases "?y = 0")
    case False
    moreover have "0 \<le> ?y" "?y < p31"
      by simp_all
    ultimately have "?y ^ N31 mod p31 = 1"
      by (intro fermat_m31) linarith+
    then have "(?y ^ N31 mod p31) * ?y ^ 2 mod p31 = ?y ^ 2 mod p31"
      by (simp only: mult_1)
    then show ?thesis
      by (simp only: mod_mult_left_eq)
  qed (simp only: power2_eq_square mult_zero_right)
  then have "?y ^ (N31 + 2) mod p31 = ?y ^ 2 mod p31"
    by (simp only: power_add)
  then show ?thesis
    by (simp only: power_mod)
qed

lemma square_root_power: "((y ^ 2 mod p31) ^ (2 ^ 29) mod p31) ^ 2 mod p31 = (y :: int) ^ 2 mod p31"
proof -
  have e: "2 * (2 ^ 29 * 2) = N31 + 2"
    by (simp add: N31_def)
  have "((y ^ 2 mod p31) ^ (2 ^ 29) mod p31) ^ 2 mod p31 = y ^ (2 * (2 ^ 29 * 2)) mod p31"
    by (simp only: power_mod mult.assoc flip: power_mult)
  then show ?thesis
    by (simp only: e fermat_plus_2)
qed

lemma sqrt_of_square:
  assumes "m31_wf x" "m31_val x = y ^ 2 mod p31"
  shows "\<exists>r. m31_sqrt x = Some r \<and> m31_wf r \<and> m31_val r ^ 2 mod p31 = m31_val x"
proof -
  obtain c where c: "m31_exp_power_of_2 x 29 = c" "m31_wf c" "m31_val c = m31_val x ^ (2 ^ 29) mod p31"
    using exp_power_of_2_correct [OF assms(1), of 29] by blast
  have sq: "m31_val (m31_square c) = m31_val x"
    unfolding square_correct(2) [OF c(2)] c(3) assms(2) by (rule square_root_power)
  then have "m31_eq (m31_square c) x"
    using m31_eq_iff [OF square_correct(1) [OF c(2)] assms(1)] by blast
  then have "m31_sqrt x = Some c"
    by (simp add: m31_sqrt_def c(1))
  then show ?thesis
    using c(2) sq square_correct(2) [OF c(2)] by metis
qed

lemma sqrt_sound:
  assumes "m31_wf x" "m31_sqrt x = Some r"
  shows "m31_wf r \<and> m31_val r ^ 2 mod p31 = m31_val x"
proof -
  have r: "r = m31_exp_power_of_2 x 29" "m31_eq (m31_square r) x"
    using assms(2) by (auto simp: m31_sqrt_def Let_def split: if_splits)
  then have "m31_wf r"
    using exp_power_of_2_correct [OF assms(1)] by blast
  then show ?thesis
    using r(2) m31_eq_iff [OF square_correct(1) assms(1)] square_correct(2) by auto
qed

section \<open>Canonical guest arithmetic\<close>

text \<open>The guest's compile-time operations work on canonical residues and give canonical residues.\<close>

lemma reduce_with_division_ct_uint: "uint (reduce_with_division_ct x) = uint x mod p31"
  by (simp add: reduce_with_division_ct_def ORDER_eq uint_mod_distrib)

lemma add_mod_ct_correct:
  assumes "uint a < p31" "uint b < p31"
  shows "uint (add_mod_ct a b) = (uint a + uint b) mod p31"
proof -
  have "uint (a + b) = uint a + uint b"
    using assms by (simp add: uint_word_ariths(1))
  then show ?thesis
    by (simp add: add_mod_ct_def reduce_with_division_ct_uint)
qed

lemma sub_mod_ct_correct:
  assumes "uint a < p31" "uint b < p31"
  shows "uint (sub_mod_ct a b) = (uint a - uint b) mod p31"
proof -
  have b: "0 \<le> p31 + uint a - uint b" "p31 + uint a - uint b < 4294967296"
    using assms uint_u32_bounds [of a] uint_u32_bounds [of b] by linarith+
  have "uint (ORDER + a - b) = (p31 + uint a - uint b) mod 4294967296"
    by (simp add: uint_word_ariths ORDER_eq mod_diff_left_eq)
  then have "uint (ORDER + a - b) = p31 + uint a - uint b"
    using b by (simp only: mod_pos_pos_trivial)
  then show ?thesis
    using mod_add_self1 [of p31 "uint a - uint b"]
    by (simp only: sub_mod_ct_def reduce_with_division_ct_uint add_diff_eq)
qed

lemma mul_mod_ct_correct:
  assumes "uint a < p31" "uint b < p31"
  shows "uint (mul_mod_ct a b) = (uint a * uint b) mod p31"
proof -
  have wf: "m31_wf a" "m31_wf b"
    using assms by (simp_all add: m31_wf_iff)
  let ?x = "ucast a * ucast b :: u64"
  have u: "uint ?x = uint a * uint b"
    using product_bound [OF wf] by (simp add: uint_word_ariths(3) uint_ucast_64)
  then have lt: "uint ?x < 4611686018427387904"
    using product_bound [OF wf] by simp
  let ?l = "take_bit 31 (ucast ?x :: u32)" and ?h = "ucast (drop_bit 31 ?x) :: u32"
  have lh: "uint ?l = uint ?x mod 2147483648" "uint ?h = uint ?x div 2147483648"
    by (rule uint_low_part, rule uint_high_part [OF lt])
  have "uint ?x mod 2147483648 < 2147483648" "uint ?x div 2147483648 < 2147483648"
    using lt by (simp_all add: div_less_iff_less_mult)
  then have "uint (?l + ?h) = uint ?x mod 2147483648 + uint ?x div 2147483648"
    using lh by (subst uint_add_lem [THEN iffD1]) (simp_all only:, simp)
  moreover have "mul_mod_ct a b = reduce_with_division_ct (?l + ?h)"
    by (simp add: mul_mod_ct_def and_low31 Let_def)
  ultimately show ?thesis
    by (simp only: reduce_with_division_ct_uint fold_mod u)
qed

section \<open>Multiplication by powers of two\<close>

lemma uint_or_disjoint:
  assumes "(a :: u32) AND b = 0"
  shows "uint (a OR b) = uint a + uint b"
proof -
  have "uint a AND uint b = 0"
    using assms by (metis unsigned_0 unsigned_and_eq)
  then show ?thesis
    by (simp add: unsigned_or_eq disjunctive_add_eq_or)
qed

lemma m31_wf_bit: "m31_wf x \<Longrightarrow> bit x k \<Longrightarrow> k < 31"
  using bit_imp_le_length [of x k] bit31_iff [of x] by (cases "k = 31") (auto simp: m31_wf_iff)

lemma m31_wf_bitI: "\<not> bit x 31 \<Longrightarrow> m31_wf x"
  by (simp add: bit31_iff m31_wf_iff)

lemma rotate_parts:
  assumes "m31_wf x" "e \<le> 31"
  shows "uint (take_bit 31 (push_bit e x)) = uint x * 2 ^ e mod 2147483648"
    "uint (drop_bit (31 - e) x) = uint x * 2 ^ e div 2147483648"
    "take_bit 31 (push_bit e x) AND drop_bit (31 - e) x = 0"
proof -
  have pow: "uint (2 ^ k :: u32) = 2 ^ k" if "k \<le> 31" for k
    using that by (intro uint_2p) (simp add: word_gt_0)
  show "uint (take_bit 31 (push_bit e x)) = uint x * 2 ^ e mod 2147483648"
    using pow [OF assms(2)]
    by (simp add: take_bit_eq_mod uint_mod_distrib push_bit_eq_mult uint_word_ariths mod_mod_cancel)
  have "uint x * 2 ^ e div 2147483648 = uint x * 2 ^ e div (2 ^ (31 - e) * 2 ^ e)"
    using assms by (simp flip: power_add)
  then show "uint (drop_bit (31 - e) x) = uint x * 2 ^ e div 2147483648"
    using pow [of "31 - e"] by (simp add: drop_bit_eq_div uint_div_distrib)
  show "take_bit 31 (push_bit e x) AND drop_bit (31 - e) x = 0"
    using assms(2) by (intro bit_word_eqI) (auto simp: bit_simps dest!: m31_wf_bit [OF assms(1)])
qed

lemma mul_2exp_correct:
  assumes "m31_wf x"
  shows "m31_wf (mul_2exp_u64 x e)"
    "m31_val (mul_2exp_u64 x e) = m31_val x * 2 ^ (unat e mod 31) mod p31"
proof -
  let ?e = "unat (e mod 31)"
  have e: "?e = unat e mod 31" "?e \<le> 31"
    by (simp_all add: unat_mod_distrib)
  have eq: "mul_2exp_u64 x e = take_bit 31 (push_bit ?e x) OR drop_bit (31 - ?e) x"
    by (simp add: mul_2exp_u64_def and_low31 Let_def)
  then have u: "uint (mul_2exp_u64 x e) = uint x * 2 ^ ?e mod 2147483648 + uint x * 2 ^ ?e div 2147483648"
    using rotate_parts [OF assms e(2)] by (simp add: uint_or_disjoint)
  show "m31_wf (mul_2exp_u64 x e)"
    unfolding eq by (rule m31_wf_bitI) (auto simp: bit_simps dest!: m31_wf_bit [OF assms])
  show "m31_val (mul_2exp_u64 x e) = m31_val x * 2 ^ (unat e mod 31) mod p31"
    unfolding m31_val_def u fold_mod e(1) by (simp only: mod_mult_left_eq)
qed

lemma div_2exp_correct:
  assumes "m31_wf x"
  shows "m31_wf (div_2exp_u64 x e)"
    "m31_val (div_2exp_u64 x e) * 2 ^ (unat e mod 31) mod p31 = m31_val x"
proof -
  let ?e = "unat (e mod 31)"
  have e: "?e = unat e mod 31" "?e \<le> 31"
    by (simp_all add: unat_mod_distrib)
  have "div_2exp_u64 x e = take_bit 31 (push_bit (31 - ?e) x) OR drop_bit ?e x"
    by (simp add: div_2exp_u64_def and_low31 Let_def or.commute)
  then have eq: "div_2exp_u64 x e = take_bit 31 (push_bit (31 - ?e) x) OR drop_bit (31 - (31 - ?e)) x"
    using e(2) by simp
  have u: "uint (div_2exp_u64 x e) = uint x * 2 ^ (31 - ?e) mod 2147483648 + uint x * 2 ^ (31 - ?e) div 2147483648"
    unfolding eq using rotate_parts [OF assms, of "31 - ?e"] by (simp add: uint_or_disjoint)
  show "m31_wf (div_2exp_u64 x e)"
    unfolding eq by (rule m31_wf_bitI) (auto simp: bit_simps dest!: m31_wf_bit [OF assms])
  have "m31_val (div_2exp_u64 x e) * 2 ^ ?e mod p31 = uint x * 2 ^ (31 - ?e) * 2 ^ ?e mod p31"
    unfolding m31_val_def u fold_mod by (simp only: mod_mult_left_eq)
  also have "\<dots> = uint x * 2 ^ 31 mod p31"
    using e(2) by (simp add: mult.assoc flip: power_add)
  also have "\<dots> = uint x mod p31"
    using mod_mult_self3 [of "uint x" p31 "uint x"] by (simp add: algebra_simps)
  finally show "m31_val (div_2exp_u64 x e) * 2 ^ (unat e mod 31) mod p31 = m31_val x"
    by (simp add: m31_val_def e(1))
qed

section \<open>Conversions\<close>

lemma from_nonreduced_correct:
  "m31_wf (from_nonreduced_u32 c)" "m31_val (from_nonreduced_u32 c) = uint c mod p31"
proof -
  have "uint (from_nonreduced_u32 c) =
    (if uint c < p31 then uint c else if uint c < 2 * p31 then uint c - p31 else uint c - 2 * p31)"
    using uint_u32_bounds [of c]
    by (auto simp: from_nonreduced_u32_def Let_def ORDER_eq word_le_def uint_sub_if_size)
  moreover have "uint c mod p31 =
    (if uint c < p31 then uint c else if uint c < 2 * p31 then uint c - p31 else uint c - 2 * p31)"
  proof -
    consider "uint c < p31" | "p31 \<le> uint c" "uint c < 2 * p31" | "2 * p31 \<le> uint c"
      by linarith
    then show ?thesis
    proof cases
      case 2
      then have "(uint c - p31) mod p31 = uint c - p31"
        by (intro mod_pos_pos_trivial) linarith+
      with 2 show ?thesis by simp
    next
      case 3
      then have "(uint c - 2 * p31) mod p31 = uint c - 2 * p31"
        using uint_u32_bounds [of c] by (intro mod_pos_pos_trivial) linarith+
      moreover have "(uint c - 2 * p31) mod p31 = uint c mod p31"
        using mod_mult_self4 [of p31 2 "uint c - 2 * p31"] by simp
      ultimately show ?thesis using 3 by simp
    qed simp
  qed
  ultimately show "m31_wf (from_nonreduced_u32 c)" "m31_val (from_nonreduced_u32 c) = uint c mod p31"
    using uint_u32_bounds [of c] by (auto simp: m31_wf_iff m31_val_def)
qed

lemma from_u64_with_reduction_correct:
  "m31_wf (m31_from_u64_with_reduction v)" "m31_val (m31_from_u64_with_reduction v) = uint v mod p31"
proof -
  have "uint (m31_from_u64_with_reduction v) = uint v mod p31"
    by (simp add: m31_from_u64_with_reduction_def ORDER_eq unsigned_ucast_eq uint_mod_distrib take_bit_eq_mod)
  then show "m31_wf (m31_from_u64_with_reduction v)" "m31_val (m31_from_u64_with_reduction v) = uint v mod p31"
    by (simp_all add: m31_wf_iff m31_val_def less_imp_le)
qed

lemma uint_drop_bit: "k < 64 \<Longrightarrow> uint (drop_bit k (x :: u64)) = uint x div 2 ^ k"
  by (simp add: unsigned_drop_bit_eq drop_bit_eq_div uint_div_distrib uint_2p word_gt_0)

lemma from_negative_parts:
  fixes x :: u64
  defines "l \<equiv> uint x mod 2147483648" and "h \<equiv> uint x div 2147483648 mod 2147483648"
    and "s \<equiv> uint x div 9223372036854775808"
  assumes nz: "0 < l + h \<or> s = 0"
  shows "m31_val (from_negative_u64_with_reduction x) = (l + h - s) mod p31"
    and "m31_wf (from_negative_u64_with_reduction x)"
proof -
  have "s < 2"
    using uint_bounded [of x] by (simp add: s_def div_less_iff_less_mult)
  then have s: "0 \<le> s" "s \<le> 1"
    by (simp_all add: s_def pos_imp_zdiv_nonneg_iff)
  let ?l = "take_bit 31 (ucast x :: u32)" and ?h = "take_bit 31 (ucast (drop_bit 31 x) :: u32)"
    and ?s = "ucast (drop_bit 63 x) :: u32"
  have parts: "uint ?l = l" "uint ?h = h"
    by (simp_all add: uint_low_part l_def h_def uint_drop_bit)
  have "uint ?s = s"
    using s by (simp add: unsigned_ucast_eq uint_drop_bit s_def take_bit_int_eq_self_iff)
  have lh: "0 \<le> l" "l \<le> p31" "0 \<le> h" "h \<le> p31"
    by (simp_all add: l_def h_def)
  define r where "r = ?l + ?h - ?s"
  have r: "uint r = l + h - s"
  proof -
    have "uint (?l + ?h) = l + h"
      using lh by (simp add: uint_word_ariths(1) parts)
    moreover have "s \<le> l + h"
      using s nz lh by (elim disjE) linarith+
    ultimately show ?thesis
      unfolding r_def using \<open>uint ?s = s\<close> by (simp add: uint_sub_if_size)
  qed
  define res where "res = (r XOR (r AND 2147483648)) + of_bool (r AND 2147483648 \<noteq> 0)"
  have res: "uint res = (l + h - s) mod 2147483648 + (l + h - s) div 2147483648"
    unfolding res_def by (simp only: fold31 r)
  have bnd: "uint res \<le> p31"
    unfolding res using s nz lh by (intro fold_bound) linarith+
  have eq: "from_negative_u64_with_reduction x = (if ORDER \<le> res then res - ORDER else res)"
    unfolding from_negative_u64_with_reduction_def Let_def res_def r_def by (simp add: and_low31)
  have "uint (from_negative_u64_with_reduction x) = (if uint res = p31 then 0 else uint res)"
    using bnd unfolding eq by (auto simp: ORDER_eq word_le_def uint_sub_if_size)
  then show "m31_val (from_negative_u64_with_reduction x) = (l + h - s) mod p31"
      "m31_wf (from_negative_u64_with_reduction x)"
    using bnd res fold_mod [of "l + h - s"] by (auto simp: m31_val_def m31_wf_iff)
qed

lemma from_negative_nonneg:
  assumes "uint (x :: u64) < 4611686018427387904"
  shows "m31_wf (from_negative_u64_with_reduction x)"
    "m31_val (from_negative_u64_with_reduction x) = uint x mod p31"
proof -
  have s: "uint x div 9223372036854775808 = 0" "uint x div 2147483648 mod 2147483648 = uint x div 2147483648"
    using assms by (simp_all add: div_pos_pos_trivial mod_pos_pos_trivial div_less_iff_less_mult
        pos_imp_zdiv_nonneg_iff)
  show "m31_wf (from_negative_u64_with_reduction x)"
    "m31_val (from_negative_u64_with_reduction x) = uint x mod p31"
    using from_negative_parts [of x] s fold_mod [of "uint x"] by simp_all
qed

lemma from_negative_neg:
  fixes x :: u64
  assumes "13835058055282163712 < uint x"
  shows "m31_wf (from_negative_u64_with_reduction x)"
    "m31_val (from_negative_u64_with_reduction x) = (uint x - 18446744073709551616) mod p31"
proof -
  define t where "t = uint x - 13835058055282163712"
  have t: "0 < t" "t < 4611686018427387904" "uint x = t + 13835058055282163712"
    using assms uint_bounded [of x] by (simp_all add: t_def)
  have l: "uint x mod 2147483648 = t mod 2147483648"
    unfolding t(3) by (simp add: mod_add_eq [symmetric])
  have h: "uint x div 2147483648 mod 2147483648 = t div 2147483648"
  proof -
    have "uint x div 2147483648 = t div 2147483648 + 6442450944"
      unfolding t(3) using div_mult_self1 [of 2147483648 t 6442450944] by simp
    moreover have "(t div 2147483648 + 6442450944) mod 2147483648 = t div 2147483648 mod 2147483648"
      by (simp add: mod_add_eq [symmetric])
    moreover have "0 \<le> t div 2147483648" "t div 2147483648 < 2147483648"
      using t by (simp_all add: pos_imp_zdiv_nonneg_iff div_less_iff_less_mult)
    ultimately show ?thesis
      by simp
  qed
  have sgn: "uint x div 9223372036854775808 = 1"
    using assms uint_bounded [of x] by (simp add: div_pos_geq)
  have "t \<noteq> 0"
    using t by simp
  have pos: "0 < t mod 2147483648 + t div 2147483648"
  proof (rule ccontr)
    assume "\<not> ?thesis"
    moreover have "0 \<le> t mod 2147483648" "0 \<le> t div 2147483648"
      using t by (simp_all add: pos_imp_zdiv_nonneg_iff)
    ultimately have "t mod 2147483648 = 0" "t div 2147483648 = 0"
      by linarith+
    then show False
      using t mult_div_mod_eq [of 2147483648 t] by simp
  qed
  have "(t mod 2147483648 + t div 2147483648 - 1) mod p31 = (t - 1) mod p31"
    using fold_mod [of t] by (metis mod_diff_left_eq)
  also have "\<dots> = (uint x - 18446744073709551616) mod p31"
    using mod_mult_self2 [of "uint x - 18446744073709551616" p31 2147483649] by (simp add: t(3))
  finally show "m31_val (from_negative_u64_with_reduction x) = (uint x - 18446744073709551616) mod p31"
    using from_negative_parts(1) [of x] pos unfolding l h sgn by simp
  show "m31_wf (from_negative_u64_with_reduction x)"
    using from_negative_parts(2) [of x] pos unfolding l h sgn by simp
qed

lemma from_negative_boundary: "from_negative_u64_with_reduction 0xc000000000000000 = 1"
  by (simp add: from_negative_u64_with_reduction_def ORDER_eq)

section \<open>Properties\<close>

text \<open>C24: the host operations keep the representation invariant (at most \<open>ORDER\<close>) and compute
  sum, difference, product, fused product, negation, doubling and squaring modulo
  \<open>2 ^ 31 - 1\<close>.\<close>

theorem m31_ops_correct:
  assumes "m31_wf a" "m31_wf b" "m31_wf c"
  shows "(m31_wf (add_mod a b) \<and> m31_val (add_mod a b) = (m31_val a + m31_val b) mod p31) \<and>
    (m31_wf (sub_mod a b) \<and> m31_val (sub_mod a b) = (m31_val a - m31_val b) mod p31) \<and>
    (m31_wf (mul_mod a b) \<and> m31_val (mul_mod a b) = (m31_val a * m31_val b) mod p31) \<and>
    (m31_wf (fma_mod a b c) \<and>
      m31_val (fma_mod a b c) = (m31_val a * m31_val b + m31_val c) mod p31) \<and>
    (m31_wf (m31_negate a) \<and> m31_val (m31_negate a) = (- m31_val a) mod p31) \<and>
    (m31_wf (m31_double a) \<and> m31_val (m31_double a) = (2 * m31_val a) mod p31) \<and>
    (m31_wf (m31_square a) \<and> m31_val (m31_square a) = (m31_val a) ^ 2 mod p31)"
  using assms by (simp add: add_mod_correct sub_mod_correct mul_mod_correct fma_mod_correct
      negate_correct double_correct square_correct)

theorem m31_ops_correct_witness:
  "m31_val (fma_mod 0x7fffffff 5 0x7ffffffe) = (m31_val 0x7fffffff * m31_val 5 + m31_val 0x7ffffffe) mod p31"
  using m31_ops_correct [of "0x7fffffff" 5 "0x7ffffffe"] by (simp add: m31_wf_def ORDER_eq)

text \<open>C25: \<open>inverse\<close> returns nothing on both representations of zero and a multiplicative inverse
  modulo the prime on every other element.\<close>

theorem m31_inverse_correct:
  assumes "m31_wf x"
  shows "if m31_val x = 0 then m31_inverse x = None
    else \<exists>y. m31_inverse x = Some y \<and> m31_wf y \<and> m31_val x * m31_val y mod p31 = 1"
  using inverse_correct [OF assms] m31_is_zero_iff [OF assms] by (simp add: m31_inverse_def)

theorem m31_inverse_correct_witness:
  "\<exists>y. m31_inverse 3 = Some y \<and> m31_wf y \<and> 3 * m31_val y mod p31 = 1"
  using m31_inverse_correct [of 3] by (simp add: m31_wf_def ORDER_eq m31_val_def)

text \<open>C26: \<open>sqrt\<close> finds a square root exactly when one exists.\<close>

theorem m31_sqrt_correct:
  assumes "m31_wf x"
  shows "case m31_sqrt x of
      Some r \<Rightarrow> m31_wf r \<and> m31_val r ^ 2 mod p31 = m31_val x
    | None \<Rightarrow> \<not> (\<exists>y :: int. y ^ 2 mod p31 = m31_val x)"
proof (cases "m31_sqrt x")
  case None
  then have "y ^ 2 mod p31 \<noteq> m31_val x" for y :: int
    using sqrt_of_square [OF assms, of y] by auto
  with None show ?thesis
    by simp
qed (use sqrt_sound [OF assms] in simp)

theorem m31_sqrt_correct_witness:
  "case m31_sqrt 4 of
      Some r \<Rightarrow> m31_wf r \<and> m31_val r ^ 2 mod p31 = m31_val 4
    | None \<Rightarrow> \<not> (\<exists>y :: int. y ^ 2 mod p31 = m31_val 4)"
  by (rule m31_sqrt_correct) (simp add: m31_wf_def ORDER_eq)

text \<open>C29: on canonical inputs the guest's division-based operations give the canonical form of
  what the host's shift-based operations give.\<close>

theorem guest_agrees_with_host:
  assumes "a < ORDER" "b < ORDER"
  shows "add_mod_ct a b = to_reduced_u32 (add_mod a b) \<and>
    sub_mod_ct a b = to_reduced_u32 (sub_mod a b) \<and>
    mul_mod_ct a b = to_reduced_u32 (mul_mod a b)"
proof -
  have lt: "uint a < p31" "uint b < p31"
    using assms by (simp_all add: ORDER_eq word_less_def)
  then have wf: "m31_wf a" "m31_wf b"
    by (simp_all add: m31_wf_iff)
  have "m31_val a = uint a" "m31_val b = uint b"
    using lt by (simp_all add: m31_val_def)
  with lt wf show ?thesis
    by (simp add: word_uint_eq_iff to_reduced_val add_mod_correct sub_mod_correct mul_mod_correct
        add_mod_ct_correct sub_mod_ct_correct mul_mod_ct_correct)
qed

theorem guest_agrees_with_host_witness:
  "sub_mod_ct 3 5 = to_reduced_u32 (sub_mod 3 5) \<and> add_mod_ct 0x7ffffffe 1 = to_reduced_u32 (add_mod 0x7ffffffe 1)"
  using guest_agrees_with_host [of 3 5] guest_agrees_with_host [of "0x7ffffffe" 1]
  by (simp add: ORDER_eq)




end
