(* ===== verification/Blake2s.thy ===== *)
theory Blake2s
  imports Prelude
begin

text \<open>
  The BLAKE2s implementation of the crate \<open>blake2s_u32\<close>: constants (\<open>lib.rs\<close>), the mixing function
  and the two round functions (\<open>mixing_function.rs\<close>), the buffer-less hasher of the host
  (\<open>baseline.rs\<close>) and the host path of \<open>state_with_extended_control.rs\<close>.  Fixed-size arrays are lists;
  \<open>blake2s_wf\<close> and \<open>evaluator_wf\<close> state their lengths.  The const generic \<open>REDUCED_ROUNDS\<close> is an
  ordinary argument.
\<close>

section \<open>Constants\<close>

definition BLAKE2S_BLOCK_SIZE_BYTES :: u32 where "BLAKE2S_BLOCK_SIZE_BYTES = 64"

definition IV :: "u32 list" where
  "IV = [0x6A09E667, 0xBB67AE85, 0x3C6EF372, 0xA54FF53A, 0x510E527F, 0x9B05688C, 0x1F83D9AB, 0x5BE0CD19]"

definition IV_0_TWIST :: u32 where
  "IV_0_TWIST = 0x6A09E667 XOR 0x01010000 XOR 32"

definition SIGMAS :: "nat list list" where
  "SIGMAS = [
    [0, 1, 2, 3, 4, 5, 6, 7, 8, 9, 10, 11, 12, 13, 14, 15],
    [14, 10, 4, 8, 9, 15, 13, 6, 1, 12, 0, 2, 11, 7, 5, 3],
    [11, 8, 12, 0, 5, 2, 15, 13, 10, 14, 3, 6, 7, 1, 9, 4],
    [7, 9, 3, 1, 13, 12, 11, 14, 2, 6, 5, 10, 4, 0, 15, 8],
    [9, 0, 5, 7, 2, 4, 10, 15, 14, 1, 11, 12, 6, 8, 3, 13],
    [2, 12, 6, 10, 0, 11, 8, 3, 4, 13, 7, 5, 15, 14, 1, 9],
    [12, 5, 1, 15, 14, 13, 4, 10, 0, 7, 6, 3, 9, 2, 8, 11],
    [13, 11, 7, 14, 12, 1, 3, 9, 5, 0, 15, 4, 8, 6, 2, 10],
    [6, 15, 14, 9, 11, 3, 0, 8, 12, 2, 13, 7, 1, 4, 10, 5],
    [10, 2, 8, 4, 7, 6, 1, 5, 15, 11, 9, 14, 3, 12, 13, 0]]"

definition CONFIGURED_IV :: "u32 list" where
  "CONFIGURED_IV = IV[0 := IV_0_TWIST]"

definition EXTENDED_CONFIGURED_IV :: "u32 list" where
  "EXTENDED_CONFIGURED_IV =
    fold (\<lambda>i result. result[i := CONFIGURED_IV ! i, 8 + i := IV ! i]) [0..<8] (replicate 16 0)"

definition TEST_IF_LAST_ROUND_MASK :: u32 where
  "TEST_IF_LAST_ROUND_MASK = push_bit 0 1"
definition TEST_IF_INPUT_IS_RIGHT_NODE_MASK :: u32 where
  "TEST_IF_INPUT_IS_RIGHT_NODE_MASK = push_bit 1 1"
definition TEST_IF_COMPRESSION_MODE_MASK :: u32 where
  "TEST_IF_COMPRESSION_MODE_MASK = push_bit 2 1"

definition COMPRESSION_MODE_EXTENDED_CONFIGURED_IV :: "u32 list" where
  "COMPRESSION_MODE_EXTENDED_CONFIGURED_IV =
    (let result = EXTENDED_CONFIGURED_IV;
         result = result[12 := result ! 12 XOR BLAKE2S_BLOCK_SIZE_BYTES]
     in result[14 := result ! 14 XOR 0xffffffff])"

section \<open>Mixing\<close>

definition rotate_right :: "nat \<Rightarrow> u32 \<Rightarrow> u32" where
  "rotate_right amt value = word_rotr amt value"

definition g_function ::
  "u32 list \<Rightarrow> nat \<Rightarrow> nat \<Rightarrow> nat \<Rightarrow> nat \<Rightarrow> u32 \<Rightarrow> u32 \<Rightarrow> u32 list" where
  "g_function v a b c d x y =
    (let v = v[a := v ! a + v ! b + x];
         v = v[d := rotate_right 16 (v ! d XOR v ! a)];
         v = v[c := v ! c + v ! d];
         v = v[b := rotate_right 12 (v ! b XOR v ! c)];
         v = v[a := v ! a + v ! b + y];
         v = v[d := rotate_right 8 (v ! d XOR v ! a)];
         v = v[c := v ! c + v ! d];
         v = v[b := rotate_right 7 (v ! b XOR v ! c)]
     in v)"

definition mixing_function :: "u32 list \<Rightarrow> u32 list \<Rightarrow> nat list \<Rightarrow> u32 list" where
  "mixing_function state message_block sigma =
    (let m = (\<lambda>i. message_block ! (sigma ! i));
         state = g_function state 0 4 8 12 (m 0) (m 1);
         state = g_function state 1 5 9 13 (m 2) (m 3);
         state = g_function state 2 6 10 14 (m 4) (m 5);
         state = g_function state 3 7 11 15 (m 6) (m 7);
         state = g_function state 0 5 10 15 (m 8) (m 9);
         state = g_function state 1 6 11 12 (m 10) (m 11);
         state = g_function state 2 7 8 13 (m 12) (m 13);
         state = g_function state 3 4 9 14 (m 14) (m 15)
     in state)"

definition round_function_reduced_rounds :: "u32 list \<Rightarrow> u32 list \<Rightarrow> u32 list" where
  "round_function_reduced_rounds state message_block =
    fold (\<lambda>i state. mixing_function state message_block (SIGMAS ! i)) [0..<7] state"

definition round_function_full_rounds :: "u32 list \<Rightarrow> u32 list \<Rightarrow> u32 list" where
  "round_function_full_rounds state message_block =
    fold (\<lambda>i state. mixing_function state message_block (SIGMAS ! i)) [0..<10] state"

section \<open>The hasher of the host\<close>

record blake2s_state =
  bs_state :: "u32 list"
  bs_input_buffer :: "u32 list"
  bs_t :: u32

text \<open>The array literal every operation starts from, and the loop every operation ends with.\<close>

definition extended_state_of :: "u32 list \<Rightarrow> u32 \<Rightarrow> u32 \<Rightarrow> u32 list" where
  "extended_state_of h w12 w14 =
    [h ! 0, h ! 1, h ! 2, h ! 3, h ! 4, h ! 5, h ! 6, h ! 7,
     IV ! 0, IV ! 1, IV ! 2, IV ! 3, w12, IV ! 5, w14, IV ! 7]"

definition xor_halves :: "u32 list \<Rightarrow> u32 list \<Rightarrow> u32 list" where
  "xor_halves h extended_state =
    map (\<lambda>i. (h ! i XOR extended_state ! i) XOR extended_state ! (i + 8)) [0..<8]"

definition run_rounds :: "bool \<Rightarrow> u32 list \<Rightarrow> u32 list \<Rightarrow> u32 list" where
  "run_rounds reduced_rounds extended_state message_block =
    (if reduced_rounds then round_function_reduced_rounds extended_state message_block
     else round_function_full_rounds extended_state message_block)"

definition Blake2sState_new :: blake2s_state where
  "Blake2sState_new = \<lparr>bs_state = CONFIGURED_IV, bs_input_buffer = replicate 16 0, bs_t = 0\<rparr>"

definition Blake2sState_reset :: "blake2s_state \<Rightarrow> blake2s_state" where
  "Blake2sState_reset self = self\<lparr>bs_state := CONFIGURED_IV, bs_t := 0\<rparr>"

definition spec_run_single_round_into_destination ::
  "bool \<Rightarrow> blake2s_state \<Rightarrow> usize \<Rightarrow> u32 list" where
  "spec_run_single_round_into_destination reduced_rounds self block_len =
    (let t = (ucast (block_len * 4) :: u32);
         extended_state = extended_state_of (bs_state self) (t XOR IV ! 4) (0xffffffff XOR IV ! 6);
         extended_state = run_rounds reduced_rounds extended_state (bs_input_buffer self)
     in xor_halves CONFIGURED_IV extended_state)"

definition run_round_function_with_byte_len ::
  "bool \<Rightarrow> blake2s_state \<Rightarrow> usize \<Rightarrow> bool \<Rightarrow> blake2s_state" where
  "run_round_function_with_byte_len reduced_rounds self input_size_bytes last_round =
    (let self = self\<lparr>bs_t := bs_t self + ucast input_size_bytes\<rparr>;
         extended_state = extended_state_of (bs_state self) (bs_t self XOR IV ! 4)
           ((0xffffffff * of_bool last_round) XOR IV ! 6);
         extended_state = run_rounds reduced_rounds extended_state (bs_input_buffer self)
     in self\<lparr>bs_state := xor_halves (bs_state self) extended_state\<rparr>)"

definition run_round_function :: "bool \<Rightarrow> blake2s_state \<Rightarrow> usize \<Rightarrow> bool \<Rightarrow> blake2s_state" where
  "run_round_function reduced_rounds self input_size_words last_round =
    run_round_function_with_byte_len reduced_rounds self (input_size_words * 4) last_round"

definition absorb :: "bool \<Rightarrow> blake2s_state \<Rightarrow> u32 list \<Rightarrow> blake2s_state" where
  "absorb reduced_rounds self message_block =
    (let self = self\<lparr>bs_t := bs_t self + BLAKE2S_BLOCK_SIZE_BYTES\<rparr>;
         extended_state = extended_state_of (bs_state self) (bs_t self XOR IV ! 4) (IV ! 6);
         extended_state = run_rounds reduced_rounds extended_state message_block
     in self\<lparr>bs_state := xor_halves (bs_state self) extended_state\<rparr>)"

text \<open>The result is the updated hasher and the digest written to \<open>dst\<close>.\<close>

definition absorb_final_block ::
  "bool \<Rightarrow> blake2s_state \<Rightarrow> u32 list \<Rightarrow> usize \<Rightarrow> blake2s_state \<times> u32 list" where
  "absorb_final_block reduced_rounds self message_block block_len =
    (let self = self\<lparr>bs_t := bs_t self + ucast (block_len * 4)\<rparr>;
         extended_state = extended_state_of (bs_state self) (bs_t self XOR IV ! 4) (0xffffffff XOR IV ! 6);
         extended_state = run_rounds reduced_rounds extended_state message_block
     in (self, xor_halves (bs_state self) extended_state))"

definition compress_two_to_one :: "bool \<Rightarrow> u32 list \<Rightarrow> u32 list" where
  "compress_two_to_one reduced_rounds message_block =
    (let extended_state = extended_state_of CONFIGURED_IV (BLAKE2S_BLOCK_SIZE_BYTES XOR IV ! 4)
           (0xffffffff XOR IV ! 6);
         extended_state = run_rounds reduced_rounds extended_state message_block
     in xor_halves CONFIGURED_IV extended_state)"

section \<open>The evaluator with extended control, on the host\<close>

record evaluator =
  ev_state :: "u32 list"
  ev_extended_state :: "u32 list"
  ev_input_buffer :: "u32 list"
  ev_t :: u32

definition evaluator_reset :: "evaluator \<Rightarrow> evaluator" where
  "evaluator_reset self = self\<lparr>ev_state := CONFIGURED_IV, ev_t := 0\<rparr>"

definition run_round_function_with_input_and_byte_len ::
  "bool \<Rightarrow> evaluator \<Rightarrow> u32 list \<Rightarrow> usize \<Rightarrow> bool \<Rightarrow> evaluator" where
  "run_round_function_with_input_and_byte_len reduced_rounds self input_buffer input_size_bytes last_round =
    (let self = self\<lparr>ev_t := ev_t self + ucast input_size_bytes\<rparr>;
         extended_state = extended_state_of (ev_state self) (ev_t self XOR IV ! 4)
           ((0xffffffff * of_bool last_round) XOR IV ! 6);
         extended_state = run_rounds reduced_rounds extended_state input_buffer
     in self\<lparr>ev_state := xor_halves (ev_state self) extended_state\<rparr>)"

definition run_round_function_with_input ::
  "bool \<Rightarrow> evaluator \<Rightarrow> u32 list \<Rightarrow> usize \<Rightarrow> bool \<Rightarrow> evaluator" where
  "run_round_function_with_input reduced_rounds self input_buffer input_size_words last_round =
    run_round_function_with_input_and_byte_len reduced_rounds self input_buffer
      (input_size_words * 4) last_round"

definition evaluator_run_round_function_with_byte_len ::
  "bool \<Rightarrow> evaluator \<Rightarrow> usize \<Rightarrow> bool \<Rightarrow> evaluator" where
  "evaluator_run_round_function_with_byte_len reduced_rounds self input_size_bytes last_round =
    (let self = self\<lparr>ev_t := ev_t self + ucast input_size_bytes\<rparr>;
         extended_state = extended_state_of (ev_state self) (ev_t self XOR IV ! 4)
           ((0xffffffff * of_bool last_round) XOR IV ! 6);
         extended_state = run_rounds reduced_rounds extended_state (ev_input_buffer self)
     in self\<lparr>ev_state := xor_halves (ev_state self) extended_state\<rparr>)"

definition evaluator_run_round_function ::
  "bool \<Rightarrow> evaluator \<Rightarrow> usize \<Rightarrow> bool \<Rightarrow> evaluator" where
  "evaluator_run_round_function reduced_rounds self input_size_words last_round =
    evaluator_run_round_function_with_byte_len reduced_rounds self (input_size_words * 4) last_round"

definition compress_node :: "bool \<Rightarrow> evaluator \<Rightarrow> bool \<Rightarrow> evaluator" where
  "compress_node reduced_rounds self is_right =
    (let extended_state = extended_state_of CONFIGURED_IV (BLAKE2S_BLOCK_SIZE_BYTES XOR IV ! 4)
           (0xffffffff XOR IV ! 6);
         input = (if is_right then take 8 (ev_input_buffer self) @ ev_state self
                  else ev_state self @ take 8 (ev_input_buffer self));
         extended_state = run_rounds reduced_rounds extended_state input
     in self\<lparr>ev_state := xor_halves CONFIGURED_IV extended_state\<rparr>)"

section \<open>Shapes\<close>

definition blake2s_wf :: "blake2s_state \<Rightarrow> bool" where
  "blake2s_wf s \<longleftrightarrow> length (bs_state s) = 8 \<and> length (bs_input_buffer s) = 16"

definition evaluator_wf :: "evaluator \<Rightarrow> bool" where
  "evaluator_wf s \<longleftrightarrow> length (ev_state s) = 8 \<and> length (ev_extended_state s) = 16 \<and>
    length (ev_input_buffer s) = 16"

lemma length_IV [simp]: "length IV = 8" "length CONFIGURED_IV = 8"
  by (simp_all add: IV_def CONFIGURED_IV_def)

lemma length_SIGMAS [simp]: "length SIGMAS = 10"
  by (simp add: SIGMAS_def)

lemma length_g_function [simp]: "length (g_function v a b c d x y) = length v"
  by (simp add: g_function_def Let_def)

lemma length_mixing_function [simp]: "length (mixing_function v m s) = length v"
  by (simp add: mixing_function_def Let_def)

lemma length_fold_mixing [simp]:
  "length (fold (\<lambda>i v. mixing_function v m (SIGMAS ! i)) is v) = length v"
  by (induction "is" arbitrary: v) simp_all

lemma length_extended_state_of [simp]: "length (extended_state_of h a b) = 16"
  by (simp add: extended_state_of_def)

lemma length_xor_halves [simp]: "length (xor_halves h e) = 8"
  by (simp add: xor_halves_def)

section \<open>One compression function\<close>

text \<open>
  The compression function of BLAKE2s with a byte counter below \<open>2 ^ 32\<close>, and the hash of a sequence
  of full blocks followed by a last block holding \<open>len\<close> bytes.
\<close>

definition blake2s_F :: "bool \<Rightarrow> u32 list \<Rightarrow> u32 list \<Rightarrow> u32 \<Rightarrow> bool \<Rightarrow> u32 list" where
  "blake2s_F rr h m t fin =
    xor_halves h (run_rounds rr (extended_state_of h (IV ! 4 XOR t)
      (if fin then NOT (IV ! 6) else IV ! 6)) m)"

fun blake2s_blocks :: "bool \<Rightarrow> u32 list \<Rightarrow> u32 \<Rightarrow> u32 list list \<Rightarrow> u32 list" where
  "blake2s_blocks rr h t [] = h"
| "blake2s_blocks rr h t (b # bs) = blake2s_blocks rr (blake2s_F rr h b (t + 64) False) (t + 64) bs"

definition blake2s_hash :: "bool \<Rightarrow> u32 list list \<Rightarrow> u32 list \<Rightarrow> u32 \<Rightarrow> u32 list" where
  "blake2s_hash rr blocks b len =
    blake2s_F rr (blake2s_blocks rr CONFIGURED_IV 0 blocks) b (64 * of_nat (length blocks) + len) True"

lemma all_ones_xor [simp]: "(0xffffffff :: u32) XOR x = NOT x" "x XOR (0xffffffff :: u32) = NOT x"
proof -
  have "(0xffffffff :: u32) = - 1" by simp
  then show "(0xffffffff :: u32) XOR x = NOT x" "x XOR (0xffffffff :: u32) = NOT x"
    by (simp_all only: bit.xor_one_left bit.xor_one_right)
qed

lemma absorb_F:
  "absorb rr s b = s\<lparr>bs_state := blake2s_F rr (bs_state s) b (bs_t s + 64) False, bs_t := bs_t s + 64\<rparr>"
  by (simp add: absorb_def blake2s_F_def Let_def BLAKE2S_BLOCK_SIZE_BYTES_def xor.commute)

lemma fold_absorb:
  "fold (\<lambda>b s. absorb rr s b) bs s =
    s\<lparr>bs_state := blake2s_blocks rr (bs_state s) (bs_t s) bs, bs_t := bs_t s + 64 * of_nat (length bs)\<rparr>"
  by (induction bs arbitrary: s) (simp_all add: absorb_F algebra_simps)

lemma absorb_final_block_F:
  "absorb_final_block rr s b len =
    (s\<lparr>bs_t := bs_t s + ucast (len * 4)\<rparr>, blake2s_F rr (bs_state s) b (bs_t s + ucast (len * 4)) True)"
  by (simp add: absorb_final_block_def blake2s_F_def Let_def xor.commute)

lemma run_round_function_F:
  "run_round_function_with_byte_len rr s n fin =
    s\<lparr>bs_state := blake2s_F rr (bs_state s) (bs_input_buffer s) (bs_t s + ucast n) fin, bs_t := bs_t s + ucast n\<rparr>"
  by (simp add: run_round_function_with_byte_len_def blake2s_F_def Let_def xor.commute)

lemma evaluator_round_F:
  "evaluator_run_round_function_with_byte_len rr e n fin =
    e\<lparr>ev_state := blake2s_F rr (ev_state e) (ev_input_buffer e) (ev_t e + ucast n) fin, ev_t := ev_t e + ucast n\<rparr>"
  by (simp add: evaluator_run_round_function_with_byte_len_def blake2s_F_def Let_def xor.commute)

lemma evaluator_input_F:
  "run_round_function_with_input_and_byte_len rr e inp n fin =
    e\<lparr>ev_state := blake2s_F rr (ev_state e) inp (ev_t e + ucast n) fin, ev_t := ev_t e + ucast n\<rparr>"
  by (simp add: run_round_function_with_input_and_byte_len_def blake2s_F_def Let_def xor.commute)

lemma single_round_F:
  "bs_state s = CONFIGURED_IV \<Longrightarrow>
   spec_run_single_round_into_destination rr s len = blake2s_F rr CONFIGURED_IV (bs_input_buffer s) (ucast (len * 4)) True"
  by (simp add: spec_run_single_round_into_destination_def blake2s_F_def Let_def xor.commute)

lemma compress_two_to_one_F: "compress_two_to_one rr m = blake2s_F rr CONFIGURED_IV m 64 True"
  by (simp add: compress_two_to_one_def blake2s_F_def Let_def BLAKE2S_BLOCK_SIZE_BYTES_def xor.commute)

lemma compress_node_F:
  "compress_node rr e is_right = e\<lparr>ev_state := blake2s_F rr CONFIGURED_IV
     (if is_right then take 8 (ev_input_buffer e) @ ev_state e else ev_state e @ take 8 (ev_input_buffer e)) 64 True\<rparr>"
  by (simp add: compress_node_def blake2s_F_def Let_def BLAKE2S_BLOCK_SIZE_BYTES_def xor.commute)

lemma run_round_function_block [simp]:
  "bs_state (run_round_function rr s n fin) = blake2s_F rr (bs_state s) (bs_input_buffer s) (bs_t s + ucast (n * 4)) fin"
  "bs_t (run_round_function rr s n fin) = bs_t s + ucast (n * 4)"
  by (simp_all add: run_round_function_def run_round_function_F)

lemma evaluator_input_block [simp]:
  "ev_state (run_round_function_with_input rr e b n fin) = blake2s_F rr (ev_state e) b (ev_t e + ucast (n * 4)) fin"
  "ev_t (run_round_function_with_input rr e b n fin) = ev_t e + ucast (n * 4)"
  by (simp_all add: run_round_function_with_input_def evaluator_input_F)

lemma fold_run_round_function:
  "bs_state (fold (\<lambda>b s. run_round_function rr (s\<lparr>bs_input_buffer := b\<rparr>) 16 False) bs s)
     = blake2s_blocks rr (bs_state s) (bs_t s) bs"
  "bs_t (fold (\<lambda>b s. run_round_function rr (s\<lparr>bs_input_buffer := b\<rparr>) 16 False) bs s)
     = bs_t s + 64 * of_nat (length bs)"
  by (induction bs arbitrary: s) (simp_all add: distrib_left add.assoc)

lemma fold_evaluator_round:
  "ev_state (fold (\<lambda>b e. run_round_function_with_input rr e b 16 False) bs e)
     = blake2s_blocks rr (ev_state e) (ev_t e) bs"
  "ev_t (fold (\<lambda>b e. run_round_function_with_input rr e b 16 False) bs e) = ev_t e + 64 * of_nat (length bs)"
  by (induction bs arbitrary: e) (simp_all add: distrib_left add.assoc)


end
