(* ===== verification/State.thy ===== *)
theory State
  imports Mmu NonDet
begin

text \<open>
  Machine states: the registers both machines share, the state of the first machine with its trap
  registers (\<open>cycle/state.rs\<close>), and the state of the unrolled machine (\<open>cycle/state_new.rs\<close>).  The
  structures that bundle a state with its memory, tracer, MMU and source of non-determinism are
  records; the traits they are generic over are passed as records of functions.
\<close>

section \<open>Registers\<close>

record observable_state =
  registers :: "u32 list"
  obs_pc :: u32

definition NUM_REGISTERS :: nat where "NUM_REGISTERS = 32"

text \<open>\<open>[u32; NUM_REGISTERS]\<close> with \<open>x0\<close> reading as zero.\<close>

definition regs_wf :: "u32 list \<Rightarrow> bool" where
  "regs_wf r \<longleftrightarrow> length r = NUM_REGISTERS \<and> r ! 0 = 0"

section \<open>First machine\<close>

record trap_state_registers =
  status :: u32
  ie :: u32
  ip :: u32

record trap_setup_registers =
  tvec :: u32

record trap_handling_registers =
  scratch :: u32
  epc :: u32
  cause :: u32
  tval :: u32

record mode_status_and_trap_registers =
  trap_state :: trap_state_registers
  trap_setup :: trap_setup_registers
  trap_handling :: trap_handling_registers

text \<open>\<open>ExtraFlags\<close> is a wrapper around a word.\<close>

definition WAIT_FOR_INTERRUPT_BIT :: nat where "WAIT_FOR_INTERRUPT_BIT = 2"

definition get_current_mode :: "u32 \<Rightarrow> mode option" where
  "get_current_mode flags = Mode_from_proper_bit_value (get_bits_and_align_right flags 0 2)"

definition set_mode :: "u32 \<Rightarrow> mode \<Rightarrow> u32" where
  "set_mode flags mode = (flags AND NOT 3) OR Mode_as_register_value mode"

definition set_mode_raw :: "u32 \<Rightarrow> u32 \<Rightarrow> u32" where
  "set_mode_raw flags mode_bits = (flags AND NOT 3) OR mode_bits"

definition get_wait_for_interrupt :: "u32 \<Rightarrow> u32" where
  "get_wait_for_interrupt flags = get_bit_unaligned flags WAIT_FOR_INTERRUPT_BIT"

definition set_wait_for_interrupt_bit :: "u32 \<Rightarrow> u32" where
  "set_wait_for_interrupt_bit flags = set_bit_u32 flags WAIT_FOR_INTERRUPT_BIT"

definition clear_wait_for_interrupt_bit :: "u32 \<Rightarrow> u32" where
  "clear_wait_for_interrupt_bit flags = clear_bit flags WAIT_FOR_INTERRUPT_BIT"

record riscv32_state =
  observable :: observable_state
  extra_flags :: u32
  timer :: u64
  timer_match :: u64
  machine_mode_trap_data :: mode_status_and_trap_registers
  sapt :: u32

definition RiscV32State_initial :: "u32 \<Rightarrow> riscv32_state" where
  "RiscV32State_initial initial_pc = \<lparr>
     observable = \<lparr>registers = replicate NUM_REGISTERS 0, obs_pc = initial_pc\<rparr>,
     extra_flags = set_mode 0 Machine,
     timer = 0,
     timer_match = - 1,
     machine_mode_trap_data = \<lparr>
       trap_state = \<lparr>status = 0, ie = 0, ip = 0\<rparr>,
       trap_setup = \<lparr>tvec = 0\<rparr>,
       trap_handling = \<lparr>scratch = 0, epc = 0, cause = 0, tval = 0\<rparr>\<rparr>,
     sapt = 0\<rparr>"

record ('m, 'mmu, 'nd) machine_v1 =
  v1_state :: riscv32_state
  v1_memory :: 'm
  v1_tracer :: "riscv32_state trace"
  v1_mmu :: 'mmu
  v1_nd :: 'nd

definition with_nd :: "u32 \<Rightarrow> 'nd \<Rightarrow> (vector_memory, no_mmu, 'nd) machine_v1 option" where
  "with_nd entry_point non_determinism_source = do {
     let st = RiscV32State_initial entry_point;
     memory \<leftarrow> new_for_byte_size (push_bit 30 1);
     Some \<lparr>v1_state = st, v1_memory = memory, v1_tracer = [],
       v1_mmu = \<lparr>no_mmu_sapt = sapt st\<rparr>, v1_nd = non_determinism_source\<rparr> }"

text \<open>The type parameters of the generic functions.\<close>

record ('m, 'mmu, 'nd) v1_impls =
  i_conf :: machine_config
  i_ms :: "'m memory_source"
  i_mmu :: "('m, riscv32_state, 'mmu) mmu_impl"
  i_nd :: "('m, 'nd) nd_source"

abbreviation regs_of :: "('m, 'mmu, 'nd) machine_v1 \<Rightarrow> u32 list" where
  "regs_of w \<equiv> registers (observable (v1_state w))"

abbreviation pc_of :: "('m, 'mmu, 'nd) machine_v1 \<Rightarrow> u32" where
  "pc_of w \<equiv> obs_pc (observable (v1_state w))"

definition trace_event_v1 ::
  "riscv32_state trace_event \<Rightarrow> ('m, 'mmu, 'nd) machine_v1 \<Rightarrow> ('m, 'mmu, 'nd) machine_v1" where
  "trace_event_v1 e w = w\<lparr>v1_tracer := v1_tracer w @ [e]\<rparr>"

definition put_regs :: "u32 list \<Rightarrow> ('m, 'mmu, 'nd) machine_v1 \<Rightarrow> ('m, 'mmu, 'nd) machine_v1" where
  "put_regs r w = w\<lparr>v1_state := (v1_state w)\<lparr>observable := (observable (v1_state w))\<lparr>registers := r\<rparr>\<rparr>\<rparr>"

definition put_pc :: "u32 \<Rightarrow> ('m, 'mmu, 'nd) machine_v1 \<Rightarrow> ('m, 'mmu, 'nd) machine_v1" where
  "put_pc p w = w\<lparr>v1_state := (v1_state w)\<lparr>observable := (observable (v1_state w))\<lparr>obs_pc := p\<rparr>\<rparr>\<rparr>"

definition get_first_register ::
  "u32 \<Rightarrow> ('m, 'mmu, 'nd) machine_v1 \<Rightarrow> u32 \<times> ('m, 'mmu, 'nd) machine_v1" where
  "get_first_register reg_idx w =
    (let res = regs_of w ! unat reg_idx in (res, trace_event_v1 (Rs1Read reg_idx res) w))"

definition get_second_register ::
  "u32 \<Rightarrow> ('m, 'mmu, 'nd) machine_v1 \<Rightarrow> u32 \<times> ('m, 'mmu, 'nd) machine_v1" where
  "get_second_register reg_idx w =
    (let res = regs_of w ! unat reg_idx in (res, trace_event_v1 (Rs2Read reg_idx res) w))"

definition set_register ::
  "u32 \<Rightarrow> u32 \<Rightarrow> ('m, 'mmu, 'nd) machine_v1 \<Rightarrow> ('m, 'mmu, 'nd) machine_v1" where
  "set_register reg_idx value w =
    (let value = (if reg_idx = 0 then 0 else value);
         read_value = regs_of w ! unat reg_idx
     in trace_event_v1 (RdWrite reg_idx read_value value)
          (put_regs ((regs_of w)[unat reg_idx := value]) w))"

section \<open>Unrolled machine\<close>

record unrolled_state =
  u_observable :: observable_state

definition Unrolled_initial :: "u32 \<Rightarrow> unrolled_state" where
  "Unrolled_initial initial_pc =
     \<lparr>u_observable = \<lparr>registers = replicate NUM_REGISTERS 0, obs_pc = initial_pc\<rparr>\<rparr>"

record ('m, 'nd) machine_unrolled =
  u_state :: unrolled_state
  u_memory :: 'm
  u_tracer :: "unrolled_state trace"
  u_nd :: 'nd

text \<open>\<open>Riscv32MachineProverUnrolled::new\<close>; the CSR processor has no state.\<close>

definition Unrolled_new ::
  "u32 \<Rightarrow> 'm \<Rightarrow> unrolled_state trace \<Rightarrow> 'nd \<Rightarrow> ('m, 'nd) machine_unrolled" where
  "Unrolled_new entry_point memory_source memory_tracer non_determinism_source =
     \<lparr>u_state = Unrolled_initial entry_point, u_memory = memory_source, u_tracer = memory_tracer,
      u_nd = non_determinism_source\<rparr>"

abbreviation uregs_of :: "('m, 'nd) machine_unrolled \<Rightarrow> u32 list" where
  "uregs_of u \<equiv> registers (u_observable (u_state u))"

abbreviation upc_of :: "('m, 'nd) machine_unrolled \<Rightarrow> u32" where
  "upc_of u \<equiv> obs_pc (u_observable (u_state u))"

definition trace_event_u ::
  "unrolled_state trace_event \<Rightarrow> ('m, 'nd) machine_unrolled \<Rightarrow> ('m, 'nd) machine_unrolled" where
  "trace_event_u e u = u\<lparr>u_tracer := u_tracer u @ [e]\<rparr>"

definition uput_regs :: "u32 list \<Rightarrow> ('m, 'nd) machine_unrolled \<Rightarrow> ('m, 'nd) machine_unrolled" where
  "uput_regs r u = u\<lparr>u_state := (u_state u)\<lparr>u_observable := (u_observable (u_state u))\<lparr>registers := r\<rparr>\<rparr>\<rparr>"

definition uput_pc :: "u32 \<Rightarrow> ('m, 'nd) machine_unrolled \<Rightarrow> ('m, 'nd) machine_unrolled" where
  "uput_pc p u = u\<lparr>u_state := (u_state u)\<lparr>u_observable := (u_observable (u_state u))\<lparr>obs_pc := p\<rparr>\<rparr>\<rparr>"

definition get_register :: "u32 \<Rightarrow> ('m, 'nd) machine_unrolled \<Rightarrow> u32" where
  "get_register reg_idx u = uregs_of u ! unat reg_idx"

text \<open>The result is the machine and the value overwritten.\<close>

definition set_register_u ::
  "u32 \<Rightarrow> u32 \<Rightarrow> ('m, 'nd) machine_unrolled \<Rightarrow> u32 \<times> ('m, 'nd) machine_unrolled" where
  "set_register_u reg_idx value u =
    (let value = (if reg_idx = 0 then 0 else value);
         existing = uregs_of u ! unat reg_idx
     in (existing, uput_regs ((uregs_of u)[unat reg_idx := value]) u))"

end
