(* ===== verification/Delegations.thy ===== *)
theory Delegations
  imports State Blake2s
begin

text \<open>
  The delegated computations (\<open>delegations/\<close>): the BLAKE2s round function and 256-bit integer
  arithmetic, triggered by writes to custom CSRs.  Each exists twice, for the first machine
  (accesses that panic on a fault) and for the unrolled machine (accesses that ignore faults); both
  share the pure computations \<open>blake2_round_compute\<close> and \<open>u256_ops_compute\<close>.

  The 256-bit integers come from the crate \<open>ruint\<close>, which is not part of the repository: the record
  \<open>u256_lib\<close> holds the operations the sources call, and the locale \<open>ruint\<close> of
  the theory \<open>U256\<close> their documented meaning.
\<close>

section \<open>Block accesses\<close>

fun register_indirect_read_continuous ::
  "'m memory_source \<Rightarrow> nat \<Rightarrow> usize \<Rightarrow> 'm \<Rightarrow> u32 list option" where
  "register_indirect_read_continuous ms 0 address m = Some []"
| "register_indirect_read_continuous ms (Suc n) address m = do {
     (read_value, trap) \<leftarrow> ms_get ms m address RegWrite NoTrap;
     rust_assert (\<not> is_a_trap trap);
     result \<leftarrow> register_indirect_read_continuous ms n (address + 4) m;
     Some (read_value # result) }"

fun register_indirect_read_write_continuous ::
  "'m memory_source \<Rightarrow> nat \<Rightarrow> usize \<Rightarrow> 'm \<Rightarrow> u32 list option" where
  "register_indirect_read_write_continuous ms 0 address m = Some []"
| "register_indirect_read_write_continuous ms (Suc n) address m = do {
     (read_value, trap) \<leftarrow> ms_get ms m address RegWrite NoTrap;
     rust_assert (\<not> is_a_trap trap);
     result \<leftarrow> register_indirect_read_write_continuous ms n (address + 4) m;
     Some (read_value # result) }"

fun write_indirect_accesses :: "'m memory_source \<Rightarrow> usize \<Rightarrow> u32 list \<Rightarrow> 'm \<Rightarrow> 'm option" where
  "write_indirect_accesses ms address [] m = Some m"
| "write_indirect_accesses ms address (write_value # accesses) m = do {
     (m, trap) \<leftarrow> ms_set ms m address write_value RegWrite NoTrap;
     rust_assert (\<not> is_a_trap trap);
     write_indirect_accesses ms (address + 4) accesses m }"

fun register_indirect_read_continuous_noexcept ::
  "'m memory_source \<Rightarrow> nat \<Rightarrow> usize \<Rightarrow> 'm \<Rightarrow> u32 list option" where
  "register_indirect_read_continuous_noexcept ms 0 address m = Some []"
| "register_indirect_read_continuous_noexcept ms (Suc n) address m = do {
     read_value \<leftarrow> get_noexcept ms m address;
     result \<leftarrow> register_indirect_read_continuous_noexcept ms n (address + 4) m;
     Some (read_value # result) }"

fun register_indirect_read_write_continuous_noexcept ::
  "'m memory_source \<Rightarrow> nat \<Rightarrow> usize \<Rightarrow> 'm \<Rightarrow> u32 list option" where
  "register_indirect_read_write_continuous_noexcept ms 0 address m = Some []"
| "register_indirect_read_write_continuous_noexcept ms (Suc n) address m = do {
     read_value \<leftarrow> get_noexcept ms m address;
     result \<leftarrow> register_indirect_read_write_continuous_noexcept ms n (address + 4) m;
     Some (read_value # result) }"

fun write_indirect_accesses_noexcept ::
  "'m memory_source \<Rightarrow> usize \<Rightarrow> u32 list \<Rightarrow> 'm \<Rightarrow> 'm option" where
  "write_indirect_accesses_noexcept ms address [] m = Some m"
| "write_indirect_accesses_noexcept ms address (write_value # accesses) m = do {
     m \<leftarrow> set_noexcept ms m address write_value;
     write_indirect_accesses_noexcept ms (address + 4) accesses m }"

section \<open>Words\<close>

definition count_ones :: "u32 \<Rightarrow> nat" where
  "count_ones w = length (filter (bit w) [0..<32])"

definition is_power_of_two :: "u32 \<Rightarrow> bool" where
  "is_power_of_two w \<longleftrightarrow> count_ones w = 1"

definition trailing_zeros :: "u32 \<Rightarrow> nat" where
  "trailing_zeros w = length (takeWhile (\<lambda>i. \<not> bit w i) [0..<32])"

text \<open>The addresses recorded for the tracer.\<close>

definition word_addresses :: "u32 \<Rightarrow> nat \<Rightarrow> u32 list" where
  "word_addresses base n = map (\<lambda>i. base + of_nat (4 * i)) [0..<n]"

section \<open>The BLAKE2s round function\<close>

definition X10_NUM_WRITES :: nat where "X10_NUM_WRITES = 8 + 16"
definition X11_NUM_READS :: nat where "X11_NUM_READS = 16"

text \<open>From the accesses read to the state and extended state written back.\<close>

definition blake2_round_compute ::
  "u32 list \<Rightarrow> u32 list \<Rightarrow> u32 list \<Rightarrow> u32 \<Rightarrow> u32 \<Rightarrow> (u32 list \<times> u32 list) option" where
  "blake2_round_compute state extended_state input permutation_bitmask control_register = do {
     let mode_compression =
       control_register AND TEST_IF_COMPRESSION_MODE_MASK = TEST_IF_COMPRESSION_MODE_MASK;
     let last_round = control_register AND TEST_IF_LAST_ROUND_MASK = TEST_IF_LAST_ROUND_MASK;
     let compression_mode_node_is_right =
       control_register AND TEST_IF_INPUT_IS_RIGHT_NODE_MASK = TEST_IF_INPUT_IS_RIGHT_NODE_MASK;
     rust_assert (is_power_of_two permutation_bitmask);
     let permutation_index = trailing_zeros permutation_bitmask;
     sigma \<leftarrow> idx SIGMAS permutation_index;
     let extended_state =
       (if mode_compression then
          let extended_state =
            (if permutation_index = 0 then
               let e = fold (\<lambda>i e. e[i := CONFIGURED_IV ! i, i + 8 := IV ! i]) [0..<8] extended_state;
                   e = e[12 := e ! 12 XOR BLAKE2S_BLOCK_SIZE_BYTES]
               in e[14 := e ! 14 XOR 0xffffffff]
             else extended_state);
            buffer = (if compression_mode_node_is_right then take 8 input @ state
                      else state @ take 8 input)
          in mixing_function extended_state buffer sigma
        else
          let extended_state =
            (if permutation_index = 0 then
               (fold (\<lambda>i e. e[i := state ! i]) [0..<8] extended_state)
                 [8 := IV ! 0, 9 := IV ! 1, 10 := IV ! 2, 11 := IV ! 3, 13 := IV ! 5, 15 := IV ! 7]
             else extended_state)
          in mixing_function extended_state input sigma);
     let state =
       (if last_round then
          let state = (if mode_compression then CONFIGURED_IV else state)
          in map (\<lambda>i. state ! i XOR (extended_state ! i XOR extended_state ! (i + 8))) [0..<8]
        else state);
     Some (state, extended_state) }"

definition blake2_round_function_with_extended_control ::
  "'m memory_source \<Rightarrow> u32 \<Rightarrow> ('m, 'mmu, 'nd) machine_v1 \<Rightarrow> ('m, 'mmu, 'nd) machine_v1 option" where
  "blake2_round_function_with_extended_control ms rs1_value w = do {
     rust_assert (rs1_value = 0);
     let x10 = regs_of w ! 10;
     let x11 = regs_of w ! 11;
     let x12 = regs_of w ! 12;
     let x13 = regs_of w ! 13;
     rust_assert (x10 mod 128 = 0);
     rust_assert (x11 mod 4 = 0);
     rust_assert (push_bit 21 1 \<le> x10);
     rust_assert (push_bit 21 1 \<le> x11);
     rust_assert (x10 \<noteq> x11);
     state_accesses \<leftarrow> register_indirect_read_write_continuous ms X10_NUM_WRITES (ucast x10) (v1_memory w);
     input_accesses \<leftarrow> register_indirect_read_continuous ms X11_NUM_READS (ucast x11) (v1_memory w);
     (state, extended_state) \<leftarrow>
       blake2_round_compute (take 8 state_accesses) (drop 8 state_accesses) input_accesses x12 x13;
     m \<leftarrow> write_indirect_accesses ms (ucast x10) (state @ extended_state) (v1_memory w);
     Some (trace_event_v1
       (RecordDelegation BLAKE2_ROUND_FUNCTION_WITH_EXTENDED_CONTROL_ACCESS_ID 10
          [(x10, x10), (x11, x11), (x12, x12), (x13, x13)]
          (word_addresses x11 X11_NUM_READS) input_accesses
          (word_addresses x10 X10_NUM_WRITES) (zip state_accesses (state @ extended_state)))
       (w\<lparr>v1_memory := m\<rparr>)) }"

definition blake2_round_function_with_extended_control_over_unrolled_state ::
  "'m memory_source \<Rightarrow> ('m, 'nd) machine_unrolled \<Rightarrow> ('m, 'nd) machine_unrolled option" where
  "blake2_round_function_with_extended_control_over_unrolled_state ms u = do {
     let x10 = uregs_of u ! 10;
     let x11 = uregs_of u ! 11;
     let x12 = uregs_of u ! 12;
     let x13 = uregs_of u ! 13;
     rust_assert (x10 mod 128 = 0);
     rust_assert (x11 mod 4 = 0);
     rust_assert (push_bit 21 1 \<le> x10);
     rust_assert (push_bit 21 1 \<le> x11);
     rust_assert (x10 \<noteq> x11);
     state_accesses \<leftarrow>
       register_indirect_read_write_continuous_noexcept ms X10_NUM_WRITES (ucast x10) (u_memory u);
     input_accesses \<leftarrow>
       register_indirect_read_continuous_noexcept ms X11_NUM_READS (ucast x11) (u_memory u);
     (state, extended_state) \<leftarrow>
       blake2_round_compute (take 8 state_accesses) (drop 8 state_accesses) input_accesses x12 x13;
     m \<leftarrow> write_indirect_accesses_noexcept ms (ucast x10) (state @ extended_state) (u_memory u);
     Some (trace_event_u
       (RecordDelegation BLAKE2_ROUND_FUNCTION_WITH_EXTENDED_CONTROL_ACCESS_ID 10
          [(x10, x10), (x11, x11), (x12, x12), (x13, x13)]
          (word_addresses x11 X11_NUM_READS) input_accesses
          (word_addresses x10 X10_NUM_WRITES) (zip state_accesses (state @ extended_state)))
       (u\<lparr>u_memory := m\<rparr>)) }"

section \<open>256-bit integers\<close>

record 'u u256_lib =
  from_limbs :: "u64 list \<Rightarrow> 'u"
  as_limbs :: "'u \<Rightarrow> u64 list"
  u256_from_u64 :: "u64 \<Rightarrow> 'u"
  overflowing_add :: "'u \<Rightarrow> 'u \<Rightarrow> 'u \<times> bool"
  overflowing_sub :: "'u \<Rightarrow> 'u \<Rightarrow> 'u \<times> bool"
  widening_mul :: "'u \<Rightarrow> 'u \<Rightarrow> u64 list"
  u256_eq :: "'u \<Rightarrow> 'u \<Rightarrow> bool"

definition NUM_CONTROL_BITS :: nat where "NUM_CONTROL_BITS = 8"
definition ADD_OP_BIT_IDX :: nat where "ADD_OP_BIT_IDX = 0"
definition SUB_OP_BIT_IDX :: nat where "SUB_OP_BIT_IDX = 1"
definition SUB_AND_NEGATE_OP_BIT_IDX :: nat where "SUB_AND_NEGATE_OP_BIT_IDX = 2"
definition MUL_LOW_OP_BIT_IDX :: nat where "MUL_LOW_OP_BIT_IDX = 3"
definition MUL_HIGH_OP_BIT_IDX :: nat where "MUL_HIGH_OP_BIT_IDX = 4"
definition EQ_OP_BIT_IDX :: nat where "EQ_OP_BIT_IDX = 5"
definition CARRY_BIT_IDX :: nat where "CARRY_BIT_IDX = 6"
definition MEMCOPY_BIT_IDX :: nat where "MEMCOPY_BIT_IDX = 7"

lemmas u256_bits = NUM_CONTROL_BITS_def ADD_OP_BIT_IDX_def SUB_OP_BIT_IDX_def
  SUB_AND_NEGATE_OP_BIT_IDX_def MUL_LOW_OP_BIT_IDX_def MUL_HIGH_OP_BIT_IDX_def EQ_OP_BIT_IDX_def
  CARRY_BIT_IDX_def MEMCOPY_BIT_IDX_def

fun limbs_of_words :: "u32 list \<Rightarrow> u64 list" where
  "limbs_of_words (l # h # words) = (push_bit 32 (ucast h) OR ucast l) # limbs_of_words words"
| "limbs_of_words _ = []"

definition make_u256 :: "'u u256_lib \<Rightarrow> u32 list \<Rightarrow> 'u" where
  "make_u256 R words = from_limbs R (limbs_of_words words)"

definition words_of_limbs :: "u64 list \<Rightarrow> u32 list" where
  "words_of_limbs limbs = concat (map (\<lambda>src. [ucast src, ucast (drop_bit 32 src)]) limbs)"

definition control_bit :: "u32 \<Rightarrow> nat \<Rightarrow> bool" where
  "control_bit control_mask i \<longleftrightarrow> control_mask AND push_bit i 1 \<noteq> 0"

definition u256_ops_compute :: "'u u256_lib \<Rightarrow> 'u \<Rightarrow> 'u \<Rightarrow> u32 \<Rightarrow> ('u \<times> bool) option" where
  "u256_ops_compute R a b control_mask = do {
     rust_assert (control_mask < push_bit NUM_CONTROL_BITS 1);
     rust_assert (count_ones (control_mask AND NOT (push_bit CARRY_BIT_IDX 1)) = 1);
     let carry_bit = control_bit control_mask CARRY_BIT_IDX;
     let carry_or_borrow = u256_from_u64 R (of_bool carry_bit);
     if control_bit control_mask ADD_OP_BIT_IDX then
       let (t, of0) = overflowing_add R a b;
           (t, of1) = overflowing_add R t carry_or_borrow
       in Some (t, of0 \<or> of1)
     else if control_bit control_mask SUB_OP_BIT_IDX then
       let (t, of0) = overflowing_sub R a b;
           (t, of1) = overflowing_sub R t carry_or_borrow
       in Some (t, of0 \<or> of1)
     else if control_bit control_mask SUB_AND_NEGATE_OP_BIT_IDX then
       let (t, of0) = overflowing_sub R b a;
           (t, of1) = overflowing_sub R t carry_or_borrow
       in Some (t, of0 \<or> of1)
     else if control_bit control_mask MUL_LOW_OP_BIT_IDX then
       let t = widening_mul R a b
       in Some (from_limbs R (take 4 t), \<exists>el \<in> set (drop 4 t). el \<noteq> 0)
     else if control_bit control_mask MUL_HIGH_OP_BIT_IDX then
       let t = widening_mul R a b
       in Some (from_limbs R (take 4 (drop 4 t)), False)
     else if control_bit control_mask EQ_OP_BIT_IDX then Some (a, u256_eq R a b)
     else if control_bit control_mask MEMCOPY_BIT_IDX then
       (if carry_bit then Some (overflowing_add R b carry_or_borrow) else Some (b, False))
     else panic }"

definition u256_ops_with_control_impl ::
  "'u u256_lib \<Rightarrow> 'm memory_source \<Rightarrow> u32 \<Rightarrow> ('m, 'mmu, 'nd) machine_v1
   \<Rightarrow> ('m, 'mmu, 'nd) machine_v1 option" where
  "u256_ops_with_control_impl R ms rs1_value w = do {
     rust_assert (rs1_value = 0);
     let x10 = regs_of w ! 10;
     let x11 = regs_of w ! 11;
     let x12 = regs_of w ! 12;
     rust_assert (x10 mod 32 = 0);
     rust_assert (x11 mod 32 = 0);
     rust_assert (push_bit 21 1 \<le> x10);
     rust_assert (push_bit 21 1 \<le> x11);
     rust_assert (x10 \<noteq> x11);
     a_accesses \<leftarrow> register_indirect_read_write_continuous ms 8 (ucast x10) (v1_memory w);
     b_accesses \<leftarrow> register_indirect_read_continuous ms 8 (ucast x11) (v1_memory w);
     let a = make_u256 R a_accesses;
     let b = make_u256 R b_accesses;
     (result, overflow) \<leftarrow> u256_ops_compute R a b x12;
     let written = words_of_limbs (as_limbs R result);
     m \<leftarrow> write_indirect_accesses ms (ucast x10) written (v1_memory w);
     let w = put_regs ((regs_of w)[12 := of_bool overflow]) (w\<lparr>v1_memory := m\<rparr>);
     Some (trace_event_v1
       (RecordDelegation U256_OPS_WITH_CONTROL_ACCESS_ID 10
          [(x10, x10), (x11, x11), (x12, of_bool overflow)]
          (word_addresses x11 8) b_accesses (word_addresses x10 8) (zip a_accesses written)) w) }"

definition u256_ops_with_control_impl_over_unrolled_state ::
  "'u u256_lib \<Rightarrow> 'm memory_source \<Rightarrow> ('m, 'nd) machine_unrolled \<Rightarrow> ('m, 'nd) machine_unrolled option" where
  "u256_ops_with_control_impl_over_unrolled_state R ms u = do {
     let x10 = uregs_of u ! 10;
     let x11 = uregs_of u ! 11;
     let x12 = uregs_of u ! 12;
     rust_assert (x10 mod 32 = 0);
     rust_assert (x11 mod 32 = 0);
     rust_assert (push_bit 21 1 \<le> x10);
     rust_assert (push_bit 21 1 \<le> x11);
     rust_assert (x10 \<noteq> x11);
     a_accesses \<leftarrow> register_indirect_read_write_continuous_noexcept ms 8 (ucast x10) (u_memory u);
     b_accesses \<leftarrow> register_indirect_read_continuous_noexcept ms 8 (ucast x11) (u_memory u);
     let a = make_u256 R a_accesses;
     let b = make_u256 R b_accesses;
     (result, overflow) \<leftarrow> u256_ops_compute R a b x12;
     let written = words_of_limbs (as_limbs R result);
     m \<leftarrow> write_indirect_accesses_noexcept ms (ucast x10) written (u_memory u);
     let u = uput_regs ((uregs_of u)[12 := of_bool overflow]) (u\<lparr>u_memory := m\<rparr>);
     Some (trace_event_u
       (RecordDelegation U256_OPS_WITH_CONTROL_ACCESS_ID 10
          [(x10, x10), (x11, x11), (x12, of_bool overflow)]
          (word_addresses x11 8) b_accesses (word_addresses x10 8) (zip a_accesses written)) u) }"

section \<open>CSR processors\<close>

record ('m, 'mmu, 'nd) csr_processor =
  process_read :: "u32 \<Rightarrow> u32 \<Rightarrow> u32 \<Rightarrow> ('m, 'mmu, 'nd) machine_v1 \<Rightarrow> trap_reason
    \<Rightarrow> (u32 \<times> trap_reason \<times> ('m, 'mmu, 'nd) machine_v1) option"
  process_write :: "u32 \<Rightarrow> u32 \<Rightarrow> u32 \<Rightarrow> ('m, 'mmu, 'nd) machine_v1 \<Rightarrow> trap_reason
    \<Rightarrow> (trap_reason \<times> ('m, 'mmu, 'nd) machine_v1) option"

definition NoExtraCSRs :: "('m, 'mmu, 'nd) csr_processor" where
  "NoExtraCSRs = \<lparr>
     process_read = (\<lambda>csr_index rs1_value zimm w trap. Some (0, IllegalInstruction, w)),
     process_write = (\<lambda>csr_index rs1_value zimm w trap. Some (IllegalInstruction, w))\<rparr>"

definition DelegationsCSRProcessor_process_read ::
  "u32 \<Rightarrow> u32 \<Rightarrow> u32 \<Rightarrow> ('m, 'mmu, 'nd) machine_v1 \<Rightarrow> trap_reason
    \<Rightarrow> (u32 \<times> trap_reason \<times> ('m, 'mmu, 'nd) machine_v1) option" where
  "DelegationsCSRProcessor_process_read csr_index rs1_value zimm w trap =
    (if csr_index = BLAKE2_ROUND_FUNCTION_WITH_EXTENDED_CONTROL_ACCESS_ID then Some (0, trap, w)
     else if csr_index = U256_OPS_WITH_CONTROL_ACCESS_ID then Some (0, trap, w)
     else Some (0, IllegalInstruction, w))"

definition DelegationsCSRProcessor_process_write ::
  "'u u256_lib \<Rightarrow> 'm memory_source \<Rightarrow> u32 \<Rightarrow> u32 \<Rightarrow> u32 \<Rightarrow> ('m, 'mmu, 'nd) machine_v1
    \<Rightarrow> trap_reason \<Rightarrow> (trap_reason \<times> ('m, 'mmu, 'nd) machine_v1) option" where
  "DelegationsCSRProcessor_process_write R ms csr_index rs1_value zimm w trap =
    (if csr_index = BLAKE2_ROUND_FUNCTION_WITH_EXTENDED_CONTROL_ACCESS_ID then do {
       w \<leftarrow> blake2_round_function_with_extended_control ms rs1_value w;
       Some (trap, w) }
     else if csr_index = U256_OPS_WITH_CONTROL_ACCESS_ID then do {
       w \<leftarrow> u256_ops_with_control_impl R ms rs1_value w;
       Some (trap, w) }
     else Some (IllegalInstruction, w))"

definition DelegationsCSRProcessor ::
  "'u u256_lib \<Rightarrow> 'm memory_source \<Rightarrow> ('m, 'mmu, 'nd) csr_processor" where
  "DelegationsCSRProcessor R ms = \<lparr>
     process_read = DelegationsCSRProcessor_process_read,
     process_write = DelegationsCSRProcessor_process_write R ms\<rparr>"

text \<open>The processors of the unrolled machine have a write method only.\<close>

type_synonym ('m, 'nd) delegation_csr_processor =
  "u16 \<Rightarrow> ('m, 'nd) machine_unrolled \<Rightarrow> ('m, 'nd) machine_unrolled option"

definition NoExtraCSRs_unrolled :: "('m, 'nd) delegation_csr_processor" where
  "NoExtraCSRs_unrolled csr_index u = panic"

definition DelegationsCSRProcessor_unrolled ::
  "'u u256_lib \<Rightarrow> 'm memory_source \<Rightarrow> ('m, 'nd) delegation_csr_processor" where
  "DelegationsCSRProcessor_unrolled R ms csr_index u =
    (if ucast csr_index = BLAKE2_ROUND_FUNCTION_WITH_EXTENDED_CONTROL_ACCESS_ID then
       blake2_round_function_with_extended_control_over_unrolled_state ms u
     else if ucast csr_index = U256_OPS_WITH_CONTROL_ACCESS_ID then
       u256_ops_with_control_impl_over_unrolled_state R ms u
     else panic)"

section \<open>Block accesses of the two machines agree\<close>

lemma block_read_write_eq [simp]:
  "register_indirect_read_write_continuous ms n a m = register_indirect_read_continuous ms n a m"
  "register_indirect_read_write_continuous_noexcept ms n a m = register_indirect_read_continuous_noexcept ms n a m"
  by (induction n arbitrary: a) simp_all

context word_memory
begin

lemma get_RegWrite_SomeD:
  assumes "ms_get ms m a RegWrite NoTrap = Some (v, trap)"
  shows "word_at m (unat a div 4) = Some v" "trap = NoTrap"
proof -
  have "word_at m (unat a div 4) \<noteq> None"
    using assms get_out [of m a RegWrite NoTrap] by auto
  then show "word_at m (unat a div 4) = Some v" "trap = NoTrap"
    using assms get_in [of m a _ RegWrite NoTrap] by auto
qed

lemma set_RegWrite_SomeD:
  assumes "ms_set ms m a w RegWrite NoTrap = Some (m', trap)"
  shows "ms_set ms m a w acc NoTrap = Some (m', NoTrap)" "trap = NoTrap"
    "word_at m' = (word_at m)(unat a div 4 \<mapsto> w)" "word_at m (unat a div 4) \<noteq> None"
proof -
  show in_range: "word_at m (unat a div 4) \<noteq> None"
    using assms set_out [of m a w RegWrite NoTrap] by auto
  then obtain m'' where "\<forall>acc trap. ms_set ms m a w acc trap = Some (m'', trap)"
      "word_at m'' = (word_at m)(unat a div 4 \<mapsto> w)"
    using set_in by blast
  then show "ms_set ms m a w acc NoTrap = Some (m', NoTrap)" "trap = NoTrap"
    "word_at m' = (word_at m)(unat a div 4 \<mapsto> w)"
    using assms by auto
qed

lemma block_read_agrees:
  "register_indirect_read_continuous ms n a m = Some vs \<Longrightarrow>
    register_indirect_read_continuous_noexcept ms n a m = Some vs"
proof (induction n arbitrary: a vs)
  case (Suc n)
  then obtain v vs' where v: "ms_get ms m a RegWrite NoTrap = Some (v, NoTrap)"
    and rest: "register_indirect_read_continuous ms n (a + 4) m = Some vs'" and vs: "vs = v # vs'"
    by (auto simp: panic_simps)
  have "get_noexcept ms m a = Some v"
    using get_in [OF get_RegWrite_SomeD(1) [OF v]] by (simp add: get_noexcept_def)
  then show ?case
    using Suc.IH [OF rest] vs by simp
qed simp

lemma block_writes_agree:
  "write_indirect_accesses ms a vs m = Some m' \<Longrightarrow> write_indirect_accesses_noexcept ms a vs m = Some m'"
proof (induction vs arbitrary: a m)
  case (Cons v vs)
  then obtain m1 where m1: "ms_set ms m a v RegWrite NoTrap = Some (m1, NoTrap)"
    and rest: "write_indirect_accesses ms (a + 4) vs m1 = Some m'"
    by (auto simp: panic_simps)
  then show ?case
    using Cons.IH set_RegWrite_SomeD(1) [OF m1, of MemStore] by (simp add: set_noexcept_def)
qed simp

end

end
