(* ===== verification/U256.thy ===== *)
theory U256
  imports Delegations
begin

text \<open>
  The meaning of the 256-bit delegation.  Values of limb and word lists, the documented contract of
  the crate \<open>ruint\<close> as the locale \<open>ruint\<close>, an implementation of it on 256-bit words, and the
  arithmetic the delegation performs on the operands in memory.
\<close>

section \<open>Values of word lists\<close>

fun limbs_val :: "u64 list \<Rightarrow> nat" where
  "limbs_val [] = 0"
| "limbs_val (l # ls) = unat l + 2 ^ 64 * limbs_val ls"

fun words_val :: "u32 list \<Rightarrow> nat" where
  "words_val [] = 0"
| "words_val (w # ws) = unat w + 2 ^ 32 * words_val ws"

lemma unat_limb: "unat (push_bit 32 (ucast (h :: u32)) OR ucast (l :: u32) :: u64) = unat l + 2 ^ 32 * unat h"
proof -
  have "push_bit 32 (ucast h :: u64) OR ucast l = push_bit 32 (ucast h) + ucast l"
    by (rule disjunctive_add [symmetric]) (auto simp: bit_simps)
  moreover have "unat (push_bit 32 (ucast h :: u64)) = 2 ^ 32 * unat h"
    using unsigned_less [where ?'a = nat, of h] by (simp add: push_bit_eq_mult unat_word_ariths)
  ultimately show ?thesis
    using unsigned_less [where ?'a = nat, of h] unsigned_less [where ?'a = nat, of l]
    by (simp add: unat_word_ariths)
qed

lemma limbs_of_words_val: "even (length ws) \<Longrightarrow> limbs_val (limbs_of_words ws) = words_val ws"
  by (induction ws rule: limbs_of_words.induct) (simp_all add: unat_limb)

lemma length_limbs_of_words: "length (limbs_of_words ws) = length ws div 2"
  by (induction ws rule: limbs_of_words.induct) simp_all

lemma words_of_limbs_val: "words_val (words_of_limbs ls) = limbs_val ls"
proof (induction ls)
  case (Cons l ls)
  have "unat (ucast l :: u32) + 2 ^ 32 * unat (ucast (drop_bit 32 l) :: u32) = unat l"
    using unsigned_less [where ?'a = nat, of l]
    by (simp add: unsigned_ucast_eq unsigned_take_bit_eq drop_bit_eq_div unat_div_distrib take_bit_eq_mod div_less_iff_less_mult)
  with Cons show ?case
    by (simp add: words_of_limbs_def)
qed (simp add: words_of_limbs_def)

lemma length_words_of_limbs: "length (words_of_limbs ls) = 2 * length ls"
  by (induction ls) (simp_all add: words_of_limbs_def)

lemma limbs_val_less: "limbs_val ls < 2 ^ (64 * length ls)"
proof (induction ls)
  case (Cons l ls)
  have "unat l < 2 ^ 64" "limbs_val ls + 1 \<le> 2 ^ (64 * length ls)"
    using unsigned_less [where ?'a = nat, of l] Cons by simp_all
  then have "unat l + 2 ^ 64 * limbs_val ls < 2 ^ 64 * (limbs_val ls + 1)" "2 ^ 64 * (limbs_val ls + 1) \<le> 2 ^ 64 * 2 ^ (64 * length ls)"
    by (simp, intro mult_le_mono2)
  then show ?case
    by (simp add: power_add)
qed simp

lemma limbs_val_inj: "length ls = length ls' \<Longrightarrow> limbs_val ls = limbs_val ls' \<Longrightarrow> ls = ls'"
proof (induction ls ls' rule: list_induct2)
  case (Cons l ls l' ls')
  have "unat l < 2 ^ 64" "unat l' < 2 ^ 64"
    using unsigned_less [where ?'a = nat, of l] unsigned_less [where ?'a = nat, of l'] by simp_all
  moreover have "(unat l + 2 ^ 64 * limbs_val ls) mod 2 ^ 64 = (unat l' + 2 ^ 64 * limbs_val ls') mod 2 ^ 64"
    "(unat l + 2 ^ 64 * limbs_val ls) div 2 ^ 64 = (unat l' + 2 ^ 64 * limbs_val ls') div 2 ^ 64"
    using Cons.prems by simp_all
  ultimately show ?case
    using Cons.IH by (simp add: word_unat_eq_iff)
qed simp

lemma limbs_val_append: "limbs_val (xs @ ys) = limbs_val xs + 2 ^ (64 * length xs) * limbs_val ys"
  by (induction xs) (simp_all add: power_add algebra_simps)

section \<open>The contract of ruint\<close>

text \<open>Little-endian limbs of 64 bits, exact overflow flags, full products.\<close>

locale ruint =
  fixes R :: "'u u256_lib"
  assumes as_limbs_length: "length (as_limbs R a) = 4"
    and as_from_limbs: "length ls = 4 \<Longrightarrow> as_limbs R (from_limbs R ls) = ls"
    and from_u64_limbs: "as_limbs R (u256_from_u64 R x) = [x, 0, 0, 0]"
    and add_spec: "overflowing_add R a b = (c, carry) \<Longrightarrow>
      limbs_val (as_limbs R c) + 2 ^ 256 * of_bool carry = limbs_val (as_limbs R a) + limbs_val (as_limbs R b)"
    and sub_spec: "overflowing_sub R a b = (c, borrow) \<Longrightarrow>
      limbs_val (as_limbs R c) + limbs_val (as_limbs R b) = limbs_val (as_limbs R a) + 2 ^ 256 * of_bool borrow"
    and mul_length: "length (widening_mul R a b) = 8"
    and mul_spec: "limbs_val (widening_mul R a b) = limbs_val (as_limbs R a) * limbs_val (as_limbs R b)"
    and eq_spec: "u256_eq R a b \<longleftrightarrow> as_limbs R a = as_limbs R b"

text \<open>An implementation on 256-bit words.\<close>

fun nat_limbs :: "nat \<Rightarrow> nat \<Rightarrow> u64 list" where
  "nat_limbs 0 n = []"
| "nat_limbs (Suc k) n = of_nat n # nat_limbs k (n div 2 ^ 64)"

definition word256_lib :: "256 word u256_lib" where
  "word256_lib = \<lparr>
     from_limbs = (\<lambda>ls. of_nat (limbs_val ls)),
     as_limbs = (\<lambda>a. nat_limbs 4 (unat a)),
     u256_from_u64 = ucast,
     overflowing_add = (\<lambda>a b. (a + b, 2 ^ 256 \<le> unat a + unat b)),
     overflowing_sub = (\<lambda>a b. (a - b, a < b)),
     widening_mul = (\<lambda>a b. nat_limbs 8 (unat a * unat b)),
     u256_eq = (=)\<rparr>"

lemma length_nat_limbs [simp]: "length (nat_limbs k n) = k"
  by (induction k arbitrary: n) simp_all

lemma nat_limbs_val: "limbs_val (nat_limbs k n) = n mod 2 ^ (64 * k)"
proof (induction k arbitrary: n)
  case (Suc k)
  have "unat (of_nat n :: u64) = n mod 2 ^ 64"
    by (simp add: unsigned_of_nat take_bit_eq_mod)
  moreover have "n mod (2 ^ 64 * 2 ^ (64 * k)) = 2 ^ 64 * (n div 2 ^ 64 mod 2 ^ (64 * k)) + n mod 2 ^ 64"
    by (rule mod_mult2_eq)
  ultimately show ?case
    using Suc by (simp add: power_add)
qed simp

lemma nat_limbs_limbs_val: "nat_limbs (length ls) (limbs_val ls) = ls"
  by (rule limbs_val_inj) (simp_all add: nat_limbs_val limbs_val_less)

lemma limbs_val_unat: "limbs_val (nat_limbs 4 (unat (a :: 256 word))) = unat a"
  using unsigned_less [where ?'a = nat, of a] by (simp only: nat_limbs_val) simp

lemma carry_spec: "a < N \<Longrightarrow> b < N \<Longrightarrow> (a + b) mod N + N * of_bool (N \<le> a + b) = a + (b :: nat)"
  by (auto simp: mod_if)

lemma as_limbs_word256: "as_limbs word256_lib a = nat_limbs 4 (unat a)"
  by (simp only: word256_lib_def u256_lib.simps)

lemma word256_add: "limbs_val (as_limbs word256_lib (a + b)) + 2 ^ 256 * of_bool (2 ^ 256 \<le> unat a + unat b) =
    limbs_val (as_limbs word256_lib a) + limbs_val (as_limbs word256_lib b)"
proof -
  have "unat (a + b) + 2 ^ 256 * of_bool (2 ^ 256 \<le> unat a + unat b) = unat a + unat b"
    using carry_spec [OF unsigned_less [where ?'a = nat, of a] unsigned_less [where ?'a = nat, of b]]
    by (simp add: unat_word_ariths(1))
  then show ?thesis
    by (simp only: as_limbs_word256 limbs_val_unat)
qed

lemma word256_sub: "limbs_val (as_limbs word256_lib (a - b)) + limbs_val (as_limbs word256_lib b) =
    limbs_val (as_limbs word256_lib a) + 2 ^ 256 * of_bool (a < b)"
proof -
  have "unat (a - b) + unat b = unat a + 2 ^ 256 * of_bool (a < b)" 
    using unsigned_less [where ?'a = nat, of a] unsigned_less [where ?'a = nat, of b]
    by (cases "a < b") (simp_all add: unat_sub_if_size word_size word_less_nat_alt word_le_nat_alt)
  then show ?thesis
    by (simp only: as_limbs_word256 limbs_val_unat)
qed

lemma word256_from_u64: "nat_limbs 4 (unat (ucast (x :: u64) :: 256 word)) = [x, 0, 0, 0]"
proof (rule limbs_val_inj)
  have "limbs_val (nat_limbs 4 (unat (ucast x :: 256 word))) = unat (ucast x :: 256 word)"
    by (rule limbs_val_unat)
  also have "\<dots> = unat x"
    using unsigned_less [where ?'a = nat, of x]
    by (simp add: unsigned_ucast_eq unsigned_take_bit_eq take_bit_nat_eq_self)
  finally show "limbs_val (nat_limbs 4 (unat (ucast x :: 256 word))) = limbs_val [x, 0, 0, 0]"
    by simp
qed simp

lemma word256_mul: "limbs_val (nat_limbs 8 (unat (a :: 256 word) * unat (b :: 256 word))) = unat a * unat b"
proof -
  have "unat a * unat b < 2 ^ 256 * 2 ^ 256"
    using unsigned_less [where ?'a = nat, of a] unsigned_less [where ?'a = nat, of b]
    by (intro mult_strict_mono) (simp_all only: len_num1 len_bit0 len_bit1, simp_all)
  then show ?thesis
    by (simp only: nat_limbs_val) simp
qed

lemma nat_limbs_256_inj: "nat_limbs 4 (unat (a :: 256 word)) = nat_limbs 4 (unat b) \<longleftrightarrow> a = b"
  using limbs_val_unat [of a] limbs_val_unat [of b] by (metis word_unat_eq_iff)

lemma nat_limbs_of_limbs_256:
  assumes "length ls = 4"
  shows "nat_limbs 4 (unat (of_nat (limbs_val ls) :: 256 word)) = ls"
proof -
  have "unat (of_nat (limbs_val ls) :: 256 word) = limbs_val ls"
    using limbs_val_less [of ls] assms by (simp add: unsigned_of_nat take_bit_nat_eq_self)
  then show ?thesis
    using nat_limbs_limbs_val [of ls] by (simp only: assms)
qed

interpretation w256: ruint word256_lib
proof
  fix a b c :: "256 word" and ls :: "u64 list" and x :: u64 and carry
  show "length ls = 4 \<Longrightarrow> as_limbs word256_lib (from_limbs word256_lib ls) = ls"
    by (simp only: word256_lib_def u256_lib.simps nat_limbs_of_limbs_256)
  show "as_limbs word256_lib (u256_from_u64 word256_lib x) = [x, 0, 0, 0]"
    using word256_from_u64 [of x] by (simp only: word256_lib_def u256_lib.simps)
  show "overflowing_add word256_lib a b = (c, carry) \<Longrightarrow>
      limbs_val (as_limbs word256_lib c) + 2 ^ 256 * of_bool carry =
      limbs_val (as_limbs word256_lib a) + limbs_val (as_limbs word256_lib b)"
    using word256_add [of a b] by (simp only: word256_lib_def u256_lib.simps prod.inject)
  show "overflowing_sub word256_lib a b = (c, carry) \<Longrightarrow>
      limbs_val (as_limbs word256_lib c) + limbs_val (as_limbs word256_lib b) =
      limbs_val (as_limbs word256_lib a) + 2 ^ 256 * of_bool carry"
    using word256_sub [of a b] by (simp only: word256_lib_def u256_lib.simps prod.inject)
  show "limbs_val (widening_mul word256_lib a b) =
      limbs_val (as_limbs word256_lib a) * limbs_val (as_limbs word256_lib b)"
    using word256_mul [of a b] by (simp only: word256_lib_def u256_lib.simps limbs_val_unat)
  show "u256_eq word256_lib a b \<longleftrightarrow> as_limbs word256_lib a = as_limbs word256_lib b"
    by (simp only: word256_lib_def u256_lib.simps nat_limbs_256_inj)
qed (simp_all only: word256_lib_def u256_lib.simps length_nat_limbs)

section \<open>The operations on naturals\<close>

text \<open>What the seven operations mean: the result and the flag, for operands below \<open>2 ^ 256\<close>.\<close>

definition u256_spec :: "u32 \<Rightarrow> nat \<Rightarrow> nat \<Rightarrow> (nat \<times> bool) option" where
  "u256_spec control a b =
    (let N = 2 ^ 256; c = of_bool (bit control CARRY_BIT_IDX) in
     if \<not> (control < 256 \<and> count_ones (control AND NOT (push_bit CARRY_BIT_IDX 1)) = 1) then None
     else if bit control ADD_OP_BIT_IDX then Some ((a + b + c) mod N, N \<le> a + b + c)
     else if bit control SUB_OP_BIT_IDX then Some ((a + 2 * N - b - c) mod N, a < b + c)
     else if bit control SUB_AND_NEGATE_OP_BIT_IDX then Some ((b + 2 * N - a - c) mod N, b < a + c)
     else if bit control MUL_LOW_OP_BIT_IDX then Some (a * b mod N, N \<le> a * b)
     else if bit control MUL_HIGH_OP_BIT_IDX then Some (a * b div N, False)
     else if bit control EQ_OP_BIT_IDX then Some (a, a = b)
     else if bit control MEMCOPY_BIT_IDX then Some ((b + c) mod N, N \<le> b + c)
     else None)"

lemma control_bit_iff: "i < 32 \<Longrightarrow> control_bit w i \<longleftrightarrow> bit w i"
  by (simp add: control_bit_def bit_iff_and_push_bit_not_eq_0)

lemma control_bits:
  "control_bit w ADD_OP_BIT_IDX = bit w ADD_OP_BIT_IDX" "control_bit w SUB_OP_BIT_IDX = bit w SUB_OP_BIT_IDX"
  "control_bit w SUB_AND_NEGATE_OP_BIT_IDX = bit w SUB_AND_NEGATE_OP_BIT_IDX"
  "control_bit w MUL_LOW_OP_BIT_IDX = bit w MUL_LOW_OP_BIT_IDX"
  "control_bit w MUL_HIGH_OP_BIT_IDX = bit w MUL_HIGH_OP_BIT_IDX" "control_bit w EQ_OP_BIT_IDX = bit w EQ_OP_BIT_IDX"
  "control_bit w CARRY_BIT_IDX = bit w CARRY_BIT_IDX" "control_bit w MEMCOPY_BIT_IDX = bit w MEMCOPY_BIT_IDX"
  "(2 :: u32) ^ NUM_CONTROL_BITS = 256"
  by (simp_all add: control_bit_iff u256_bits del: bit_0)

lemma two_additions:
  assumes "t + N * of_bool p = a + b" "s + N * of_bool q = t + (c :: nat)" "s < N"
  shows "s = (a + b + c) mod N" "p \<or> q \<longleftrightarrow> N \<le> a + b + c"
proof -
  have *: "a + b + c = s + N * (of_bool p + of_bool q)"
    using assms by (simp add: algebra_simps)
  then show "s = (a + b + c) mod N"
    using assms(3) by simp
  show "p \<or> q \<longleftrightarrow> N \<le> a + b + c"
    using * assms(3) by auto
qed

lemma two_subtractions:
  assumes "t + b = a + N * of_bool p" "s + c = t + N * of_bool q" "s < N" "b < N" "c < N" "(a :: nat) < N"
  shows "s = (a + 2 * N - b - c) mod N" "p \<or> q \<longleftrightarrow> a < b + c"
proof -
  have *: "s + b + c = a + N * (of_bool p + of_bool q)"
    using assms(1,2) by (simp add: algebra_simps)
  then have "a + 2 * N - b - c = s + N * (2 - (of_bool p + of_bool q))"
    using assms(4,5) by (cases p; cases q) (simp_all add: algebra_simps)
  then show "s = (a + 2 * N - b - c) mod N"
    using assms(3) by simp
  show "p \<or> q \<longleftrightarrow> a < b + c"
    using * assms(3) by (cases p; cases q) auto
qed

lemma limbs_val_0_iff: "limbs_val ls = 0 \<longleftrightarrow> (\<forall>l \<in> set ls. l = 0)"
  by (induction ls) (auto simp: unat_eq_0)

lemma halves_val:
  assumes "length ls = 8"
  shows "limbs_val (take 4 ls) = limbs_val ls mod 2 ^ 256" "limbs_val (drop 4 ls) = limbs_val ls div 2 ^ 256"
proof -
  have "limbs_val ls = limbs_val (take 4 ls) + 2 ^ 256 * limbs_val (drop 4 ls)"
    using limbs_val_append [of "take 4 ls" "drop 4 ls"] assms by simp
  moreover have "limbs_val (take 4 ls) < 2 ^ 256"
    using limbs_val_less [of "take 4 ls"] assms by simp
  ultimately show "limbs_val (take 4 ls) = limbs_val ls mod 2 ^ 256"
    "limbs_val (drop 4 ls) = limbs_val ls div 2 ^ 256"
    by simp_all
qed

context ruint
begin

lemma as_limbs_less: "limbs_val (as_limbs R a) < 2 ^ 256"
  using limbs_val_less [of "as_limbs R a"] as_limbs_length by simp

lemma from_u64_bool: "limbs_val (as_limbs R (u256_from_u64 R (of_bool p))) = of_bool p"
  by (cases p) (simp_all add: from_u64_limbs)

lemma compute_add:
  assumes "overflowing_add R a b = (t, p)" "overflowing_add R t (u256_from_u64 R (of_bool c)) = (s, q)"
  shows "limbs_val (as_limbs R s) = (limbs_val (as_limbs R a) + limbs_val (as_limbs R b) + of_bool c) mod 2 ^ 256 \<and>
    (p \<or> q \<longleftrightarrow> 2 ^ 256 \<le> limbs_val (as_limbs R a) + limbs_val (as_limbs R b) + of_bool c)"
  using two_additions [OF add_spec [OF assms(1)] add_spec [OF assms(2), unfolded from_u64_bool] as_limbs_less]
  by (intro conjI)

lemma compute_sub:
  assumes "overflowing_sub R a b = (t, p)" "overflowing_sub R t (u256_from_u64 R (of_bool c)) = (s, q)"
  shows "limbs_val (as_limbs R s) =
      (limbs_val (as_limbs R a) + 2 * 2 ^ 256 - limbs_val (as_limbs R b) - of_bool c) mod 2 ^ 256 \<and>
    (p \<or> q \<longleftrightarrow> limbs_val (as_limbs R a) < limbs_val (as_limbs R b) + of_bool c)"
  using two_subtractions [OF sub_spec [OF assms(1)] sub_spec [OF assms(2), unfolded from_u64_bool]
    as_limbs_less as_limbs_less _ as_limbs_less]
  by (cases c) simp_all

lemma compute_mul:
  fixes a b :: 'u
  defines "t \<equiv> widening_mul R a b" and "ab \<equiv> limbs_val (as_limbs R a) * limbs_val (as_limbs R b)"
  shows "limbs_val (as_limbs R (from_limbs R (take 4 t))) = ab mod 2 ^ 256"
    "limbs_val (as_limbs R (from_limbs R (take 4 (drop 4 t)))) = ab div 2 ^ 256"
    "(\<exists>el \<in> set (drop 4 t). el \<noteq> 0) \<longleftrightarrow> 2 ^ 256 \<le> ab"
proof -
  have t: "length t = 8" "limbs_val t = ab"
    by (simp_all only: t_def ab_def mul_length mul_spec)
  note halves = halves_val [OF t(1), unfolded t(2)]
  from t(1) have len: "length (take 4 t) = 4" "length (drop 4 t) = 4" "take 4 (drop 4 t) = drop 4 t"
    by simp_all
  show "limbs_val (as_limbs R (from_limbs R (take 4 t))) = ab mod 2 ^ 256"
    "limbs_val (as_limbs R (from_limbs R (take 4 (drop 4 t)))) = ab div 2 ^ 256"
    using as_from_limbs [OF len(1)] as_from_limbs [OF len(2)] halves by (simp_all only: len(3))
  have "ab div 2 ^ 256 \<noteq> 0 \<longleftrightarrow> 2 ^ 256 \<le> ab"
    by (simp add: div_eq_0_iff not_less)
  then show "(\<exists>el \<in> set (drop 4 t). el \<noteq> 0) \<longleftrightarrow> 2 ^ 256 \<le> ab"
    using limbs_val_0_iff [of "drop 4 t"] halves(2) by metis
qed

lemma limbs_eq_iff: "as_limbs R a = as_limbs R b \<longleftrightarrow> limbs_val (as_limbs R a) = limbs_val (as_limbs R b)"
  using limbs_val_inj [of "as_limbs R a" "as_limbs R b"] as_limbs_length by auto

lemma compute_refines:
  "map_option (\<lambda>(r, f). (limbs_val (as_limbs R r), f)) (u256_ops_compute R a b control) =
   u256_spec control (limbs_val (as_limbs R a)) (limbs_val (as_limbs R b))"
proof -
  let ?c = "u256_from_u64 R (of_bool (bit control CARRY_BIT_IDX))"
  obtain t1 p1 s1 q1 where add: "overflowing_add R a b = (t1, p1)" "overflowing_add R t1 ?c = (s1, q1)"
    by fastforce
  obtain t2 p2 s2 q2 where sub: "overflowing_sub R a b = (t2, p2)" "overflowing_sub R t2 ?c = (s2, q2)"
    by fastforce
  obtain t3 p3 s3 q3 where neg: "overflowing_sub R b a = (t3, p3)" "overflowing_sub R t3 ?c = (s3, q3)"
    by fastforce
  obtain s4 q4 where inc: "overflowing_add R b ?c = (s4, q4)"
    by fastforce
  have inc': "limbs_val (as_limbs R s4) = (limbs_val (as_limbs R b) + of_bool (bit control CARRY_BIT_IDX)) mod 2 ^ 256"
    "q4 \<longleftrightarrow> 2 ^ 256 \<le> limbs_val (as_limbs R b) + of_bool (bit control CARRY_BIT_IDX)"
    using two_additions [of "limbs_val (as_limbs R b)" "2 ^ 256" False _ 0,
        OF _ add_spec [OF inc, unfolded from_u64_bool] as_limbs_less] by simp_all
  have copy: "limbs_val (as_limbs R b) mod 2 ^ 256 = limbs_val (as_limbs R b)" "\<not> 2 ^ 256 \<le> limbs_val (as_limbs R b)"
    using as_limbs_less [of b] by simp_all
  have inc1: "overflowing_add R b (u256_from_u64 R 1) = (s4, q4)" if "bit control CARRY_BIT_IDX"
    using inc that by simp
  define N where "N = (2 :: nat) ^ 256"
  show ?thesis
    using compute_add [OF add] compute_sub [OF sub] compute_sub [OF neg] compute_mul [of a b] inc' copy
    unfolding u256_ops_compute_def u256_spec_def N_def [symmetric]
    by (simp add: Let_def control_bits add sub neg inc inc1 eq_spec limbs_eq_iff rust_assert_def)
qed

end

section \<open>Blocks of words in memory\<close>

lemma unat_next_word:
  assumes "unat (a :: u64) mod 4 = 0" "unat a + 4 < 2 ^ 64"
  shows "unat (a + 4) mod 4 = 0" "unat (a + 4) div 4 = Suc (unat a div 4)"
proof -
  have "unat (a + 4) = unat a + 4"
    using assms(2) by (simp add: unat_word_ariths)
  then show "unat (a + 4) mod 4 = 0" "unat (a + 4) div 4 = Suc (unat a div 4)"
    using assms(1) by simp_all
qed

definition block :: "vector_memory \<Rightarrow> u32 \<Rightarrow> nat \<Rightarrow> u32 list" where
  "block m a n = take n (drop (unat a div 4) (inner m))"

lemma read_block:
  assumes "unat a mod 4 = 0" "unat a div 4 + n \<le> length (inner m)" "unat a + 4 * n < 2 ^ 64"
  shows "register_indirect_read_continuous VectorMemoryImpl n a m = Some (take n (drop (unat a div 4) (inner m)))"
  using assms
proof (induction n arbitrary: a)
  case (Suc n)
  have nxt: "unat (a + 4) mod 4 = 0" "unat (a + 4) div 4 = Suc (unat a div 4)"
    using Suc.prems by (intro unat_next_word; simp)+
  moreover have "unat (a + 4) = unat a + 4"
    using Suc.prems by (simp add: unat_word_ariths)
  ultimately have "register_indirect_read_continuous VectorMemoryImpl n (a + 4) m =
      Some (take n (drop (Suc (unat a div 4)) (inner m)))"
    using Suc by simp
  moreover have "ms_get VectorMemoryImpl m a RegWrite NoTrap = Some (inner m ! (unat a div 4), NoTrap)"
    using Suc.prems by (intro vm.get_in) (simp add: vector_word_at_def)
  moreover have "drop (unat a div 4) (inner m) = inner m ! (unat a div 4) # drop (Suc (unat a div 4)) (inner m)"
    using Suc.prems by (simp add: Cons_nth_drop_Suc)
  ultimately show ?case
    by simp
qed simp

lemma write_block:
  assumes "unat a mod 4 = 0" "unat a div 4 + length vs \<le> length (inner m)" "unat a + 4 * length vs < 2 ^ 64"
  shows "write_indirect_accesses VectorMemoryImpl a vs m =
    Some (m\<lparr>inner := take (unat a div 4) (inner m) @ vs @ drop (unat a div 4 + length vs) (inner m)\<rparr>)"
  using assms
proof (induction vs arbitrary: a m)
  case (Cons v vs)
  let ?i = "unat a div 4"
  have nxt: "unat (a + 4) mod 4 = 0" "unat (a + 4) div 4 = Suc ?i" "unat (a + 4) = unat a + 4"
    using Cons.prems by (auto intro: unat_next_word simp: unat_word_ariths)
  let ?m = "m\<lparr>inner := (inner m)[?i := v]\<rparr>"
  have "write_indirect_accesses VectorMemoryImpl (a + 4) vs ?m =
      Some (?m\<lparr>inner := take (Suc ?i) (inner ?m) @ vs @ drop (Suc ?i + length vs) (inner ?m)\<rparr>)"
    using Cons.IH [of "a + 4" ?m] Cons.prems nxt by simp
  moreover have "ms_set VectorMemoryImpl m a v RegWrite NoTrap = Some (?m, NoTrap)"
    using Cons.prems by (simp add: VectorMemoryImpl_def VectorMemoryImpl_set_def unat_div_distrib)
  moreover have "take (Suc ?i) ((inner m)[?i := v]) = take ?i (inner m) @ [v]"
    using Cons.prems by (simp add: take_Suc_conv_app_nth)
  ultimately show ?case
    by simp
qed (simp add: write_indirect_accesses.simps)

lemma block_length: "unat a div 4 + n \<le> length (inner m) \<Longrightarrow> length (block m a n) = n"
  by (simp add: block_def)

context ruint
begin

lemma make_u256_val: "length ws = 8 \<Longrightarrow> limbs_val (as_limbs R (make_u256 R ws)) = words_val ws"
  by (simp add: make_u256_def as_from_limbs length_limbs_of_words limbs_of_words_val)

lemma delegation_correct:
  fixes w :: "(vector_memory, 'mmu, 'nd) machine_v1"
  assumes x10: "x10 = regs_of w ! 10" "x10 mod 32 = 0" "0x200000 \<le> x10"
      "unat x10 div 4 + 8 \<le> length (inner (v1_memory w))"
    and x11: "x11 = regs_of w ! 11" "x11 mod 32 = 0" "0x200000 \<le> x11" "x10 \<noteq> x11"
      "unat x11 div 4 + 8 \<le> length (inner (v1_memory w))"
  shows "case u256_spec (regs_of w ! 12) (words_val (block (v1_memory w) x10 8)) (words_val (block (v1_memory w) x11 8)) of
      None \<Rightarrow> u256_ops_with_control_impl R VectorMemoryImpl 0 w = panic
    | Some (r, overflow) \<Rightarrow> \<exists>ws w'. u256_ops_with_control_impl R VectorMemoryImpl 0 w = Some w' \<and>
        length ws = 8 \<and> words_val ws = r \<and> regs_of w' = (regs_of w)[12 := of_bool overflow] \<and>
        pc_of w' = pc_of w \<and> v1_nd w' = v1_nd w \<and>
        inner (v1_memory w') = take (unat x10 div 4) (inner (v1_memory w)) @ ws @
          drop (unat x10 div 4 + 8) (inner (v1_memory w))"
proof -
  let ?m = "v1_memory w"
  let ?a = "make_u256 R (block ?m x10 8)" and ?b = "make_u256 R (block ?m x11 8)"
  have low: "unat x mod 4 = 0 \<and> unat (ucast x :: u64) + 4 * 8 < 2 ^ 64" if "x mod 32 = 0" for x :: u32
  proof -
    have "unat x mod 32 = 0"
      using that unat_mod_distrib [of x 32] by simp
    then have "unat x mod 4 = 0"
      by presburger
    then show ?thesis
      using unsigned_less [where ?'a = nat, of x] by simp
  qed
  have reads: "register_indirect_read_continuous VectorMemoryImpl 8 (ucast x10) ?m = Some (block ?m x10 8)"
    "register_indirect_read_continuous VectorMemoryImpl 8 (ucast x11) ?m = Some (block ?m x11 8)"
    using x10 x11 low [of x10] low [of x11] by (simp_all add: read_block block_def)
  have vals: "limbs_val (as_limbs R ?a) = words_val (block ?m x10 8)" "limbs_val (as_limbs R ?b) = words_val (block ?m x11 8)"
    using x10(4) x11(5) by (simp_all add: make_u256_val block_length)
  have guards: "push_bit 21 1 \<le> regs_of w ! 10" "push_bit 21 1 \<le> regs_of w ! 11" 
    using x10(1,3) x11(1,3) by simp_all
  note spec = compute_refines [of ?a ?b "regs_of w ! 12", unfolded vals]
  note unf = u256_ops_with_control_impl_def Let_def
  show ?thesis
  proof (cases "u256_ops_compute R ?a ?b (regs_of w ! 12)")
    case None
    then show ?thesis
      using spec x10 x11 reads guards by (simp add: unf)
  next
    case (Some rf)
    obtain r f where rf: "rf = (r, f)"
      by fastforce
    let ?ws = "words_of_limbs (as_limbs R r)"
    have ws: "length ?ws = 8" "words_val ?ws = limbs_val (as_limbs R r)"
      by (simp_all add: length_words_of_limbs as_limbs_length words_of_limbs_val)
    have "write_indirect_accesses VectorMemoryImpl (ucast x10) ?ws ?m =
        Some (?m\<lparr>inner := take (unat x10 div 4) (inner ?m) @ ?ws @ drop (unat x10 div 4 + 8) (inner ?m)\<rparr>)"
      using write_block [of "ucast x10" ?ws ?m] x10 low [of x10] ws(1) by simp
    moreover have "u256_spec (regs_of w ! 12) (words_val (block ?m x10 8)) (words_val (block ?m x11 8)) =
        Some (words_val ?ws, f)"
      using spec Some rf ws(2) by simp
    ultimately show ?thesis
      using Some rf x10 x11 reads guards ws(1)
      by (auto simp: unf trace_event_v1_def put_regs_def)
  qed
qed

end

section \<open>Properties\<close>

text \<open>C7: the 256-bit delegation performs the operation its control word selects on the little-endian
  numbers at the addresses in \<open>x10\<close> and \<open>x11\<close>, for every implementation of the contract of \<open>ruint\<close>:
  it replaces the first operand by the result, leaves the rest of the memory alone, and puts the
  carry, borrow or comparison into \<open>x12\<close>; a control word that selects no operation or several is a
  panic.\<close>

theorem u256_delegation_correct:
  fixes w :: "(vector_memory, 'mmu, 'nd) machine_v1"
  assumes "ruint R" "regs_of w ! 10 mod 32 = 0" "0x200000 \<le> regs_of w ! 10"
    and "unat (regs_of w ! 10) div 4 + 8 \<le> length (inner (v1_memory w))"
    and "regs_of w ! 11 mod 32 = 0" "0x200000 \<le> regs_of w ! 11" "regs_of w ! 10 \<noteq> regs_of w ! 11"
    and "unat (regs_of w ! 11) div 4 + 8 \<le> length (inner (v1_memory w))"
  shows "case u256_spec (regs_of w ! 12) (words_val (block (v1_memory w) (regs_of w ! 10) 8))
        (words_val (block (v1_memory w) (regs_of w ! 11) 8)) of
      None \<Rightarrow> u256_ops_with_control_impl R VectorMemoryImpl 0 w = panic
    | Some (r, overflow) \<Rightarrow> \<exists>ws w'. u256_ops_with_control_impl R VectorMemoryImpl 0 w = Some w' \<and>
        length ws = 8 \<and> words_val ws = r \<and> regs_of w' = (regs_of w)[12 := of_bool overflow] \<and>
        pc_of w' = pc_of w \<and> v1_nd w' = v1_nd w \<and>
        inner (v1_memory w') = take (unat (regs_of w ! 10) div 4) (inner (v1_memory w)) @ ws @
          drop (unat (regs_of w ! 10) div 4 + 8) (inner (v1_memory w))"
  using ruint.delegation_correct [OF assms(1) refl assms(2-4) refl assms(5-8)] .

theorem u256_delegation_correct_witness:
  "\<exists>w ws w'. u256_ops_with_control_impl word256_lib VectorMemoryImpl 0
      (w :: (vector_memory, unit, unit) machine_v1) = Some w' \<and>
    inner (v1_memory w) = replicate 524288 0 @ [5, 0, 0, 0, 0, 0, 0, 0] @ [7, 0, 0, 0, 0, 0, 0, 0] \<and>
    inner (v1_memory w') = replicate 524288 0 @ ws @ [7, 0, 0, 0, 0, 0, 0, 0] \<and> words_val ws = 12"
proof -
  let ?regs = "(replicate 32 0)[10 := 0x200000, 11 := 0x200020, 12 := 1] :: u32 list"
  let ?mem = "replicate 524288 0 @ [5, 0, 0, 0, 0, 0, 0, 0] @ [7, 0, 0, 0, 0, 0, 0, 0] :: u32 list"
  let ?w = "\<lparr>v1_state = (RiscV32State_initial 0)\<lparr>observable := \<lparr>registers = ?regs, obs_pc = 0\<rparr>\<rparr>,
    v1_memory = \<lparr>inner = ?mem\<rparr>, v1_tracer = [], v1_mmu = (), v1_nd = ()\<rparr>"
  have regs: "regs_of ?w ! 10 = 0x200000" "regs_of ?w ! 11 = 0x200020" "regs_of ?w ! 12 = 1"
    by simp_all
  have blocks: "block (v1_memory ?w) 0x200000 8 = [5, 0, 0, 0, 0, 0, 0, 0]"
    "block (v1_memory ?w) 0x200020 8 = [7, 0, 0, 0, 0, 0, 0, 0]"
    by (simp_all add: block_def)
  have spec: "u256_spec 1 5 7 = Some (12, False)"
    by (simp add: u256_spec_def u256_bits count_ones_def upt_rec)
  show ?thesis
    using u256_delegation_correct [OF w256.ruint_axioms, of ?w] regs blocks spec
    by (intro exI [of _ ?w]) auto
qed

end
