(* ===== verification/Alu.thy ===== *)
theory Alu
  imports Config M31_Laws
begin

text \<open>
  The arithmetic of one instruction, as the first machine (\<open>cycle/state.rs\<close>) and the unrolled machine
  (\<open>cycle/state_new.rs\<close>) write it out: branch conditions, the base integer operations, the M extension
  and the modular operations.  An instruction the configuration does not support, or an encoding that
  does not exist, is \<open>None\<close>; the first machine raises \<open>IllegalInstruction\<close> there, the unrolled one panics.

  \<open>funct3\<close> has three bits, so the last branch of a chain over \<open>funct3\<close> stands for the value 7 and the
  arm marked \<open>unreachable_unchecked\<close> in the sources has no counterpart.
\<close>

definition rotate_left_u32 :: "u32 \<Rightarrow> u32 \<Rightarrow> u32" where
  "rotate_left_u32 x n = word_rotl (unat n) x"

definition rotate_right_u32 :: "u32 \<Rightarrow> u32 \<Rightarrow> u32" where
  "rotate_right_u32 x n = word_rotr (unat n) x"

section \<open>First machine\<close>

definition branch_condition :: "u32 \<Rightarrow> u32 \<Rightarrow> u32 \<Rightarrow> bool option" where
  "branch_condition funct3 rs1 rs2 =
    (if funct3 = 0 then Some (rs1 = rs2)
     else if funct3 = 1 then Some (rs1 \<noteq> rs2)
     else if funct3 = 4 then Some (sint rs1 < sint rs2)
     else if funct3 = 5 then Some (sint rs1 \<ge> sint rs2)
     else if funct3 = 6 then Some (rs1 < rs2)
     else if funct3 = 7 then Some (rs1 \<ge> rs2)
     else None)"

definition m_extension :: "machine_config \<Rightarrow> u32 \<Rightarrow> u32 \<Rightarrow> u32 \<Rightarrow> u32 option" where
  "m_extension C funct3 operand_1 operand_2 =
    (if funct3 = 0 then
       (if SUPPORT_MUL C then Some (operand_1 * operand_2) else None)
     else if funct3 = 1 then
       (if SUPPORT_MUL C \<and> SUPPORT_SIGNED_MUL C
        then Some (ucast (signed_drop_bit 32 ((scast operand_1 :: u64) * scast operand_2)))
        else None)
     else if funct3 = 2 then
       (if SUPPORT_MUL C \<and> SUPPORT_SIGNED_MUL C
        then Some (ucast (signed_drop_bit 32 ((scast operand_1 :: u64) * ucast operand_2)))
        else None)
     else if funct3 = 3 then
       (if SUPPORT_MUL C
        then Some (ucast (drop_bit 32 ((ucast operand_1 :: u64) * ucast operand_2)))
        else None)
     else if funct3 = 4 then
       (if SUPPORT_DIV C \<and> SUPPORT_SIGNED_DIV C then
          (if operand_2 = 0 then Some (- 1)
           else if sint operand_1 = - (2 ^ 31) \<and> sint operand_2 = - 1 then Some operand_1
           else Some (word_of_int (sint operand_1 sdiv sint operand_2)))
        else None)
     else if funct3 = 5 then
       (if SUPPORT_DIV C then
          (if operand_2 = 0 then Some 0xffffffff else Some (operand_1 div operand_2))
        else None)
     else if funct3 = 6 then
       (if SUPPORT_DIV C \<and> SUPPORT_SIGNED_DIV C then
          (if operand_2 = 0 then Some operand_1
           else if sint operand_1 = - (2 ^ 31) \<and> sint operand_2 = - 1 then Some 0
           else Some (word_of_int (sint operand_1 smod sint operand_2)))
        else None)
     else
       (if SUPPORT_DIV C then
          (if operand_2 = 0 then Some operand_1 else Some (operand_1 mod operand_2))
        else None))"

definition SUB_TEST_MASK :: u32 where "SUB_TEST_MASK = 0x40000000"
definition ARITHMETIC_SHIFT_RIGHT_TEST_MASK :: u32 where "ARITHMETIC_SHIFT_RIGHT_TEST_MASK = 0x40000000"
definition ROTATE_MASK :: u32 where "ROTATE_MASK = 0x60000000"

definition basic_op ::
  "machine_config \<Rightarrow> u32 \<Rightarrow> bool \<Rightarrow> u32 \<Rightarrow> u32 \<Rightarrow> u32 \<Rightarrow> u32 option" where
  "basic_op C instr is_r_type funct3 operand_1 operand_2 =
    (if funct3 = 0 then
       (if is_r_type \<and> instr AND SUB_TEST_MASK \<noteq> 0 then Some (operand_1 - operand_2)
        else Some (operand_1 + operand_2))
     else if funct3 = 1 then
       (if instr AND ROTATE_MASK \<noteq> 0 then
          (if SUPPORT_ROT C then Some (rotate_left_u32 operand_1 (operand_2 AND 0x1f)) else None)
        else Some (push_bit (unat (operand_2 AND 0x1f)) operand_1))
     else if funct3 = 2 then Some (of_bool (sint operand_1 < sint operand_2))
     else if funct3 = 3 then Some (of_bool (operand_1 < operand_2))
     else if funct3 = 4 then Some (operand_1 XOR operand_2)
     else if funct3 = 5 then
       (if instr AND ROTATE_MASK = ROTATE_MASK then
          (if SUPPORT_ROT C then Some (rotate_right_u32 operand_1 (operand_2 AND 0x1f)) else None)
        else if instr AND ARITHMETIC_SHIFT_RIGHT_TEST_MASK \<noteq> 0 then
          (if SUPPORT_SRA C then Some (signed_drop_bit (unat (operand_2 AND 0x1f)) operand_1) else None)
        else Some (drop_bit (unat (operand_2 AND 0x1f)) operand_1))
     else if funct3 = 6 then Some (operand_1 OR operand_2)
     else Some (operand_1 AND operand_2))"

definition valid_encoding :: "bool \<Rightarrow> u32 \<Rightarrow> u32 \<Rightarrow> bool" where
  "valid_encoding is_r_type funct3 funct7 \<longleftrightarrow>
    (if \<not> is_r_type then
       (if funct3 = 1 then funct7 = 0 \<or> funct7 = 0b0110000
        else if funct3 = 5 then funct7 = 0 \<or> funct7 = 0b0100000 \<or> funct7 = 0b0110000
        else True)
     else if funct3 = 0 \<or> funct3 = 5 then funct7 = 0 \<or> funct7 = 0b0100000
     else funct7 = 0)"

text \<open>The modular operations, on the Mersenne-31 field.\<close>

definition MOP_FUNCT7_TEST :: u32 where "MOP_FUNCT7_TEST = 0b1000001"

definition mop :: "machine_config \<Rightarrow> u32 \<Rightarrow> u32 \<Rightarrow> u32 \<Rightarrow> u32 option" where
  "mop C funct7 rs1 rs2 =
    (if funct7 AND MOP_FUNCT7_TEST = MOP_FUNCT7_TEST then
       (if SUPPORT_MOPS C then
          let mop_number = drop_bit 1 (funct7 AND 0b110) OR drop_bit 5 (funct7 AND 0b100000);
              operand_1 = from_nonreduced_u32 rs1;
              operand_2 = from_nonreduced_u32 rs2
          in if mop_number = 0 then Some (to_reduced_u32 (add_mod operand_1 operand_2))
             else if mop_number = 1 then Some (to_reduced_u32 (sub_mod operand_1 operand_2))
             else if mop_number = 2 then Some (to_reduced_u32 (mul_mod operand_1 operand_2))
             else None
        else None)
     else None)"

section \<open>Unrolled machine\<close>

definition branch_condition_u :: "u8 \<Rightarrow> u32 \<Rightarrow> u32 \<Rightarrow> bool option" where
  "branch_condition_u funct3 rs1_value rs2_value =
    (if funct3 = 0 then Some (rs1_value = rs2_value)
     else if funct3 = 1 then Some (rs1_value \<noteq> rs2_value)
     else if funct3 = 4 then Some (sint rs1_value < sint rs2_value)
     else if funct3 = 5 then Some (sint rs1_value \<ge> sint rs2_value)
     else if funct3 = 6 then Some (rs1_value < rs2_value)
     else if funct3 = 7 then Some (rs1_value \<ge> rs2_value)
     else panic)"

definition op_imm_u ::
  "machine_config \<Rightarrow> u8 \<Rightarrow> u8 \<Rightarrow> u32 \<Rightarrow> u32 \<Rightarrow> u32 option" where
  "op_imm_u C funct3 funct7 operand_1 operand_2 =
    (if funct3 = 0b000 then Some (operand_1 + operand_2)
     else if funct3 = 0b001 \<and> funct7 = SLL_FUNCT7 then
       Some (push_bit (unat (operand_2 AND 0x1f)) operand_1)
     else if funct3 = 0b101 \<and> funct7 = SRL_FUNCT7 then
       Some (drop_bit (unat (operand_2 AND 0x1f)) operand_1)
     else if funct3 = 0b101 \<and> funct7 = SRA_FUNCT7 then
       (if SUPPORT_SRA C then Some (signed_drop_bit (unat (operand_2 AND 0x1f)) operand_1) else panic)
     else if funct3 = 0b101 \<and> funct7 = ROT_FUNCT7 then
       (if SUPPORT_ROT C then Some (rotate_right_u32 operand_1 (operand_2 AND 0x1f)) else panic)
     else if funct3 = 0b010 then Some (of_bool (sint operand_1 < sint operand_2))
     else if funct3 = 0b011 then Some (of_bool (operand_1 < operand_2))
     else if funct3 = 0b100 then Some (operand_1 XOR operand_2)
     else if funct3 = 0b110 then Some (operand_1 OR operand_2)
     else if funct3 = 0b111 then Some (operand_1 AND operand_2)
     else panic)"

definition m_extension_u :: "machine_config \<Rightarrow> u8 \<Rightarrow> u32 \<Rightarrow> u32 \<Rightarrow> u32 option" where
  "m_extension_u C funct3 operand_1 operand_2 =
    (if funct3 = 0b000 then
       (if SUPPORT_MUL C then Some (operand_1 * operand_2) else panic)
     else if funct3 = 0b001 then
       (if SUPPORT_MUL C \<and> SUPPORT_SIGNED_MUL C
        then Some (ucast (signed_drop_bit 32 ((scast operand_1 :: u64) * scast operand_2)))
        else panic)
     else if funct3 = 0b010 then
       (if SUPPORT_MUL C \<and> SUPPORT_SIGNED_MUL C
        then Some (ucast (signed_drop_bit 32 ((scast operand_1 :: u64) * ucast operand_2)))
        else panic)
     else if funct3 = 0b011 then
       (if SUPPORT_MUL C
        then Some (ucast (drop_bit 32 ((ucast operand_1 :: u64) * ucast operand_2)))
        else panic)
     else if funct3 = 0b100 then
       (if SUPPORT_DIV C \<and> SUPPORT_SIGNED_DIV C then
          (if operand_2 = 0 then Some (- 1)
           else if sint operand_1 = - (2 ^ 31) \<and> sint operand_2 = - 1 then Some operand_1
           else Some (word_of_int (sint operand_1 sdiv sint operand_2)))
        else panic)
     else if funct3 = 0b101 then
       (if SUPPORT_DIV C then
          (if operand_2 = 0 then Some 0xffffffff else Some (operand_1 div operand_2))
        else panic)
     else if funct3 = 0b110 then
       (if SUPPORT_DIV C \<and> SUPPORT_SIGNED_DIV C then
          (if operand_2 = 0 then Some operand_1
           else if sint operand_1 = - (2 ^ 31) \<and> sint operand_2 = - 1 then Some 0
           else Some (word_of_int (sint operand_1 smod sint operand_2)))
        else panic)
     else
       (if SUPPORT_DIV C then
          (if operand_2 = 0 then Some operand_1 else Some (operand_1 mod operand_2))
        else panic))"

definition op_u :: "machine_config \<Rightarrow> u8 \<Rightarrow> u8 \<Rightarrow> u32 \<Rightarrow> u32 \<Rightarrow> u32 option" where
  "op_u C funct3 funct7 operand_1 operand_2 =
    (if funct3 = 0b000 \<and> funct7 = 0 then Some (operand_1 + operand_2)
     else if funct3 = 0b000 \<and> funct7 = SUB_FUNCT7 then Some (operand_1 - operand_2)
     else if funct3 = 0b001 \<and> funct7 = SLL_FUNCT7 then
       Some (push_bit (unat (operand_2 AND 0x1f)) operand_1)
     else if funct3 = 0b001 \<and> funct7 = ROT_FUNCT7 then
       (if SUPPORT_ROT C then Some (rotate_left_u32 operand_1 (operand_2 AND 0x1f)) else panic)
     else if funct3 = 0b101 \<and> funct7 = SRL_FUNCT7 then
       Some (drop_bit (unat (operand_2 AND 0x1f)) operand_1)
     else if funct3 = 0b101 \<and> funct7 = SRA_FUNCT7 then
       (if SUPPORT_SRA C then Some (signed_drop_bit (unat (operand_2 AND 0x1f)) operand_1) else panic)
     else if funct3 = 0b101 \<and> funct7 = ROT_FUNCT7 then
       (if SUPPORT_ROT C then Some (rotate_right_u32 operand_1 (operand_2 AND 0x1f)) else panic)
     else if funct3 = 0b010 then Some (of_bool (sint operand_1 < sint operand_2))
     else if funct3 = 0b011 then Some (of_bool (operand_1 < operand_2))
     else if funct3 = 0b100 then Some (operand_1 XOR operand_2)
     else if funct3 = 0b110 then Some (operand_1 OR operand_2)
     else if funct3 = 0b111 then Some (operand_1 AND operand_2)
     else panic)"

text \<open>The arithmetic of a modular operation; the caller has tested \<open>funct7\<close> and the configuration.\<close>

definition mop_u :: "u8 \<Rightarrow> u32 \<Rightarrow> u32 \<Rightarrow> u32 option" where
  "mop_u funct7 rs1_value rs2_value =
    (let mop_number = drop_bit 1 (funct7 AND 0b110) OR drop_bit 5 (funct7 AND 0b100000);
         operand_1 = from_nonreduced_u32 rs1_value;
         operand_2 = from_nonreduced_u32 rs2_value
     in if mop_number = 0 then Some (to_reduced_u32 (add_mod operand_1 operand_2))
        else if mop_number = 1 then Some (to_reduced_u32 (sub_mod operand_1 operand_2))
        else if mop_number = 2 then Some (to_reduced_u32 (mul_mod operand_1 operand_2))
        else panic)"

end
