(* ===== verification/MachineV1.thy ===== *)
theory MachineV1
  imports Delegations Alu
begin

text \<open>
  The first machine (\<open>RiscV32State::cycle_ext\<close> of \<open>cycle/state.rs\<close>).  One definition per opcode of the
  big match; each ends in a \<open>flow\<close>: a trap, which skips the write-back, or a write-back with the
  destination register, the value and the program counter (the final \<open>+ 4\<close> still to be added).
\<close>

datatype 'w flow =
    Trapped trap_reason 'w
  | Writeback (wb_rd: u32) (wb_value: u32) (wb_pc: u32) (wb_world: 'w)

section \<open>Fetch\<close>

text \<open>The result is the trap, the instruction and the machine after the accesses.\<close>

definition v1_fetch ::
  "('m, 'mmu, 'nd) v1_impls \<Rightarrow> mode \<Rightarrow> ('m, 'mmu, 'nd) machine_v1
   \<Rightarrow> (trap_reason \<times> u32 \<times> ('m, 'mmu, 'nd) machine_v1) option" where
  "v1_fetch I mode w = do {
     (phys, m, tracer, trap) \<leftarrow>
       map_virtual_to_physical (i_mmu I) (v1_mmu w) (pc_of w) mode Instruction (v1_memory w) (v1_tracer w) NoTrap;
     let w = w\<lparr>v1_memory := m, v1_tracer := tracer\<rparr>;
     if is_a_trap trap then Some (trap, 0, w)
     else do {
       (instr, tracer, trap) \<leftarrow> mem_read (i_conf I) (i_ms I) m tracer phys 4 Instruction trap;
       Some (trap, instr, w\<lparr>v1_tracer := tracer\<rparr>) } }"

section \<open>Jumps and branches\<close>

definition v1_lui :: "u32 \<Rightarrow> u32 \<Rightarrow> u32 \<Rightarrow> 'w \<Rightarrow> 'w flow" where
  "v1_lui instr rd pc w = Writeback rd (UTypeOpcode_imm instr) pc w"

definition v1_auipc :: "u32 \<Rightarrow> u32 \<Rightarrow> u32 \<Rightarrow> 'w \<Rightarrow> 'w flow" where
  "v1_auipc instr rd pc w = Writeback rd (pc + UTypeOpcode_imm instr) pc w"

definition v1_jal :: "u32 \<Rightarrow> u32 \<Rightarrow> u32 \<Rightarrow> 'w \<Rightarrow> 'w flow" where
  "v1_jal instr rd pc w =
    (let rel_addr = sign_extend (JTypeOpcode_imm instr) 21;
         ret_val = pc + 4;
         jmp_addr = pc - 4 + rel_addr
     in if jmp_addr AND 3 \<noteq> 0 then Trapped InstructionAddressMisaligned w
        else Writeback rd ret_val jmp_addr w)"

definition v1_jalr :: "u32 \<Rightarrow> u32 \<Rightarrow> u32 \<Rightarrow> u32 \<Rightarrow> 'w \<Rightarrow> 'w flow" where
  "v1_jalr instr rd rs1 pc w =
    (let imm = sign_extend (ITypeOpcode_imm instr) 12;
         ret_val = pc + 4;
         jmp_addr = ((rs1 + imm) AND NOT 1) - 4
     in if jmp_addr AND 3 \<noteq> 0 then Trapped InstructionAddressMisaligned w
        else Writeback rd ret_val jmp_addr w)"

definition v1_branch :: "u32 \<Rightarrow> u32 \<Rightarrow> u32 \<Rightarrow> u32 \<Rightarrow> 'w \<Rightarrow> 'w flow" where
  "v1_branch instr rs1 rs2 pc w =
    (let imm = sign_extend (BTypeOpcode_imm instr) 13;
         dst = pc + imm - 4
     in case branch_condition (BTypeOpcode_funct3 instr) rs1 rs2 of
          None \<Rightarrow> Trapped IllegalInstruction w
        | Some should_jump \<Rightarrow>
            if should_jump then
              (if dst AND 3 \<noteq> 0 then Trapped InstructionAddressMisaligned w
               else Writeback 0 0 dst w)
            else Writeback 0 0 pc w)"

section \<open>Loads and stores\<close>

definition load_num_bytes :: "u32 \<Rightarrow> nat" where
  "load_num_bytes funct3 =
    (if funct3 = 0 \<or> funct3 = 4 then 1 else if funct3 = 1 \<or> funct3 = 5 then 2 else 4)"

definition load_extend :: "machine_config \<Rightarrow> u32 \<Rightarrow> u32 \<Rightarrow> u32 option" where
  "load_extend C funct3 operand =
    (if SUPPORT_SIGNED_LOAD C then
       (if funct3 = 0 then Some (sign_extend_8 operand)
        else if funct3 = 1 then Some (sign_extend_16 operand)
        else if funct3 = 2 then Some operand
        else if funct3 = 4 then Some (zero_extend_8 operand)
        else Some (zero_extend_16 operand))
     else
       (if funct3 = 0 then None
        else if funct3 = 1 then None
        else if funct3 = 2 then Some operand
        else if funct3 = 4 then Some (zero_extend_8 operand)
        else Some (zero_extend_16 operand)))"

definition v1_load ::
  "('m, 'mmu, 'nd) v1_impls \<Rightarrow> u32 \<Rightarrow> u32 \<Rightarrow> u32 \<Rightarrow> mode \<Rightarrow> u32 \<Rightarrow> ('m, 'mmu, 'nd) machine_v1
   \<Rightarrow> ('m, 'mmu, 'nd) machine_v1 flow option" where
  "v1_load I instr rd rs1 mode pc w = do {
     let imm = sign_extend (ITypeOpcode_imm instr) 12;
     let virtual_address = rs1 + imm;
     (phys, m, tracer, trap) \<leftarrow>
       map_virtual_to_physical (i_mmu I) (v1_mmu w) virtual_address mode MemLoad (v1_memory w) (v1_tracer w) NoTrap;
     let w = w\<lparr>v1_memory := m, v1_tracer := tracer\<rparr>;
     if is_a_trap trap then Some (Trapped trap w)
     else do {
       let funct3 = ITypeOpcode_funct3 instr;
       if funct3 \<in> set [0, 1, 2, 4, 5] then do {
         (operand, tracer, trap) \<leftarrow>
           mem_read (i_conf I) (i_ms I) m tracer phys (load_num_bytes funct3) MemLoad trap;
         let w = w\<lparr>v1_tracer := tracer\<rparr>;
         if is_a_trap trap then Some (Trapped trap w)
         else case load_extend (i_conf I) funct3 operand of
             None \<Rightarrow> Some (Trapped IllegalInstruction w)
           | Some ret_val \<Rightarrow> Some (Writeback rd ret_val pc w) }
       else Some (Trapped IllegalInstruction w) } }"

definition v1_store ::
  "('m, 'mmu, 'nd) v1_impls \<Rightarrow> u32 \<Rightarrow> u32 \<Rightarrow> u32 \<Rightarrow> mode \<Rightarrow> u32 \<Rightarrow> ('m, 'mmu, 'nd) machine_v1
   \<Rightarrow> ('m, 'mmu, 'nd) machine_v1 flow option" where
  "v1_store I instr rs1 rs2 mode pc w = do {
     let imm = sign_extend (STypeOpcode_imm instr) 12;
     let virtual_address = imm + rs1;
     (phys, m, tracer, trap) \<leftarrow>
       map_virtual_to_physical (i_mmu I) (v1_mmu w) virtual_address mode MemStore (v1_memory w) (v1_tracer w) NoTrap;
     let w = w\<lparr>v1_memory := m, v1_tracer := tracer\<rparr>;
     if is_a_trap trap then Some (Trapped trap w)
     else do {
       let funct3 = STypeOpcode_funct3 instr;
       if funct3 \<in> set [0, 1, 2] then do {
         let store_length = 2 ^ unat funct3;
         (m, tracer, trap) \<leftarrow> mem_write (i_conf I) (i_ms I) m tracer phys rs2 store_length trap;
         let w = w\<lparr>v1_memory := m, v1_tracer := tracer\<rparr>;
         if is_a_trap trap then Some (Trapped trap w)
         else Some (Writeback 0 0 pc w) }
       else Some (Trapped IllegalInstruction w) } }"

section \<open>Integer operations\<close>

definition v1_op :: "machine_config \<Rightarrow> u32 \<Rightarrow> u32 \<Rightarrow> u32 \<Rightarrow> u32 \<Rightarrow> u32 \<Rightarrow> 'w \<Rightarrow> 'w flow" where
  "v1_op C instr rd rs1 rs2 pc w =
    (let is_r_type = (instr AND 0x20 \<noteq> 0);
         operand_1 = rs1;
         operand_2 = (if is_r_type then rs2 else sign_extend (ITypeOpcode_imm instr) 12);
         funct3 = RTypeOpcode_funct3 instr;
         funct7 = RTypeOpcode_funct7 instr
     in if is_r_type \<and> funct7 = 1 then
          (case m_extension C funct3 operand_1 operand_2 of
             None \<Rightarrow> Trapped IllegalInstruction w
           | Some ret_val \<Rightarrow> Writeback rd ret_val pc w)
        else
          (case basic_op C instr is_r_type funct3 operand_1 operand_2 of
             None \<Rightarrow> Trapped IllegalInstruction w
           | Some ret_val \<Rightarrow>
               if valid_encoding is_r_type funct3 funct7 then Writeback rd ret_val pc w
               else Trapped IllegalInstruction w))"

section \<open>CSR instructions\<close>

definition v1_nd_read ::
  "('m, 'mmu, 'nd) v1_impls \<Rightarrow> u32 \<Rightarrow> ('m, 'mmu, 'nd) machine_v1
   \<Rightarrow> (u32 \<times> ('m, 'mmu, 'nd) machine_v1) option" where
  "v1_nd_read I rd w = do {
     (ret_val, nd) \<leftarrow>
       (if SHOULD_MOCK_READS_BEFORE_WRITES (i_nd I) then
          (if rd = 0 then Some (0, v1_nd w) else nd_read (i_nd I) (v1_nd w))
        else nd_read (i_nd I) (v1_nd w));
     Some (ret_val, trace_event_v1 (NonDeterminismRead ret_val) (w\<lparr>v1_nd := nd\<rparr>)) }"

definition v1_nd_write ::
  "('m, 'mmu, 'nd) v1_impls \<Rightarrow> u32 \<Rightarrow> u32 \<Rightarrow> ('m, 'mmu, 'nd) machine_v1
   \<Rightarrow> ('m, 'mmu, 'nd) machine_v1 option" where
  "v1_nd_write I rs1_as_imm write_val w =
    (if SHOULD_IGNORE_WRITES_AFTER_READS (i_nd I) \<and> rs1_as_imm = 0 then Some w
     else do {
       nd \<leftarrow> nd_write_with_memory_access (i_nd I) (v1_nd w) (v1_memory w) write_val;
       Some (w\<lparr>v1_nd := nd\<rparr>) })"

definition csr_write_value :: "machine_config \<Rightarrow> u32 \<Rightarrow> u32 \<Rightarrow> u32 \<Rightarrow> u32 \<Rightarrow> u32 option" where
  "csr_write_value C funct3 rs1 rs1_as_imm ret_val =
    (if \<not> SUPPORT_ONLY_CSRRW C then
       (if funct3 = 1 then Some rs1
        else if funct3 = 2 then Some (ret_val OR rs1)
        else if funct3 = 3 then Some (ret_val AND NOT rs1)
        else if funct3 = 5 then Some rs1_as_imm
        else if funct3 = 6 then Some (ret_val OR rs1_as_imm)
        else if funct3 = 7 then Some (ret_val AND NOT rs1_as_imm)
        else None)
     else if funct3 = 1 then Some rs1
     else None)"

text \<open>Reads and writes of the custom CSRs, shared by the two arms of \<open>SUPPORT_STANDARD_CSRS\<close>.\<close>

definition v1_custom_csr_read ::
  "('m, 'mmu, 'nd) v1_impls \<Rightarrow> ('m, 'mmu, 'nd) csr_processor \<Rightarrow> u32 \<Rightarrow> u32 \<Rightarrow> u32 \<Rightarrow> u32
   \<Rightarrow> ('m, 'mmu, 'nd) machine_v1 \<Rightarrow> (u32 \<times> trap_reason \<times> ('m, 'mmu, 'nd) machine_v1) option" where
  "v1_custom_csr_read I csr csr_number rd rs1 rs1_as_imm w =
    (if csr_number = NON_DETERMINISM_CSR then do {
       (ret_val, w) \<leftarrow> v1_nd_read I rd w;
       Some (ret_val, NoTrap, w) }
     else if csr_number = MARKER_CSR then Some (0, NoTrap, w)
     else do {
       rust_assert (csr_number \<in> set (ALLOWED_DELEGATION_CSRS (i_conf I)));
       process_read csr csr_number rs1 rs1_as_imm w NoTrap })"

definition v1_custom_csr_write ::
  "('m, 'mmu, 'nd) v1_impls \<Rightarrow> ('m, 'mmu, 'nd) csr_processor \<Rightarrow> u32 \<Rightarrow> u32 \<Rightarrow> u32 \<Rightarrow> u32
   \<Rightarrow> ('m, 'mmu, 'nd) machine_v1 \<Rightarrow> (trap_reason \<times> ('m, 'mmu, 'nd) machine_v1) option" where
  "v1_custom_csr_write I csr csr_number rs1 rs1_as_imm write_val w =
    (if csr_number = NON_DETERMINISM_CSR then do {
       w \<leftarrow> v1_nd_write I rs1_as_imm write_val w;
       Some (NoTrap, w) }
     else if csr_number = MARKER_CSR then Some (NoTrap, w)
     else do {
       rust_assert (csr_number \<in> set (ALLOWED_DELEGATION_CSRS (i_conf I)));
       process_write csr csr_number rs1 rs1_as_imm w NoTrap })"

definition v1_standard_csr_read ::
  "('m, 'mmu, 'nd) v1_impls \<Rightarrow> ('m, 'mmu, 'nd) csr_processor \<Rightarrow> mode \<Rightarrow> u32 \<Rightarrow> u32 \<Rightarrow> u32 \<Rightarrow> u32
   \<Rightarrow> ('m, 'mmu, 'nd) machine_v1 \<Rightarrow> (u32 \<times> trap_reason \<times> ('m, 'mmu, 'nd) machine_v1) option" where
  "v1_standard_csr_read I csr mode csr_number rd rs1 rs1_as_imm w =
    (let d = machine_mode_trap_data (v1_state w) in
     if csr_number = 0x180 then
       (case read_sapt (i_mmu I) (v1_mmu w) mode NoTrap of
          (ret_val, mmu, trap) \<Rightarrow> Some (ret_val, trap, w\<lparr>v1_mmu := mmu\<rparr>))
     else if csr_number = 0x300 then Some (status (trap_state d), NoTrap, w)
     else if csr_number = 0x304 then Some (ie (trap_state d), NoTrap, w)
     else if csr_number = 0x305 then Some (tvec (trap_setup d), NoTrap, w)
     else if csr_number = 0x340 then Some (scratch (trap_handling d), NoTrap, w)
     else if csr_number = 0x341 then Some (epc (trap_handling d), NoTrap, w)
     else if csr_number = 0x342 then Some (cause (trap_handling d), NoTrap, w)
     else if csr_number = 0x343 then Some (tval (trap_handling d), NoTrap, w)
     else if csr_number = 0x344 then Some (ip (trap_state d), NoTrap, w)
     else v1_custom_csr_read I csr csr_number rd rs1 rs1_as_imm w)"

definition put_trap_data ::
  "(mode_status_and_trap_registers \<Rightarrow> mode_status_and_trap_registers) \<Rightarrow> ('m, 'mmu, 'nd) machine_v1
   \<Rightarrow> ('m, 'mmu, 'nd) machine_v1" where
  "put_trap_data f w =
     w\<lparr>v1_state := (v1_state w)\<lparr>machine_mode_trap_data := f (machine_mode_trap_data (v1_state w))\<rparr>\<rparr>"

definition v1_standard_csr_write ::
  "('m, 'mmu, 'nd) v1_impls \<Rightarrow> ('m, 'mmu, 'nd) csr_processor \<Rightarrow> mode \<Rightarrow> u32 \<Rightarrow> u32 \<Rightarrow> u32 \<Rightarrow> u32
   \<Rightarrow> ('m, 'mmu, 'nd) machine_v1 \<Rightarrow> (trap_reason \<times> ('m, 'mmu, 'nd) machine_v1) option" where
  "v1_standard_csr_write I csr mode csr_number rs1 rs1_as_imm write_val w =
    (if csr_number = 0x180 then
       (case write_sapt (i_mmu I) (v1_mmu w) write_val mode NoTrap of
          (mmu, trap) \<Rightarrow> Some (trap, w\<lparr>v1_mmu := mmu\<rparr>))
     else if csr_number = 0x300 then
       Some (NoTrap, put_trap_data (\<lambda>d. d\<lparr>trap_state := (trap_state d)\<lparr>status := write_val\<rparr>\<rparr>) w)
     else if csr_number = 0x304 then
       Some (NoTrap, put_trap_data (\<lambda>d. d\<lparr>trap_state := (trap_state d)\<lparr>ie := write_val\<rparr>\<rparr>) w)
     else if csr_number = 0x305 then
       Some (NoTrap, put_trap_data (\<lambda>d. d\<lparr>trap_setup := (trap_setup d)\<lparr>tvec := write_val\<rparr>\<rparr>) w)
     else if csr_number = 0x340 then
       Some (NoTrap, put_trap_data (\<lambda>d. d\<lparr>trap_handling := (trap_handling d)\<lparr>scratch := write_val\<rparr>\<rparr>) w)
     else if csr_number = 0x341 then
       Some (NoTrap, put_trap_data (\<lambda>d. d\<lparr>trap_handling := (trap_handling d)\<lparr>epc := write_val\<rparr>\<rparr>) w)
     else if csr_number = 0x342 then
       Some (NoTrap, put_trap_data (\<lambda>d. d\<lparr>trap_handling := (trap_handling d)\<lparr>cause := write_val\<rparr>\<rparr>) w)
     else if csr_number = 0x343 then
       Some (NoTrap, put_trap_data (\<lambda>d. d\<lparr>trap_handling := (trap_handling d)\<lparr>tval := write_val\<rparr>\<rparr>) w)
     else if csr_number = 0x344 then
       Some (NoTrap, put_trap_data (\<lambda>d. d\<lparr>trap_state := (trap_state d)\<lparr>ip := write_val\<rparr>\<rparr>) w)
     else v1_custom_csr_write I csr csr_number rs1 rs1_as_imm write_val w)"

definition v1_zicsr ::
  "('m, 'mmu, 'nd) v1_impls \<Rightarrow> ('m, 'mmu, 'nd) csr_processor \<Rightarrow> u32 \<Rightarrow> u32 \<Rightarrow> u32 \<Rightarrow> mode \<Rightarrow> u32
   \<Rightarrow> ('m, 'mmu, 'nd) machine_v1 \<Rightarrow> ('m, 'mmu, 'nd) machine_v1 flow option" where
  "v1_zicsr I csr instr rd rs1 mode pc w = do {
     let funct3 = ITypeOpcode_funct3 instr;
     let csr_number = ITypeOpcode_imm instr;
     csr_privilege_mode \<leftarrow> Mode_from_proper_bit_value (get_bits_and_align_right csr_number 8 2);
     if Mode_as_register_value csr_privilege_mode > Mode_as_register_value mode then
       Some (Trapped IllegalInstruction w)
     else do {
       let rs1_as_imm = ITypeOpcode_rs1 instr;
       let standard = SUPPORT_STANDARD_CSRS (i_conf I);
       (ret_val, trap, w) \<leftarrow>
         (if \<not> standard then v1_custom_csr_read I csr csr_number rd rs1 rs1_as_imm w
          else v1_standard_csr_read I csr mode csr_number rd rs1 rs1_as_imm w);
       if is_a_trap trap then Some (Trapped trap w)
       else case csr_write_value (i_conf I) funct3 rs1 rs1_as_imm ret_val of
           None \<Rightarrow> Some (Trapped IllegalInstruction w)
         | Some write_val \<Rightarrow> do {
             (trap, w) \<leftarrow>
               (if \<not> standard then v1_custom_csr_write I csr csr_number rs1 rs1_as_imm write_val w
                else v1_standard_csr_write I csr mode csr_number rs1 rs1_as_imm write_val w);
             if is_a_trap trap then Some (Trapped trap w)
             else Some (Writeback rd ret_val pc w) } } }"

definition ZICSR_MASK :: u32 where "ZICSR_MASK = 3"
definition ZIMOP_MASK :: u32 where "ZIMOP_MASK = 4"

definition v1_system ::
  "('m, 'mmu, 'nd) v1_impls \<Rightarrow> ('m, 'mmu, 'nd) csr_processor \<Rightarrow> u32 \<Rightarrow> u32 \<Rightarrow> u32 \<Rightarrow> u32 \<Rightarrow> mode
   \<Rightarrow> u32 \<Rightarrow> ('m, 'mmu, 'nd) machine_v1 \<Rightarrow> ('m, 'mmu, 'nd) machine_v1 flow option" where
  "v1_system I csr instr rd rs1 rs2 mode pc w =
    (let funct3 = ITypeOpcode_funct3 instr in
     if funct3 AND ZICSR_MASK \<noteq> 0 then v1_zicsr I csr instr rd rs1 mode pc w
     else if funct3 = 0 then Some (Trapped IllegalInstruction w)
     else if funct3 AND ZIMOP_MASK = ZIMOP_MASK then
       (case mop (i_conf I) (RTypeOpcode_funct7 instr) rs1 rs2 of
          None \<Rightarrow> Some (Trapped IllegalInstruction w)
        | Some ret_val \<Rightarrow> Some (Writeback rd ret_val pc w))
     else Some (Trapped IllegalInstruction w))"

section \<open>The cycle\<close>

definition v1_execute ::
  "('m, 'mmu, 'nd) v1_impls \<Rightarrow> ('m, 'mmu, 'nd) csr_processor \<Rightarrow> u32 \<Rightarrow> u32 \<Rightarrow> u32 \<Rightarrow> u32 \<Rightarrow> mode
   \<Rightarrow> u32 \<Rightarrow> ('m, 'mmu, 'nd) machine_v1 \<Rightarrow> ('m, 'mmu, 'nd) machine_v1 flow option" where
  "v1_execute I csr instr rd rs1 rs2 mode pc w =
    (let op = instr AND 0x7f in
     if op = 0b0110111 then Some (v1_lui instr rd pc w)
     else if op = 0b0010111 then Some (v1_auipc instr rd pc w)
     else if op = 0b1101111 then Some (v1_jal instr rd pc w)
     else if op = 0b1100111 then Some (v1_jalr instr rd rs1 pc w)
     else if op = 0b1100011 then Some (v1_branch instr rs1 rs2 pc w)
     else if op = 0b0000011 then v1_load I instr rd rs1 mode pc w
     else if op = 0b0100011 then v1_store I instr rs1 rs2 mode pc w
     else if op = 0b0010011 \<or> op = 0b0110011 then Some (v1_op (i_conf I) instr rd rs1 rs2 pc w)
     else if op = 0b1110011 then v1_system I csr instr rd rs1 rs2 mode pc w
     else if op = 0b00101111 then Some (Trapped IllegalInstruction w)
     else Some (Trapped IllegalInstruction w))"

text \<open>The body of the labelled block: fetch, decode, execute, write back.  The result is the trap,
  the instruction and the program counter.\<close>

definition v1_cycle_block ::
  "('m, 'mmu, 'nd) v1_impls \<Rightarrow> ('m, 'mmu, 'nd) csr_processor \<Rightarrow> mode \<Rightarrow> ('m, 'mmu, 'nd) machine_v1
   \<Rightarrow> (trap_reason \<times> u32 \<times> u32 \<times> ('m, 'mmu, 'nd) machine_v1) option" where
  "v1_cycle_block I csr mode w = do {
     let pc = pc_of w;
     (trap, instr, w) \<leftarrow> v1_fetch I mode w;
     if is_a_trap trap then Some (trap, instr, pc, w)
     else do {
       let rd = get_rd instr;
       let (rs1, w) = get_first_register (get_formal_rs1 instr) w;
       let (rs2, w) = get_second_register (get_formal_rs2 instr) w;
       f \<leftarrow> v1_execute I csr instr rd rs1 rs2 mode pc w;
       case f of
         Trapped trap w \<Rightarrow> Some (trap, instr, pc, w)
       | Writeback rd ret_val pc w \<Rightarrow> Some (NoTrap, instr, pc + 4, set_register rd ret_val w) } }"

text \<open>Entering the trap handler.\<close>

definition v1_handle_trap ::
  "trap_reason \<Rightarrow> u32 \<Rightarrow> u32 \<Rightarrow> ('m, 'mmu, 'nd) machine_v1 \<Rightarrow> u32 \<times> ('m, 'mmu, 'nd) machine_v1" where
  "v1_handle_trap trap instr pc w =
    (let trap = TrapReason_as_register_value trap;
         (tval_new, pc) = (if trap AND INTERRUPT_MASK \<noteq> 0 then (0, pc + 4) else (instr, pc));
         w = put_trap_data (\<lambda>d. d\<lparr>trap_handling :=
           (trap_handling d)\<lparr>cause := trap, tval := tval_new, epc := pc\<rparr>\<rparr>) w;
         st = status (trap_state (machine_mode_trap_data (v1_state w)));
         mie = MStatusRegister_mie_aligned_bit st;
         st = MStatusRegister_set_mpie_to_value st mie;
         w = put_trap_data (\<lambda>d. d\<lparr>trap_state := (trap_state d)\<lparr>status := st\<rparr>\<rparr>) w;
         pc = tvec (trap_setup (machine_mode_trap_data (v1_state w)));
         w = w\<lparr>v1_state := (v1_state w)\<lparr>extra_flags := set_mode (extra_flags (v1_state w)) Machine\<rparr>\<rparr>
     in (pc, w))"

definition cycle_ext ::
  "('m, 'mmu, 'nd) v1_impls \<Rightarrow> ('m, 'mmu, 'nd) csr_processor \<Rightarrow> ('m, 'mmu, 'nd) machine_v1
   \<Rightarrow> ('m, 'mmu, 'nd) machine_v1 option" where
  "cycle_ext I csr w = do {
     let w = trace_event_v1 (AtCycleStart (v1_state w)) w;
     if get_wait_for_interrupt (extra_flags (v1_state w)) \<noteq> 0 then
       Some (trace_event_v1 (AtCycleEnd (v1_state w)) w)
     else do {
       mode \<leftarrow> get_current_mode (extra_flags (v1_state w));
       (trap, instr, pc, w) \<leftarrow> v1_cycle_block I csr mode w;
       (pc, w) \<leftarrow>
         (if is_a_trap trap then
            (if \<not> HANDLE_EXCEPTIONS (i_conf I) then panic
             else Some (v1_handle_trap trap instr pc w))
          else Some (pc, w));
       let w = put_pc pc w;
       let (sapt_value, mmu, trap) = read_sapt (i_mmu I) (v1_mmu w) mode trap;
       let w = w\<lparr>v1_mmu := mmu, v1_state := (v1_state w)\<lparr>sapt := sapt_value\<rparr>\<rparr>;
       Some (trace_event_v1 (AtCycleEnd (v1_state w)) w) } }"

text \<open>\<open>RiscV32State::cycle\<close> with the default feature \<open>delegation\<close>; also \<open>RiscV32MachineV1::cycle\<close>.\<close>

definition v1_cycle ::
  "'u u256_lib \<Rightarrow> ('m, 'mmu, 'nd) v1_impls \<Rightarrow> ('m, 'mmu, 'nd) machine_v1
   \<Rightarrow> ('m, 'mmu, 'nd) machine_v1 option" where
  "v1_cycle R I w = cycle_ext I (DelegationsCSRProcessor R (i_ms I)) w"

end
