(* ===== verification/MachineUnrolled.thy ===== *)
theory MachineUnrolled
  imports Delegations Alu
begin

text \<open>
  The machine of the unrolled prover (\<open>RiscV32StateForUnrolledProver::cycle\<close> of \<open>cycle/state_new.rs\<close>):
  machine mode only, no MMU, no traps.  One definition per opcode of the match; what the first machine
  treats as a trap is a panic here.  Every operation runs after the program counter was advanced, so
  \<open>pc\<close> is the address of the instruction and \<open>upc_of u\<close> the next one.
\<close>

record ('m, 'nd) u_impls =
  ui_conf :: machine_config
  ui_ms :: "'m memory_source"
  ui_nd :: "('m, 'nd) nd_source"

text \<open>The write-back every opcode with a destination ends with.\<close>

definition u_writeback :: "u32 \<Rightarrow> u32 \<Rightarrow> ('m, 'nd) machine_unrolled \<Rightarrow> ('m, 'nd) machine_unrolled" where
  "u_writeback rd rd_value u =
    (let (rd_old_value, u) = set_register_u rd rd_value u
     in trace_event_u (RdWrite rd rd_old_value rd_value) u)"

section \<open>Jumps and branches\<close>

definition u_lui :: "u32 \<Rightarrow> u32 \<Rightarrow> ('m, 'nd) machine_unrolled \<Rightarrow> ('m, 'nd) machine_unrolled" where
  "u_lui opcode rd u = u_writeback rd (UTypeOpcode_imm opcode) u"

definition u_auipc :: "u32 \<Rightarrow> u32 \<Rightarrow> u32 \<Rightarrow> ('m, 'nd) machine_unrolled \<Rightarrow> ('m, 'nd) machine_unrolled" where
  "u_auipc opcode rd pc u = u_writeback rd (pc + UTypeOpcode_imm opcode) u"

definition u_jal :: "u32 \<Rightarrow> u32 \<Rightarrow> u32 \<Rightarrow> ('m, 'nd) machine_unrolled \<Rightarrow> ('m, 'nd) machine_unrolled option" where
  "u_jal opcode rd pc u =
    (let imm = sign_extend (JTypeOpcode_imm opcode) 21;
         rd_value = upc_of u;
         jmp_addr = pc + imm
     in if jmp_addr AND 3 \<noteq> 0 then panic
        else Some (u_writeback rd rd_value (uput_pc jmp_addr u)))"

definition u_jalr :: "u32 \<Rightarrow> u32 \<Rightarrow> u32 \<Rightarrow> ('m, 'nd) machine_unrolled \<Rightarrow> ('m, 'nd) machine_unrolled option" where
  "u_jalr opcode rd rs1_value u =
    (let imm = sign_extend (ITypeOpcode_imm opcode) 12;
         rd_value = upc_of u;
         jmp_addr = (rs1_value + imm) AND NOT 1
     in if jmp_addr AND 3 \<noteq> 0 then panic
        else Some (u_writeback rd rd_value (uput_pc jmp_addr u)))"

definition u_branch ::
  "u32 \<Rightarrow> u8 \<Rightarrow> u32 \<Rightarrow> u32 \<Rightarrow> u32 \<Rightarrow> ('m, 'nd) machine_unrolled \<Rightarrow> ('m, 'nd) machine_unrolled option" where
  "u_branch opcode funct3 rs1_value rs2_value pc u = do {
     let imm = sign_extend (BTypeOpcode_imm opcode) 13;
     let jmp_addr = pc + imm;
     should_jump \<leftarrow> branch_condition_u funct3 rs1_value rs2_value;
     u \<leftarrow> (if should_jump then
            (if jmp_addr AND 3 \<noteq> 0 then panic else Some (uput_pc jmp_addr u))
          else Some u);
     Some (trace_event_u (RdWrite 0 (get_register 0 u) 0) u) }"

section \<open>Integer operations\<close>

definition u_op_imm ::
  "machine_config \<Rightarrow> u32 \<Rightarrow> u32 \<Rightarrow> u8 \<Rightarrow> u8 \<Rightarrow> u32 \<Rightarrow> ('m, 'nd) machine_unrolled
   \<Rightarrow> ('m, 'nd) machine_unrolled option" where
  "u_op_imm C opcode rd funct3 funct7 rs1_value u = do {
     let imm = sign_extend (ITypeOpcode_imm opcode) 12;
     rd_value \<leftarrow> op_imm_u C funct3 funct7 rs1_value imm;
     Some (u_writeback rd rd_value u) }"

definition u_op ::
  "machine_config \<Rightarrow> u32 \<Rightarrow> u8 \<Rightarrow> u8 \<Rightarrow> u32 \<Rightarrow> u32 \<Rightarrow> ('m, 'nd) machine_unrolled
   \<Rightarrow> ('m, 'nd) machine_unrolled option" where
  "u_op C rd funct3 funct7 rs1_value rs2_value u = do {
     rd_value \<leftarrow>
       (if funct7 = M_EXT_FUNCT7 then m_extension_u C funct3 rs1_value rs2_value
        else op_u C funct3 funct7 rs1_value rs2_value);
     Some (u_writeback rd rd_value u) }"

section \<open>Loads and stores\<close>

definition load_num_bytes_u :: "u8 \<Rightarrow> nat" where
  "load_num_bytes_u funct3 =
    (if funct3 = 0 \<or> funct3 = 4 then 1 else if funct3 = 1 \<or> funct3 = 5 then 2 else 4)"

definition load_extend_u :: "machine_config \<Rightarrow> u8 \<Rightarrow> u32 \<Rightarrow> u32 option" where
  "load_extend_u C funct3 ram_read_value =
    (if SUPPORT_SIGNED_LOAD C then
       (if funct3 = 0 then Some (sign_extend_8 ram_read_value)
        else if funct3 = 1 then Some (sign_extend_16 ram_read_value)
        else if funct3 = 2 then Some ram_read_value
        else if funct3 = 4 then Some (zero_extend_8 ram_read_value)
        else Some (zero_extend_16 ram_read_value))
     else
       (if funct3 = 0 \<or> funct3 = 1 then panic
        else if funct3 = 2 then Some ram_read_value
        else if funct3 = 4 then Some (zero_extend_8 ram_read_value)
        else Some (zero_extend_16 ram_read_value)))"

definition u_load ::
  "('m, 'nd) u_impls \<Rightarrow> u32 \<Rightarrow> u32 \<Rightarrow> u8 \<Rightarrow> u32 \<Rightarrow> ('m, 'nd) machine_unrolled
   \<Rightarrow> ('m, 'nd) machine_unrolled option" where
  "u_load I opcode rd funct3 rs1_value u = do {
     let imm = sign_extend (ITypeOpcode_imm opcode) 12;
     let load_address = rs1_value + imm;
     if funct3 \<in> set [0, 1, 2, 4, 5] then do {
       (aligned_ram_read_value, ram_read_value) \<leftarrow>
         mem_read_noexcept (ui_conf I) (ui_ms I) (u_memory u) (ucast load_address) (load_num_bytes_u funct3);
       let u = trace_event_u (RamRead (ucast (load_address AND NOT 3)) aligned_ram_read_value) u;
       rd_value \<leftarrow> load_extend_u (ui_conf I) funct3 ram_read_value;
       Some (u_writeback rd rd_value u) }
     else panic }"

definition u_store ::
  "('m, 'nd) u_impls \<Rightarrow> u32 \<Rightarrow> u8 \<Rightarrow> u32 \<Rightarrow> u32 \<Rightarrow> ('m, 'nd) machine_unrolled
   \<Rightarrow> ('m, 'nd) machine_unrolled option" where
  "u_store I opcode funct3 rs1_value rs2_value u = do {
     let imm = sign_extend (STypeOpcode_imm opcode) 12;
     let store_address = rs1_value + imm;
     if funct3 \<in> set [0, 1, 2] then do {
       let store_length = 2 ^ unat funct3;
       ((aligned_ram_old_value, aligned_ram_write_value), m) \<leftarrow>
         mem_write_noexcept (ui_conf I) (ui_ms I) (u_memory u) (ucast store_address) rs2_value store_length;
       Some (trace_event_u
         (RamReadWrite (ucast (store_address AND NOT 3)) aligned_ram_old_value aligned_ram_write_value)
         (u\<lparr>u_memory := m\<rparr>)) }
     else panic }"

section \<open>System instructions\<close>

definition u_csr_read ::
  "('m, 'nd) u_impls \<Rightarrow> u32 \<Rightarrow> u32 \<Rightarrow> ('m, 'nd) machine_unrolled \<Rightarrow> (u32 \<times> ('m, 'nd) machine_unrolled) option" where
  "u_csr_read I csr_number rd u =
    (if csr_number = NON_DETERMINISM_CSR then do {
       (rd_value, nd) \<leftarrow>
         (if SHOULD_MOCK_READS_BEFORE_WRITES (ui_nd I) then
            (if rd = 0 then Some (0, u_nd u) else nd_read (ui_nd I) (u_nd u))
          else nd_read (ui_nd I) (u_nd u));
       Some (rd_value, trace_event_u (NonDeterminismRead rd_value) (u\<lparr>u_nd := nd\<rparr>)) }
     else Some (0, u))"

text \<open>The result carries \<open>delegation_type\<close>.\<close>

definition u_csr_write ::
  "('m, 'nd) u_impls \<Rightarrow> ('m, 'nd) delegation_csr_processor \<Rightarrow> u32 \<Rightarrow> u8 \<Rightarrow> u32
   \<Rightarrow> ('m, 'nd) machine_unrolled \<Rightarrow> (u16 \<times> ('m, 'nd) machine_unrolled) option" where
  "u_csr_write I csr csr_number formal_rs1 rs1_value u =
    (if csr_number = NON_DETERMINISM_CSR then do {
       u \<leftarrow> (if SHOULD_IGNORE_WRITES_AFTER_READS (ui_nd I) \<and> formal_rs1 = 0 then Some u
            else do {
              nd \<leftarrow> nd_write_with_memory_access (ui_nd I) (u_nd u) (u_memory u) rs1_value;
              Some (u\<lparr>u_nd := nd\<rparr>) });
       Some (ucast NON_DETERMINISM_CSR, trace_event_u (NonDeterminismWrite rs1_value) u) }
     else if csr_number = MARKER_CSR then Some (0, u)
     else do {
       u \<leftarrow> csr (ucast csr_number) u;
       Some (ucast csr_number, u) })"

definition ZIMOP_FUNCT3 :: u8 where "ZIMOP_FUNCT3 = 0b100"
definition MOP_FUNCT7_TEST_u8 :: u8 where "MOP_FUNCT7_TEST_u8 = 0b1000001"

definition u_zicsr ::
  "('m, 'nd) u_impls \<Rightarrow> ('m, 'nd) delegation_csr_processor \<Rightarrow> u32 \<Rightarrow> u32 \<Rightarrow> u8 \<Rightarrow> u8 \<Rightarrow> u32
   \<Rightarrow> ('m, 'nd) machine_unrolled \<Rightarrow> ('m, 'nd) machine_unrolled option" where
  "u_zicsr I csr opcode rd formal_rs1 funct3 rs1_value u = do {
     rust_assert (\<not> SUPPORT_STANDARD_CSRS (ui_conf I));
     rust_assert (SUPPORT_ONLY_CSRRW (ui_conf I));
     let csr_number = ITypeOpcode_imm opcode;
     (rd_value, u) \<leftarrow> u_csr_read I csr_number rd u;
     rust_assert (funct3 = 0b001);
     (delegation_type, u) \<leftarrow> u_csr_write I csr csr_number formal_rs1 rs1_value u;
     rust_assert (delegation_type \<noteq> ucast NON_DETERMINISM_CSR \<longrightarrow> rd_value = 0);
     Some (u_writeback rd rd_value u) }"

definition u_system ::
  "('m, 'nd) u_impls \<Rightarrow> ('m, 'nd) delegation_csr_processor \<Rightarrow> u32 \<Rightarrow> u32 \<Rightarrow> u8 \<Rightarrow> u8 \<Rightarrow> u8 \<Rightarrow> u32 \<Rightarrow> u32
   \<Rightarrow> ('m, 'nd) machine_unrolled \<Rightarrow> ('m, 'nd) machine_unrolled option" where
  "u_system I csr opcode rd formal_rs1 funct3 funct7 rs1_value rs2_value u =
    (if funct3 = ZIMOP_FUNCT3 then
       (if SUPPORT_MOPS (ui_conf I) \<and> funct7 AND MOP_FUNCT7_TEST_u8 = MOP_FUNCT7_TEST_u8 then do {
          rd_value \<leftarrow> mop_u funct7 rs1_value rs2_value;
          Some (u_writeback rd rd_value u) }
        else Some u)
     else if funct3 AND 3 \<noteq> 0 then u_zicsr I csr opcode rd formal_rs1 funct3 rs1_value u
     else panic)"

section \<open>The cycle\<close>

definition u_execute ::
  "('m, 'nd) u_impls \<Rightarrow> ('m, 'nd) delegation_csr_processor \<Rightarrow> u32 \<Rightarrow> u32 \<Rightarrow> u32 \<Rightarrow> u32
   \<Rightarrow> ('m, 'nd) machine_unrolled \<Rightarrow> ('m, 'nd) machine_unrolled option" where
  "u_execute I csr opcode pc rs1_value rs2_value u =
    (let rd = ucast (get_rd_bits opcode);
         formal_rs1 = get_formal_rs1_bits opcode;
         op = get_opcode_bits opcode;
         funct3 = funct3_bits opcode;
         funct7 = funct7_bits opcode
     in if op = OPCODE_LUI then Some (u_lui opcode rd u)
        else if op = OPCODE_AUIPC then Some (u_auipc opcode rd pc u)
        else if op = OPCODE_JAL then u_jal opcode rd pc u
        else if op = OPCODE_JALR then u_jalr opcode rd rs1_value u
        else if op = OPCODE_BRANCH then u_branch opcode funct3 rs1_value rs2_value pc u
        else if op = OP_IMM_SUBMASK then u_op_imm (ui_conf I) opcode rd funct3 funct7 rs1_value u
        else if op = OP_SUBMASK then u_op (ui_conf I) rd funct3 funct7 rs1_value rs2_value u
        else if op = OPCODE_LOAD then u_load I opcode rd funct3 rs1_value u
        else if op = OPCODE_STORE then u_store I opcode funct3 rs1_value rs2_value u
        else if op = OPCODE_SYSTEM then
          u_system I csr opcode rd formal_rs1 funct3 funct7 rs1_value rs2_value u
        else panic)"

definition decoder_step :: "'m memory_source \<Rightarrow> ('m, 'nd) machine_unrolled \<Rightarrow> u32 option" where
  "decoder_step ms u = opcode_read ms (upc_of u) (u_memory u)"

text \<open>The result is \<open>true\<close> when the program counter did not move.\<close>

definition u_cycle ::
  "('m, 'nd) u_impls \<Rightarrow> ('m, 'nd) delegation_csr_processor \<Rightarrow> ('m, 'nd) machine_unrolled
   \<Rightarrow> (bool \<times> ('m, 'nd) machine_unrolled) option" where
  "u_cycle I csr u = do {
     let u = trace_event_u (AtCycleStart (u_state u)) u;
     opcode \<leftarrow> decoder_step (ui_ms I) u;
     let formal_rs1 = get_formal_rs1_bits opcode;
     let formal_rs2 = get_formal_rs2_bits opcode;
     let op = get_opcode_bits opcode;
     let pc = upc_of u;
     let u = uput_pc (upc_of u + 4) u;
     let rs1_value = get_register (ucast formal_rs1) u;
     let u = trace_event_u (Rs1Read (ucast formal_rs1) rs1_value) u;
     let (rs2_value, u) =
       (if op \<noteq> OPCODE_LOAD then
          let rs2_value = get_register (ucast formal_rs2) u
          in (rs2_value, trace_event_u (Rs2Read (ucast formal_rs2) rs2_value) u)
        else (0, u));
     u \<leftarrow> u_execute I csr opcode pc rs1_value rs2_value u;
     let u = trace_event_u (AtCycleEnd (u_state u)) u;
     Some (upc_of u = pc, u) }"

fun run_cycles ::
  "('m, 'nd) u_impls \<Rightarrow> ('m, 'nd) delegation_csr_processor \<Rightarrow> nat \<Rightarrow> bool \<Rightarrow> ('m, 'nd) machine_unrolled
   \<Rightarrow> (bool \<times> ('m, 'nd) machine_unrolled) option" where
  "run_cycles I csr 0 finished_execution u = Some (finished_execution, u)"
| "run_cycles I csr (Suc num_cycles) finished_execution u = do {
     (finished, u) \<leftarrow> u_cycle I csr u;
     run_cycles I csr num_cycles (finished_execution \<or> finished) u }"

end
