(* ===== verification/Agreement.thy ===== *)
theory Agreement
  imports MachineV1 MachineUnrolled
begin

text \<open>
  The first machine and the unrolled machine decode and compute the same: the field extractions on
  \<open>u8\<close> and \<open>u32\<close>, the opcodes, and the results of every operation the first machine accepts.
\<close>

section \<open>Decoding agrees\<close>

lemma decode_fields [bits_spec]:
  "ITypeOpcode_funct3 x = take_bit 3 (drop_bit 12 x)"
  "STypeOpcode_funct3 x = take_bit 3 (drop_bit 12 x)"
  "BTypeOpcode_funct3 x = take_bit 3 (drop_bit 12 x)"
  "RTypeOpcode_funct3 x = take_bit 3 (drop_bit 12 x)"
  "RTypeOpcode_funct7 x = take_bit 7 (drop_bit 25 x)"
  "ITypeOpcode_rs1 x = take_bit 5 (drop_bit 15 x)"
  "get_formal_rs1 x = take_bit 5 (drop_bit 15 x)"
  "get_formal_rs2 x = take_bit 5 (drop_bit 20 x)"
  "ITypeOpcode_imm x = take_bit 12 (drop_bit 20 x)"
  by (simp_all add: ITypeOpcode_funct3_def STypeOpcode_funct3_def BTypeOpcode_funct3_def
      RTypeOpcode_funct3_def RTypeOpcode_funct7_def ITypeOpcode_rs1_def get_formal_rs1_def
      get_formal_rs2_def ITypeOpcode_imm_def bits_spec and_low_mask)

lemma ucast_u8_take_bit [simp]:
  "n \<le> 8 \<Longrightarrow> (ucast (ucast (take_bit n x :: u32) :: u8) :: u32) = take_bit n x"
  by (rule bit_word_eqI) (auto simp: bit_simps)

lemma ucast_u8_eq_iff:
  assumes "n \<le> 8"
  shows "(ucast (take_bit n x :: u32) :: u8) = c \<longleftrightarrow> take_bit n x = ucast c"
proof
  assume eq: "(ucast (take_bit n x :: u32) :: u8) = c"
  show "take_bit n x = ucast c" unfolding eq [symmetric] using assms by simp
next
  have "(ucast (ucast c :: u32) :: u8) = c"
    by (rule bit_word_eqI) (auto simp: bit_simps)
  then show "take_bit n x = ucast c \<Longrightarrow> (ucast (take_bit n x :: u32) :: u8) = c"
    by simp
qed

lemma take_bit_3_cases: "take_bit 3 (x :: u32) \<in> {0, 1, 2, 3, 4, 5, 6, 7}"
  using unat_take_bit_less [of 3 x] by (auto simp: word_unat_eq_iff)


lemma opcode_eq_iff:
  "get_opcode_bits x = OPCODE_LUI \<longleftrightarrow> x AND 0x7f = 0b0110111"
  "get_opcode_bits x = OPCODE_AUIPC \<longleftrightarrow> x AND 0x7f = 0b0010111"
  "get_opcode_bits x = OPCODE_JAL \<longleftrightarrow> x AND 0x7f = 0b1101111"
  "get_opcode_bits x = OPCODE_JALR \<longleftrightarrow> x AND 0x7f = 0b1100111"
  "get_opcode_bits x = OPCODE_BRANCH \<longleftrightarrow> x AND 0x7f = 0b1100011"
  "get_opcode_bits x = OP_IMM_SUBMASK \<longleftrightarrow> x AND 0x7f = 0b0010011"
  "get_opcode_bits x = OP_SUBMASK \<longleftrightarrow> x AND 0x7f = 0b0110011"
  "get_opcode_bits x = OPCODE_LOAD \<longleftrightarrow> x AND 0x7f = 0b0000011"
  "get_opcode_bits x = OPCODE_STORE \<longleftrightarrow> x AND 0x7f = 0b0100011"
  "get_opcode_bits x = OPCODE_SYSTEM \<longleftrightarrow> x AND 0x7f = 0b1110011"
  by (simp_all add: decoder_bits_spec and_low_mask ucast_u8_eq_iff OPCODE_LUI_def OPCODE_AUIPC_def
      OPCODE_JAL_def OPCODE_JALR_def OPCODE_BRANCH_def OP_IMM_SUBMASK_def OP_SUBMASK_def
      OPCODE_LOAD_def OPCODE_STORE_def OPCODE_SYSTEM_def)

section \<open>Arithmetic agrees\<close>

lemma branch_condition_agrees:
  "branch_condition_u (ucast (take_bit 3 f)) a b = branch_condition (take_bit 3 f) a b"
  by (simp add: branch_condition_u_def branch_condition_def ucast_u8_eq_iff)

lemma m_extension_agrees:
  "m_extension_u C (ucast (take_bit 3 f)) a b = m_extension C (take_bit 3 f) a b"
  by (simp add: m_extension_u_def m_extension_def ucast_u8_eq_iff)

lemma load_agrees:
  "load_num_bytes_u (ucast (take_bit 3 f)) = load_num_bytes (take_bit 3 f)"
  "load_extend_u C (ucast (take_bit 3 f)) v = load_extend C (take_bit 3 f) v"
  by (simp_all add: load_num_bytes_u_def load_num_bytes_def load_extend_u_def load_extend_def
      ucast_u8_eq_iff)

lemma and_bits_iff:
  fixes x :: u32
  shows "n < 32 \<Longrightarrow> x AND push_bit n 1 \<noteq> 0 \<longleftrightarrow> bit x n"
    and "n < 32 \<Longrightarrow> m < 32 \<Longrightarrow> x AND (push_bit n 1 OR push_bit m 1) \<noteq> 0 \<longleftrightarrow> bit x n \<or> bit x m"
    and "n < 32 \<Longrightarrow> m < 32 \<Longrightarrow>
      x AND (push_bit n 1 OR push_bit m 1) = push_bit n 1 OR push_bit m 1 \<longleftrightarrow> bit x n \<and> bit x m"
  by (auto simp: bit_eq_iff [where 'a = "32 word"] bit_simps)

lemma funct7_masks:
  "x AND SUB_TEST_MASK \<noteq> 0 \<longleftrightarrow> bit (take_bit 7 (drop_bit 25 x)) 5"
  "x AND ARITHMETIC_SHIFT_RIGHT_TEST_MASK \<noteq> 0 \<longleftrightarrow> bit (take_bit 7 (drop_bit 25 x)) 5"
  "x AND ROTATE_MASK \<noteq> 0 \<longleftrightarrow> bit (take_bit 7 (drop_bit 25 x)) 5 \<or> bit (take_bit 7 (drop_bit 25 x)) 4"
  "x AND ROTATE_MASK = ROTATE_MASK \<longleftrightarrow> bit (take_bit 7 (drop_bit 25 x)) 5 \<and> bit (take_bit 7 (drop_bit 25 x)) 4"
  using and_bits_iff(1) [of 30 x] and_bits_iff(2,3) [of 29 30 x]
  by (auto simp: SUB_TEST_MASK_def ARITHMETIC_SHIFT_RIGHT_TEST_MASK_def ROTATE_MASK_def bit_simps)

lemma op_imm_agrees:
  assumes "basic_op C instr False (take_bit 3 f) a b = Some v"
    and "valid_encoding False (take_bit 3 f) (take_bit 7 (drop_bit 25 instr))" "\<not> SUPPORT_ROT C"
  shows "op_imm_u C (ucast (take_bit 3 f)) (ucast (take_bit 7 (drop_bit 25 instr))) a b = Some v"
  using assms take_bit_3_cases [of f]
  by (auto simp: basic_op_def valid_encoding_def op_imm_u_def ucast_u8_eq_iff funct7_masks
      SLL_FUNCT7_def SRL_FUNCT7_def SRA_FUNCT7_def split: if_splits)

lemma op_agrees:
  assumes "basic_op C instr True (take_bit 3 f) a b = Some v"
    and "valid_encoding True (take_bit 3 f) (take_bit 7 (drop_bit 25 instr))" "\<not> SUPPORT_ROT C"
  shows "op_u C (ucast (take_bit 3 f)) (ucast (take_bit 7 (drop_bit 25 instr))) a b = Some v"
  using assms take_bit_3_cases [of f]
  by (auto simp: basic_op_def valid_encoding_def op_u_def ucast_u8_eq_iff funct7_masks
      SLL_FUNCT7_def SRL_FUNCT7_def SRA_FUNCT7_def SUB_FUNCT7_def split: if_splits)

lemma mop_fields:
  fixes g :: u32
  shows "(ucast (take_bit 7 g) :: u8) AND MOP_FUNCT7_TEST_u8 = ucast (take_bit 7 (take_bit 7 g AND MOP_FUNCT7_TEST))"
    and "drop_bit 1 ((ucast (take_bit 7 g) :: u8) AND 0b110) OR drop_bit 5 ((ucast (take_bit 7 g) :: u8) AND 0b100000)
      = ucast (take_bit 7 (drop_bit 1 (take_bit 7 g AND 0b110) OR drop_bit 5 (take_bit 7 g AND 0b100000)))"
    and "take_bit 7 (take_bit 7 g AND MOP_FUNCT7_TEST) = take_bit 7 g AND MOP_FUNCT7_TEST"
    and "take_bit 7 (drop_bit 1 (take_bit 7 g AND 0b110) OR drop_bit 5 (take_bit 7 g AND 0b100000))
      = drop_bit 1 (take_bit 7 g AND 0b110) OR drop_bit 5 (take_bit 7 g AND 0b100000)"
  by (rule bit_word_eqI; auto simp: bit_simps MOP_FUNCT7_TEST_u8_def MOP_FUNCT7_TEST_def)+

lemma mop_agrees:
  assumes "mop C (take_bit 7 g) a b = Some v"
  shows "SUPPORT_MOPS C" "(ucast (take_bit 7 g) :: u8) AND MOP_FUNCT7_TEST_u8 = MOP_FUNCT7_TEST_u8"
    "mop_u (ucast (take_bit 7 g)) a b = Some v"
proof -
  show "SUPPORT_MOPS C"
    using assms by (auto simp: mop_def split: if_splits)
  have "(ucast (take_bit 7 (take_bit 7 g AND MOP_FUNCT7_TEST)) :: u8) = MOP_FUNCT7_TEST_u8"
    using assms by (auto simp: ucast_u8_eq_iff mop_fields(3) mop_def MOP_FUNCT7_TEST_u8_def
        MOP_FUNCT7_TEST_def split: if_splits)
  then show "(ucast (take_bit 7 g) :: u8) AND MOP_FUNCT7_TEST_u8 = MOP_FUNCT7_TEST_u8"
    unfolding mop_fields(1) .
  define n where "n = drop_bit 1 (take_bit 7 g AND 0b110) OR drop_bit 5 (take_bit 7 g AND 0b100000)"
  have "take_bit 7 n = n"
    unfolding n_def by (rule mop_fields(4))
  then show "mop_u (ucast (take_bit 7 g)) a b = Some v"
    using assms ucast_u8_eq_iff [of 7 n]
    unfolding mop_def mop_u_def mop_fields(2) Let_def n_def [symmetric]
    by (simp split: if_splits)
qed

end
