(* ===== verification/Refine.thy ===== *)
theory Refine
  imports Agreement
begin

text \<open>
  The unrolled machine refines the first machine: whenever a cycle of the first machine succeeds in
  machine mode without translation, the cycle of the unrolled machine succeeds and ends in the same
  registers, program counter, memory and source of non-determinism.
\<close>

section \<open>Corresponding machines\<close>

definition corresponds :: "('m, 'mmu, 'nd) machine_v1 \<Rightarrow> ('m, 'nd) machine_unrolled \<Rightarrow> bool" where
  "corresponds w u \<longleftrightarrow>
    regs_of w = uregs_of u \<and> pc_of w = upc_of u \<and> v1_memory w = u_memory u \<and> v1_nd w = u_nd u"

lemma v1_selectors [simp]:
  "v1_state (trace_event_v1 e w) = v1_state w"
  "v1_memory (trace_event_v1 e w) = v1_memory w"
  "v1_mmu (trace_event_v1 e w) = v1_mmu w"
  "v1_nd (trace_event_v1 e w) = v1_nd w"
  "regs_of (put_regs r w) = r"
  "pc_of (put_regs r w) = pc_of w"
  "extra_flags (v1_state (put_regs r w)) = extra_flags (v1_state w)"
  "v1_memory (put_regs r w) = v1_memory w"
  "v1_mmu (put_regs r w) = v1_mmu w"
  "v1_nd (put_regs r w) = v1_nd w"
  "regs_of (put_pc p w) = regs_of w"
  "pc_of (put_pc p w) = p"
  "extra_flags (v1_state (put_pc p w)) = extra_flags (v1_state w)"
  "v1_memory (put_pc p w) = v1_memory w"
  "v1_mmu (put_pc p w) = v1_mmu w"
  "v1_nd (put_pc p w) = v1_nd w"
  by (simp_all add: trace_event_v1_def put_regs_def put_pc_def)

lemma set_register_selectors [simp]:
  "regs_of (set_register i v w) = (regs_of w)[unat i := if i = 0 then 0 else v]"
  "pc_of (set_register i v w) = pc_of w"
  "extra_flags (v1_state (set_register i v w)) = extra_flags (v1_state w)"
  "v1_memory (set_register i v w) = v1_memory w"
  "v1_mmu (set_register i v w) = v1_mmu w"
  "v1_nd (set_register i v w) = v1_nd w"
  by (simp_all add: set_register_def Let_def)

lemma u_selectors [simp]:
  "u_state (trace_event_u e u) = u_state u"
  "u_memory (trace_event_u e u) = u_memory u"
  "u_nd (trace_event_u e u) = u_nd u"
  "uregs_of (uput_regs r u) = r"
  "upc_of (uput_regs r u) = upc_of u"
  "u_memory (uput_regs r u) = u_memory u"
  "u_nd (uput_regs r u) = u_nd u"
  "uregs_of (uput_pc p u) = uregs_of u"
  "upc_of (uput_pc p u) = p"
  "u_memory (uput_pc p u) = u_memory u"
  "u_nd (uput_pc p u) = u_nd u"
  by (simp_all add: trace_event_u_def uput_regs_def uput_pc_def)

lemma u_writeback_selectors [simp]:
  "uregs_of (u_writeback i v u) = (uregs_of u)[unat i := if i = 0 then 0 else v]"
  "upc_of (u_writeback i v u) = upc_of u"
  "u_memory (u_writeback i v u) = u_memory u"
  "u_nd (u_writeback i v u) = u_nd u"
  by (simp_all add: u_writeback_def set_register_u_def Let_def)

text \<open>What is left to show for an instruction: after the write-back of the first machine the two
  machines correspond.  \<open>lands w f u\<close> says so of the end \<open>f\<close> of the match and the unrolled machine
  \<open>u\<close>; the flags and the MMU of the first machine are those of \<open>w\<close>.\<close>

definition lands :: "('m, 'mmu, 'nd) machine_v1 \<Rightarrow> ('m, 'mmu, 'nd) machine_v1 flow
    \<Rightarrow> ('m, 'nd) machine_unrolled \<Rightarrow> bool" where
  "lands w f u \<longleftrightarrow> (\<exists>rd v p w'. f = Writeback rd v p w' \<and> rd < 32 \<and>
     uregs_of u = (regs_of w')[unat rd := if rd = 0 then 0 else v] \<and> upc_of u = p + 4 \<and>
     u_memory u = v1_memory w' \<and> u_nd u = v1_nd w' \<and> v1_mmu w' = v1_mmu w \<and>
     extra_flags (v1_state w') = extra_flags (v1_state w) \<and> pc_of w' = pc_of w \<and>
     length (regs_of w') = length (regs_of w) \<and> regs_of w' ! 0 = regs_of w ! 0)"

definition advanced :: "('m, 'mmu, 'nd) machine_v1 \<Rightarrow> ('m, 'nd) machine_unrolled \<Rightarrow> bool" where
  "advanced w u \<longleftrightarrow> uregs_of u = regs_of w \<and> upc_of u = pc_of w + 4 \<and>
     u_memory u = v1_memory w \<and> u_nd u = v1_nd w"

lemma low_bits_minus_4: "(x - 4 :: u32) AND 3 = x AND 3"
proof -
  have "uint (take_bit 2 (x - 4)) = uint (take_bit 2 x)"
    by (simp add: take_bit_eq_mod uint_mod_distrib uint_word_ariths(2) mod_mod_cancel)
  then have "take_bit 2 (x - 4) = take_bit 2 x"
    by (simp only: word_uint_eq_iff)
  moreover have "(3 :: u32) = mask 2"
    by (simp add: mask_eq_exp_minus_1)
  ultimately show ?thesis
    by (simp only: take_bit_eq_mask)
qed

lemma landsI:
  assumes "rd < 32" "uregs_of u' = (regs_of w)[unat rd := if rd = 0 then 0 else v]" "upc_of u' = p + 4"
    "u_memory u' = v1_memory w" "u_nd u' = v1_nd w"
  shows "lands w (Writeback rd v p w) u'"
  using assms by (auto simp: lands_def)

lemma x0_update: "regs_wf r \<Longrightarrow> r[unat (0 :: u32) := 0] = r" "regs_wf r \<Longrightarrow> r[0 := 0] = r"
  by (auto simp: regs_wf_def NUM_REGISTERS_def intro: nth_equalityI)
     (metis list_update_id)+

lemma jumps_land:
  assumes "advanced w u" "rd < 32" "regs_wf (regs_of w)"
  shows "lands w (v1_lui i rd (pc_of w) w) (u_lui i rd u)"
    and "lands w (v1_auipc i rd (pc_of w) w) (u_auipc i rd (pc_of w) u)"
    and "v1_jal i rd (pc_of w) w = Writeback a b c d \<Longrightarrow>
      \<exists>u'. u_jal i rd (pc_of w) u = Some u' \<and> lands w (v1_jal i rd (pc_of w) w) u'"
    and "v1_jalr i rd rs1 (pc_of w) w = Writeback a b c d \<Longrightarrow>
      \<exists>u'. u_jalr i rd rs1 u = Some u' \<and> lands w (v1_jalr i rd rs1 (pc_of w) w) u'"
    and "v1_branch i rs1 rs2 (pc_of w) w = Writeback a b c d \<Longrightarrow>
      \<exists>u'. u_branch i (funct3_bits i) rs1 rs2 (pc_of w) u = Some u' \<and>
        lands w (v1_branch i rs1 rs2 (pc_of w) w) u'"
proof -
  show "lands w (v1_lui i rd (pc_of w) w) (u_lui i rd u)"
    "lands w (v1_auipc i rd (pc_of w) w) (u_auipc i rd (pc_of w) u)"
    using assms unfolding v1_lui_def u_lui_def v1_auipc_def u_auipc_def
    by (auto intro!: landsI simp: advanced_def)
  show "\<exists>u'. u_jal i rd (pc_of w) u = Some u' \<and> lands w (v1_jal i rd (pc_of w) w) u'"
    if "v1_jal i rd (pc_of w) w = Writeback a b c d"
    using assms that low_bits_minus_4 [of "pc_of w + sign_extend (JTypeOpcode_imm i) 21"]
    unfolding v1_jal_def u_jal_def Let_def
    by (auto intro!: landsI simp: advanced_def algebra_simps split: if_splits)
  show "\<exists>u'. u_jalr i rd rs1 u = Some u' \<and> lands w (v1_jalr i rd rs1 (pc_of w) w) u'"
    if "v1_jalr i rd rs1 (pc_of w) w = Writeback a b c d"
    using assms that low_bits_minus_4 unfolding v1_jalr_def u_jalr_def Let_def
    by (auto intro!: landsI simp: advanced_def split: if_splits)
  show "\<exists>u'. u_branch i (funct3_bits i) rs1 rs2 (pc_of w) u = Some u' \<and>
      lands w (v1_branch i rs1 rs2 (pc_of w) w) u'"
    if "v1_branch i rs1 rs2 (pc_of w) w = Writeback a b c d"
    using assms that low_bits_minus_4
    unfolding v1_branch_def u_branch_def Let_def
    by (auto intro!: landsI simp: advanced_def decode_fields decoder_bits_spec branch_condition_agrees
        x0_update split: if_splits option.splits)
qed

lemma ops_land:
  assumes "advanced w u" "rd < 32" "v1_op C i rd rs1 rs2 (pc_of w) w = Writeback a b c d" "\<not> SUPPORT_ROT C"
  shows "i AND 0x7f = 0b0010011 \<Longrightarrow>
      \<exists>u'. u_op_imm C i rd (funct3_bits i) (funct7_bits i) rs1 u = Some u' \<and>
        lands w (v1_op C i rd rs1 rs2 (pc_of w) w) u'"
    and "i AND 0x7f = 0b0110011 \<Longrightarrow>
      \<exists>u'. u_op C rd (funct3_bits i) (funct7_bits i) rs1 rs2 u = Some u' \<and>
        lands w (v1_op C i rd rs1 rs2 (pc_of w) w) u'"
proof -
  note defs = assms(3) [unfolded v1_op_def Let_def decode_fields]
  have r: "i AND 0x20 \<noteq> 0 \<longleftrightarrow> bit i 5"
    using and_bits_iff(1) [of 5 i] by simp
  have m: "bit i 5 = bit (i AND 0x7f) 5"
    by (simp add: bit_simps)
  show "\<exists>u'. u_op_imm C i rd (funct3_bits i) (funct7_bits i) rs1 u = Some u' \<and>
      lands w (v1_op C i rd rs1 rs2 (pc_of w) w) u'" if op: "i AND 0x7f = 0b0010011"
  proof -
    have nr: "\<not> bit i 5" using m op by simp
    then obtain v where v: "basic_op C i False (take_bit 3 (drop_bit 12 i)) rs1 (sign_extend (ITypeOpcode_imm i) 12) = Some v"
      and enc: "valid_encoding False (take_bit 3 (drop_bit 12 i)) (take_bit 7 (drop_bit 25 i))"
      and f: "v1_op C i rd rs1 rs2 (pc_of w) w = Writeback rd v (pc_of w) w"
      using assms(3) by (auto simp: v1_op_def Let_def decode_fields r split: option.splits if_splits)
    then show ?thesis
      using op_imm_agrees [OF v enc assms(4)] assms(1,2)
      by (auto simp: u_op_imm_def decoder_bits_spec advanced_def intro!: landsI)
  qed
  show "\<exists>u'. u_op C rd (funct3_bits i) (funct7_bits i) rs1 rs2 u = Some u' \<and>
      lands w (v1_op C i rd rs1 rs2 (pc_of w) w) u'" if op: "i AND 0x7f = 0b0110011"
  proof -
    have nr: "bit i 5" using m op by simp
    have eq: "funct7_bits i = M_EXT_FUNCT7 \<longleftrightarrow> take_bit 7 (drop_bit 25 i) = 1"
      by (simp add: decoder_bits_spec ucast_u8_eq_iff M_EXT_FUNCT7_def)
    from nr obtain v where f: "v1_op C i rd rs1 rs2 (pc_of w) w = Writeback rd v (pc_of w) w"
      and v: "if take_bit 7 (drop_bit 25 i) = 1 then m_extension C (take_bit 3 (drop_bit 12 i)) rs1 rs2 = Some v
        else basic_op C i True (take_bit 3 (drop_bit 12 i)) rs1 rs2 = Some v \<and>
          valid_encoding True (take_bit 3 (drop_bit 12 i)) (take_bit 7 (drop_bit 25 i))"
      using assms(3) by (auto simp: v1_op_def Let_def decode_fields r split: option.splits if_splits)
    then have "(if funct7_bits i = M_EXT_FUNCT7 then m_extension_u C (funct3_bits i) rs1 rs2
        else op_u C (funct3_bits i) (funct7_bits i) rs1 rs2) = Some v"
      unfolding eq using op_agrees [OF _ _ assms(4), of i "drop_bit 12 i"]
      by (auto simp: decoder_bits_spec m_extension_agrees)
    then show ?thesis
      using f assms(1,2) by (auto simp: u_op_def advanced_def intro!: landsI)
  qed
qed

locale matching_impls = bare_mmu "i_mmu I" bare
  for I :: "('m, 'mmu, 'nd) v1_impls" and bare :: "'mmu \<Rightarrow> mode \<Rightarrow> bool" +
  fixes J :: "('m, 'nd) u_impls"
  assumes conf [simp]: "ui_conf J = i_conf I"
    and mem [simp]: "ui_ms J = i_ms I"
    and nds [simp]: "ui_nd J = i_nd I"
    and no_exceptions [simp]: "\<not> HANDLE_EXCEPTIONS (i_conf I)"
    and no_standard_csrs [simp]: "\<not> SUPPORT_STANDARD_CSRS (i_conf I)"
    and only_csrrw [simp]: "SUPPORT_ONLY_CSRRW (i_conf I)"
    and no_rotations [simp]: "\<not> SUPPORT_ROT (i_conf I)"
begin

lemma loads_land:
  assumes "advanced w u" "rd < 32" "bare (v1_mmu w) Machine"
    "v1_load I i rd rs1 Machine (pc_of w) w = Some (Writeback a b c d)"
  shows "\<exists>u'. u_load J i rd (funct3_bits i) rs1 u = Some u' \<and> lands w (Writeback a b c d) u'"
proof -
  let ?f = "take_bit 3 (drop_bit 12 i)" and ?a = "rs1 + sign_extend (ITypeOpcode_imm i) 12"
  obtain operand tr v where f: "?f \<in> {0, 1, 2, 4, 5}"
    and rd: "mem_read (i_conf I) (i_ms I) (v1_memory w) (v1_tracer w) (ucast ?a) (load_num_bytes ?f) MemLoad NoTrap
      = Some (operand, tr, NoTrap)"
    and v: "load_extend (i_conf I) ?f operand = Some v"
    and wb: "Writeback a b c d = Writeback rd v (pc_of w) (w\<lparr>v1_memory := v1_memory w, v1_tracer := tr\<rparr>)"
    using assms(3,4)
    by (auto simp: v1_load_def Let_def map_bare decode_fields panic_simps split: if_splits option.splits)
  obtain x where "mem_read_noexcept (i_conf I) (i_ms I) (v1_memory w) (ucast ?a) (load_num_bytes ?f) = Some (x, operand)"
    using mem_read_agrees [OF rd] by blast
  moreover have "funct3_bits i \<in> {0, 1, 2, 4, 5}"
    using f by (auto simp: decoder_bits_spec)
  ultimately show ?thesis
    using assms(1,2) v unfolding wb
    by (auto simp: u_load_def Let_def advanced_def decoder_bits_spec load_agrees lands_def)
qed

lemma stores_land:
  assumes "advanced w u" "bare (v1_mmu w) Machine" "regs_wf (regs_of w)"
    "v1_store I i rs1 rs2 Machine (pc_of w) w = Some (Writeback a b c d)"
  shows "\<exists>u'. u_store J i (funct3_bits i) rs1 rs2 u = Some u' \<and> lands w (Writeback a b c d) u'"
proof -
  let ?f = "take_bit 3 (drop_bit 12 i)" and ?a = "rs1 + sign_extend (STypeOpcode_imm i) 12"
  obtain m tr where f: "?f \<in> {0, 1, 2}"
    and wr: "mem_write (i_conf I) (i_ms I) (v1_memory w) (v1_tracer w) (ucast ?a) rs2 (2 ^ unat ?f) NoTrap
      = Some (m, tr, NoTrap)"
    and wb: "Writeback a b c d = Writeback 0 0 (pc_of w) (w\<lparr>v1_memory := m, v1_tracer := tr\<rparr>)"
    using assms(2,4)
    by (auto simp: v1_store_def Let_def map_bare decode_fields panic_simps add.commute split: if_splits)
  obtain x y where "mem_write_noexcept (i_conf I) (i_ms I) (v1_memory w) (ucast ?a) rs2 (2 ^ unat ?f) = Some ((x, y), m)"
    using mem_write_agrees [OF wr] by blast
  moreover have "funct3_bits i \<in> {0, 1, 2}" "unat (funct3_bits i) = unat ?f"
    using f by (auto simp: decoder_bits_spec)
  ultimately show ?thesis
    using assms(1,3) unfolding wb
    by (auto simp: u_store_def Let_def advanced_def lands_def x0_update)
qed

end

section \<open>Delegations\<close>

text \<open>A delegation changes registers and memory only, the same way on both machines.\<close>

definition same_frame :: "('m, 'mmu, 'nd) machine_v1 \<Rightarrow> ('m, 'mmu, 'nd) machine_v1 \<Rightarrow> bool" where
  "same_frame w w' \<longleftrightarrow> v1_mmu w' = v1_mmu w \<and> extra_flags (v1_state w') = extra_flags (v1_state w) \<and>
     pc_of w' = pc_of w \<and> length (regs_of w') = length (regs_of w) \<and> regs_of w' ! 0 = regs_of w ! 0"

context word_memory
begin

lemma blake2_lands:
  assumes "advanced w u" "blake2_round_function_with_extended_control ms rs1 w = Some w'"
  shows "\<exists>u'. blake2_round_function_with_extended_control_over_unrolled_state ms u = Some u' \<and>
    advanced w' u' \<and> same_frame w w'"
proof -
  obtain sa ia st ext m where
    reads: "register_indirect_read_continuous ms X10_NUM_WRITES (ucast (regs_of w ! 10)) (v1_memory w) = Some sa"
      "register_indirect_read_continuous ms X11_NUM_READS (ucast (regs_of w ! 11)) (v1_memory w) = Some ia"
    and compute: "blake2_round_compute (take 8 sa) (drop 8 sa) ia (regs_of w ! 12) (regs_of w ! 13) = Some (st, ext)"
    and writes: "write_indirect_accesses ms (ucast (regs_of w ! 10)) (st @ ext) (v1_memory w) = Some m"
    and asserts: "regs_of w ! 10 mod 128 = 0" "regs_of w ! 11 mod 4 = 0" "push_bit 21 1 \<le> regs_of w ! 10"
      "push_bit 21 1 \<le> regs_of w ! 11" "regs_of w ! 10 \<noteq> regs_of w ! 11"
    and w': "\<exists>e. w' = trace_event_v1 e (w\<lparr>v1_memory := m\<rparr>)"
    using assms(2) unfolding blake2_round_function_with_extended_control_def Let_def
    by (clarsimp simp: panic_simps) blast
  note noexc = block_read_agrees [OF reads(1)] block_read_agrees [OF reads(2)] block_writes_agree [OF writes]
  obtain e where w': "w' = trace_event_v1 e (w\<lparr>v1_memory := m\<rparr>)" using w' by blast
  from assms(1) show ?thesis
    unfolding blake2_round_function_with_extended_control_over_unrolled_state_def Let_def w'
    using asserts noexc compute by (auto simp: advanced_def same_frame_def)
qed

lemma u256_lands:
  assumes "advanced w u" "u256_ops_with_control_impl R ms rs1 w = Some w'"
  shows "\<exists>u'. u256_ops_with_control_impl_over_unrolled_state R ms u = Some u' \<and>
    advanced w' u' \<and> same_frame w w'"
proof -
  obtain aa ba res ov m where
    reads: "register_indirect_read_continuous ms 8 (ucast (regs_of w ! 10)) (v1_memory w) = Some aa"
      "register_indirect_read_continuous ms 8 (ucast (regs_of w ! 11)) (v1_memory w) = Some ba"
    and compute: "u256_ops_compute R (make_u256 R aa) (make_u256 R ba) (regs_of w ! 12) = Some (res, ov)"
    and writes: "write_indirect_accesses ms (ucast (regs_of w ! 10)) (words_of_limbs (as_limbs R res)) (v1_memory w) = Some m"
    and asserts: "regs_of w ! 10 mod 32 = 0" "regs_of w ! 11 mod 32 = 0" "push_bit 21 1 \<le> regs_of w ! 10"
      "push_bit 21 1 \<le> regs_of w ! 11" "regs_of w ! 10 \<noteq> regs_of w ! 11"
    and w': "\<exists>e. w' = trace_event_v1 e (put_regs ((regs_of w)[12 := of_bool ov]) (w\<lparr>v1_memory := m\<rparr>))"
    using assms(2) unfolding u256_ops_with_control_impl_def Let_def
    by (clarsimp simp: panic_simps) blast
  note noexc = block_read_agrees [OF reads(1)] block_read_agrees [OF reads(2)] block_writes_agree [OF writes]
  obtain e where w': "w' = trace_event_v1 e (put_regs ((regs_of w)[12 := of_bool ov]) (w\<lparr>v1_memory := m\<rparr>))"
    using w' by blast
  from assms(1) show ?thesis
    unfolding u256_ops_with_control_impl_over_unrolled_state_def Let_def w'
    using asserts noexc compute by (auto simp: advanced_def same_frame_def)
qed

end

section \<open>Machines that match\<close>

locale matching_machines = matching_impls I bare J + word_memory "i_ms I" word_at
  for I :: "('m, 'mmu, 'nd) v1_impls" and bare J word_at
begin

lemma csr_read_lands:
  assumes "advanced w u" "v1_custom_csr_read I (DelegationsCSRProcessor R (i_ms I)) n rd rs1 z w = Some (v, NoTrap, w')"
  shows "\<exists>u'. u_csr_read J n rd u = Some (v, u') \<and> advanced w' u' \<and> same_frame w w' \<and>
    regs_of w' = regs_of w \<and> (n \<noteq> NON_DETERMINISM_CSR \<longrightarrow> v = 0)"
proof (cases "n = NON_DETERMINISM_CSR")
  case True
  with assms show ?thesis
    by (auto simp: v1_custom_csr_read_def v1_nd_read_def u_csr_read_def advanced_def same_frame_def
        panic_simps split: if_splits)
next
  case False
  with assms show ?thesis
    by (auto simp: v1_custom_csr_read_def u_csr_read_def advanced_def same_frame_def panic_simps
        DelegationsCSRProcessor_def DelegationsCSRProcessor_process_read_def split: if_splits)
qed

lemma csr_write_lands:
  assumes "advanced w u" "z = take_bit 5 y" "rs1 = v"
    "v1_custom_csr_write I (DelegationsCSRProcessor R (i_ms I)) n rs1 z v w = Some (NoTrap, w')"
  shows "\<exists>u' d. u_csr_write J (DelegationsCSRProcessor_unrolled R (i_ms I)) n (ucast z) rs1 u = Some (d, u') \<and>
    advanced w' u' \<and> same_frame w w' \<and> (d \<noteq> ucast NON_DETERMINISM_CSR \<longrightarrow> n \<noteq> NON_DETERMINISM_CSR)"
proof -
  consider (nd) "n = NON_DETERMINISM_CSR" | (marker) "n = MARKER_CSR" | (csr) "n \<noteq> NON_DETERMINISM_CSR" "n \<noteq> MARKER_CSR"
    by blast
  then show ?thesis
  proof cases
    case nd
    have "(ucast z :: u8) = 0 \<longleftrightarrow> z = 0"
      using assms(2) ucast_u8_eq_iff [of 5 y 0] by simp
    with nd assms show ?thesis
      by (auto simp: v1_custom_csr_write_def v1_nd_write_def u_csr_write_def advanced_def same_frame_def
          panic_simps split: if_splits)
  next
    case marker
    with assms show ?thesis
      by (auto simp: v1_custom_csr_write_def u_csr_write_def advanced_def same_frame_def csr_ids)
  next
    case csr
    then have "process_write (DelegationsCSRProcessor R (i_ms I)) n rs1 z w NoTrap = Some (NoTrap, w')"
      using assms by (auto simp: v1_custom_csr_write_def panic_simps)
    then consider "n = BLAKE2_ROUND_FUNCTION_WITH_EXTENDED_CONTROL_ACCESS_ID"
        "blake2_round_function_with_extended_control (i_ms I) rs1 w = Some w'"
      | "n = U256_OPS_WITH_CONTROL_ACCESS_ID" "u256_ops_with_control_impl R (i_ms I) rs1 w = Some w'"
      by (auto simp: DelegationsCSRProcessor_def DelegationsCSRProcessor_process_write_def panic_simps
          split: if_splits)
    then show ?thesis
    proof cases
      case 1
      then show ?thesis
        using csr blake2_lands [OF assms(1) 1(2)]
        by (auto simp: u_csr_write_def DelegationsCSRProcessor_unrolled_def csr_ids)
    next
      case 2
      then show ?thesis
        using csr u256_lands [OF assms(1) 2(2)]
        by (auto simp: u_csr_write_def DelegationsCSRProcessor_unrolled_def csr_ids)
    qed
  qed
qed

lemma same_frame_trans: "same_frame w w' \<Longrightarrow> same_frame w' w'' \<Longrightarrow> same_frame w w''"
  by (simp add: same_frame_def)

lemma lands_writeback:
  assumes "advanced w' u" "same_frame w w'" "rd < 32" "p = pc_of w"
  shows "lands w (Writeback rd v p w') (u_writeback rd v u)"
  using assms by (auto simp: lands_def advanced_def same_frame_def)

lemma zicsr_lands:
  assumes "advanced w u" "rd < 32"
    "v1_zicsr I (DelegationsCSRProcessor R (i_ms I)) i rd rs1 Machine (pc_of w) w = Some (Writeback a b c d)"
  shows "\<exists>u'. u_zicsr J (DelegationsCSRProcessor_unrolled R (i_ms I)) i rd (get_formal_rs1_bits i)
      (funct3_bits i) rs1 u = Some u' \<and> lands w (Writeback a b c d) u'"
proof -
  let ?n = "ITypeOpcode_imm i" and ?z = "ITypeOpcode_rs1 i"
  obtain v w1 w2 where
    r: "v1_custom_csr_read I (DelegationsCSRProcessor R (i_ms I)) ?n rd rs1 ?z w = Some (v, NoTrap, w1)"
    and f: "ITypeOpcode_funct3 i = 1"
    and wr: "v1_custom_csr_write I (DelegationsCSRProcessor R (i_ms I)) ?n rs1 ?z rs1 w1 = Some (NoTrap, w2)"
    and wb: "Writeback a b c d = Writeback rd v (pc_of w) w2"
    using assms(3)
    by (auto simp: v1_zicsr_def Let_def csr_write_value_def panic_simps split: if_splits option.splits)
  obtain u1 where u1: "u_csr_read J ?n rd u = Some (v, u1)" "advanced w1 u1" "same_frame w w1"
    "?n \<noteq> NON_DETERMINISM_CSR \<longrightarrow> v = 0"
    using csr_read_lands [OF assms(1) r] by blast
  obtain u2 dt where u2: "u_csr_write J (DelegationsCSRProcessor_unrolled R (i_ms I)) ?n (ucast ?z) rs1 u1 = Some (dt, u2)"
    "advanced w2 u2" "same_frame w1 w2" "dt \<noteq> ucast NON_DETERMINISM_CSR \<longrightarrow> ?n \<noteq> NON_DETERMINISM_CSR"
    using csr_write_lands [OF u1(2) decode_fields(6) refl wr] by blast
  have "get_formal_rs1_bits i = ucast ?z" "funct3_bits i = 1"
    using f by (simp_all add: decoder_bits_spec decode_fields)
  then show ?thesis
    using u1 u2 lands_writeback [OF u2(2) same_frame_trans [OF u1(3) u2(3)] assms(2) refl]
    unfolding wb by (auto simp: u_zicsr_def)
qed

lemma system_lands:
  assumes "advanced w u" "rd < 32"
    "v1_system I (DelegationsCSRProcessor R (i_ms I)) i rd rs1 rs2 Machine (pc_of w) w = Some (Writeback a b c d)"
  shows "\<exists>u'. u_system J (DelegationsCSRProcessor_unrolled R (i_ms I)) i rd (get_formal_rs1_bits i)
      (funct3_bits i) (funct7_bits i) rs1 rs2 u = Some u' \<and> lands w (Writeback a b c d) u'"
proof -
  let ?f = "take_bit 3 (drop_bit 12 i)"
  consider (csr) "?f AND ZICSR_MASK \<noteq> 0" "funct3_bits i \<noteq> ZIMOP_FUNCT3" "funct3_bits i AND 3 \<noteq> 0"
    | (mop) "?f = 4" "funct3_bits i = ZIMOP_FUNCT3" | (other) "?f = 0"
    using take_bit_3_cases [of "drop_bit 12 i"]
    by (auto simp: decoder_bits_spec ZICSR_MASK_def ZIMOP_FUNCT3_def)
  then show ?thesis
  proof cases
    case csr
    then show ?thesis
      using assms(3) zicsr_lands [OF assms(1,2)]
      by (auto simp: v1_system_def u_system_def decode_fields)
  next
    case mop
    then obtain v where v: "mop (i_conf I) (take_bit 7 (drop_bit 25 i)) rs1 rs2 = Some v"
      and wb: "Writeback a b c d = Writeback rd v (pc_of w) w"
      using assms(3) by (auto simp: v1_system_def decode_fields ZICSR_MASK_def split: option.splits if_splits)
    show ?thesis
      using mop mop_agrees [OF v] lands_writeback [OF assms(1) _ assms(2) refl]
      unfolding wb by (auto simp: u_system_def decoder_bits_spec same_frame_def)
  next
    case other
    then show ?thesis
      using assms(3) by (auto simp: v1_system_def decode_fields)
  qed
qed

lemma execute_lands:
  assumes "advanced w u" "regs_wf (regs_of w)" "bare (v1_mmu w) Machine"
    and ex: "v1_execute I (DelegationsCSRProcessor R (i_ms I)) i (get_rd i) rs1 rs2 Machine (pc_of w) w
      = Some (Writeback a b c d)"
    and rs2: "get_opcode_bits i \<noteq> OPCODE_LOAD \<Longrightarrow> rs2' = rs2"
  shows "\<exists>u'. u_execute J (DelegationsCSRProcessor_unrolled R (i_ms I)) i (pc_of w) rs1 rs2' u = Some u' \<and>
    lands w (Writeback a b c d) u'"
proof -
  have rd: "get_rd i < 32"
    using unat_take_bit_less [of 5 "drop_bit 7 i"] by (simp add: bits_spec word_less_nat_alt)
  have rd_eq: "ucast (get_rd_bits i) = get_rd i"
    by (simp add: decoder_bits_spec get_rd_spec)
  note jl = jumps_land [OF assms(1) rd assms(2), of i]
  note unf = v1_execute_def u_execute_def opcode_eq_iff rd_eq Let_def
  let ?op = "i AND 0x7f"
  consider "?op = 0b0110111" | "?op = 0b0010111" | "?op = 0b1101111" | "?op = 0b1100111" | "?op = 0b1100011"
    | "?op = 0b0000011" | "?op = 0b0100011" | "?op = 0b0010011" | "?op = 0b0110011" | "?op = 0b1110011"
    using ex unfolding v1_execute_def Let_def by (simp split: if_splits) blast+
  then show ?thesis
  proof cases
    case 1 then show ?thesis using ex jl(1) by (simp add: unf)
  next
    case 2 then show ?thesis using ex jl(2) by (simp add: unf)
  next
    case 3 then show ?thesis using ex jl(3) by (simp add: unf)
  next
    case 4 then show ?thesis using ex jl(4) by (simp add: unf)
  next
    case 5 then show ?thesis using ex jl(5) rs2 by (simp add: unf)
  next
    case 6 then show ?thesis using ex loads_land [OF assms(1) rd assms(3)] by (simp add: unf)
  next
    case 7 then show ?thesis using ex stores_land [OF assms(1,3,2)] rs2 by (simp add: unf)
  next
    case 8 then show ?thesis using ex ops_land(1) [OF assms(1) rd _ no_rotations, of i] by (simp add: unf)
  next
    case 9 then show ?thesis using ex ops_land(2) [OF assms(1) rd _ no_rotations, of i] rs2 by (simp add: unf)
  next
    case 10 then show ?thesis using ex system_lands [OF assms(1) rd] rs2 by (simp add: unf)
  qed
qed

end

section \<open>One cycle\<close>

definition v1_ready :: "('m, 'mmu, 'nd) machine_v1 \<Rightarrow> bool" where
  "v1_ready w \<longleftrightarrow> regs_wf (regs_of w) \<and> get_wait_for_interrupt (extra_flags (v1_state w)) = 0 \<and>
     get_current_mode (extra_flags (v1_state w)) = Some Machine"

lemma regs_wf_update: "regs_wf r \<Longrightarrow> regs_wf (r[unat (i :: u32) := if i = 0 then 0 else v])"
  by (auto simp: regs_wf_def NUM_REGISTERS_def nth_list_update unat_eq_0)

lemma get_registers [simp]:
  "get_first_register i w = (regs_of w ! unat i, trace_event_v1 (Rs1Read i (regs_of w ! unat i)) w)"
  "get_second_register i w = (regs_of w ! unat i, trace_event_v1 (Rs2Read i (regs_of w ! unat i)) w)"
  by (simp_all add: get_first_register_def get_second_register_def Let_def)

lemma v1_op_Trapped: "v1_op C i rd rs1 rs2 p w = Trapped t w' \<Longrightarrow> t \<noteq> NoTrap"
  by (auto simp: v1_op_def Let_def split: if_splits option.splits)

lemma v1_jumps_Trapped:
  "v1_jal i rd p w = Trapped t w' \<Longrightarrow> t \<noteq> NoTrap"
  "v1_jalr i rd rs1 p w = Trapped t w' \<Longrightarrow> t \<noteq> NoTrap"
  "v1_branch i rs1 rs2 p w = Trapped t w' \<Longrightarrow> t \<noteq> NoTrap"
  by (auto simp: v1_jal_def v1_jalr_def v1_branch_def Let_def split: if_splits option.splits)

lemma v1_load_Trapped: "v1_load I i rd rs1 mode p w = Some (Trapped t w') \<Longrightarrow> t \<noteq> NoTrap"
  by (auto simp: v1_load_def Let_def panic_simps split: if_splits option.splits)

lemma v1_store_Trapped: "v1_store I i rs1 rs2 mode p w = Some (Trapped t w') \<Longrightarrow> t \<noteq> NoTrap"
  by (auto simp: v1_store_def Let_def panic_simps split: if_splits option.splits)

lemma v1_zicsr_Trapped: "v1_zicsr I csr i rd rs1 mode p w = Some (Trapped t w') \<Longrightarrow> t \<noteq> NoTrap"
  by (auto simp: v1_zicsr_def Let_def panic_simps split: if_splits option.splits)

lemma v1_system_Trapped: "v1_system I csr i rd rs1 rs2 mode p w = Some (Trapped t w') \<Longrightarrow> t \<noteq> NoTrap"
  by (auto simp: v1_system_def Let_def dest: v1_zicsr_Trapped split: if_splits option.splits)

lemma execute_Trapped:
  "v1_execute I csr i rd rs1 rs2 mode p w = Some (Trapped t w') \<Longrightarrow> t \<noteq> NoTrap"
  unfolding v1_execute_def Let_def
  by (auto simp: v1_lui_def v1_auipc_def dest: v1_op_Trapped v1_jumps_Trapped v1_load_Trapped
      v1_store_Trapped v1_system_Trapped split: if_splits)

context matching_machines
begin

lemma fetch_lands:
  assumes "bare (v1_mmu w) Machine" "v1_fetch I Machine w = Some (NoTrap, i, w')"
  shows "opcode_read (i_ms I) (pc_of w) (v1_memory w) = Some i"
    "v1_state w' = v1_state w" "v1_memory w' = v1_memory w" "v1_mmu w' = v1_mmu w" "v1_nd w' = v1_nd w"
  using assms by (auto simp: v1_fetch_def map_bare panic_simps opcode_read_agrees split: if_splits)

lemma cycle_SomeD:
  assumes ready: "v1_ready w" and bare: "bare (v1_mmu w) Machine" and "v1_cycle R I w = Some w'"
  shows "\<exists>i w1 rd v p w2. opcode_read (i_ms I) (pc_of w) (v1_memory w) = Some i \<and>
    v1_state w1 = v1_state w \<and> v1_memory w1 = v1_memory w \<and> v1_mmu w1 = v1_mmu w \<and> v1_nd w1 = v1_nd w \<and>
    v1_execute I (DelegationsCSRProcessor R (i_ms I)) i (get_rd i) (regs_of w ! unat (get_formal_rs1 i))
      (regs_of w ! unat (get_formal_rs2 i)) Machine (pc_of w) w1 = Some (Writeback rd v p w2) \<and>
    regs_of w' = (regs_of w2)[unat rd := if rd = 0 then 0 else v] \<and> pc_of w' = p + 4 \<and>
    v1_memory w' = v1_memory w2 \<and> v1_nd w' = v1_nd w2 \<and> v1_mmu w' = v1_mmu w2 \<and>
    extra_flags (v1_state w') = extra_flags (v1_state w2)"
proof -
  let ?w = "trace_event_v1 (AtCycleStart (v1_state w)) w"
  obtain i p w3 where blk: "v1_cycle_block I (DelegationsCSRProcessor R (i_ms I)) Machine ?w = Some (NoTrap, i, p, w3)"
    and w': "regs_of w' = regs_of w3" "pc_of w' = p" "v1_memory w' = v1_memory w3" "v1_nd w' = v1_nd w3"
      "v1_mmu w' = v1_mmu w3" "extra_flags (v1_state w') = extra_flags (v1_state w3)"
    using assms read_sapt_pure
    by (auto simp: v1_cycle_def cycle_ext_def v1_ready_def Let_def panic_simps case_prod_beta split: if_splits)
  obtain i' w1 where fe: "v1_fetch I Machine ?w = Some (NoTrap, i', w1)"
    using blk by (auto simp: v1_cycle_block_def Let_def panic_simps split: if_splits)
  let ?w1 = "snd (get_second_register (get_formal_rs2 i') (snd (get_first_register (get_formal_rs1 i') w1)))"
  note same = fetch_lands [OF _ fe, simplified, OF bare]
  obtain f where f: "v1_execute I (DelegationsCSRProcessor R (i_ms I)) i' (get_rd i') (regs_of w ! unat (get_formal_rs1 i'))
      (regs_of w ! unat (get_formal_rs2 i')) Machine (pc_of w) ?w1 = Some f"
    and cont: "(case f of Trapped trap wa \<Rightarrow> Some (trap, i', pc_of w, wa)
       | Writeback rd ret_val p w \<Rightarrow> Some (NoTrap, i', p + 4, set_register rd ret_val w)) = Some (NoTrap, i, p, w3)"
    using blk fe same by (auto simp: v1_cycle_block_def Let_def panic_simps)
  then obtain rd v q w2 where wb: "f = Writeback rd v q w2" "w3 = set_register rd v w2" "p = q + 4"
    by (cases f) (auto dest: execute_Trapped)
  show ?thesis
    using w' same f wb
    by (intro exI [of _ i'] exI [of _ ?w1] exI [of _ rd] exI [of _ v] exI [of _ q] exI [of _ w2]) simp
qed

lemma cycle_refines:
  assumes ready: "v1_ready w" and bare: "bare (v1_mmu w) Machine" and corr: "corresponds w u"
    and cyc: "v1_cycle R I w = Some w'"
  shows "\<exists>fin u'. u_cycle J (DelegationsCSRProcessor_unrolled R (i_ms I)) u = Some (fin, u') \<and>
    corresponds w' u' \<and> (fin \<longleftrightarrow> pc_of w' = pc_of w) \<and> v1_ready w' \<and> v1_mmu w' = v1_mmu w"
proof -
  obtain i w1 rd v p w2 where i: "opcode_read (i_ms I) (pc_of w) (v1_memory w) = Some i"
    and w1: "v1_state w1 = v1_state w" "v1_memory w1 = v1_memory w" "v1_mmu w1 = v1_mmu w" "v1_nd w1 = v1_nd w"
    and ex: "v1_execute I (DelegationsCSRProcessor R (i_ms I)) i (get_rd i) (regs_of w ! unat (get_formal_rs1 i))
      (regs_of w ! unat (get_formal_rs2 i)) Machine (pc_of w) w1 = Some (Writeback rd v p w2)"
    and w': "regs_of w' = (regs_of w2)[unat rd := if rd = 0 then 0 else v]" "pc_of w' = p + 4"
      "v1_memory w' = v1_memory w2" "v1_nd w' = v1_nd w2" "v1_mmu w' = v1_mmu w2"
      "extra_flags (v1_state w') = extra_flags (v1_state w2)"
    using cycle_SomeD [OF ready bare cyc] by blast
  let ?rs1 = "ucast (get_formal_rs1_bits i) :: u32" and ?rs2 = "ucast (get_formal_rs2_bits i) :: u32"
  have idx: "?rs1 = get_formal_rs1 i" "?rs2 = get_formal_rs2 i"
    by (simp_all add: decoder_bits_spec decode_fields)
  define u0 where "u0 = trace_event_u (Rs1Read ?rs1 (uregs_of u ! unat ?rs1))
    (uput_pc (upc_of u + 4) (trace_event_u (AtCycleStart (u_state u)) u))"
  define v2 where "v2 = (if get_opcode_bits i \<noteq> OPCODE_LOAD then uregs_of u ! unat ?rs2 else 0)"
  define u1 where "u1 = (if get_opcode_bits i \<noteq> OPCODE_LOAD then trace_event_u (Rs2Read ?rs2 v2) u0 else u0)"
  have adv: "advanced w1 u1"
    using corr w1 by (simp add: u1_def u0_def corresponds_def advanced_def)
  have "regs_wf (regs_of w1)" "bare (v1_mmu w1) Machine" "pc_of w1 = pc_of w"
    using w1 ready bare by (simp_all add: v1_ready_def)
  then obtain u2 where u2: "u_execute J (DelegationsCSRProcessor_unrolled R (i_ms I)) i (pc_of w)
      (regs_of w ! unat (get_formal_rs1 i)) v2 u1 = Some u2" "lands w1 (Writeback rd v p w2) u2"
    using execute_lands [OF adv, of R i _ _ rd v p w2 v2] ex corr
    by (auto simp: v2_def idx corresponds_def)
  have "u_cycle J (DelegationsCSRProcessor_unrolled R (i_ms I)) u =
      Some (upc_of u2 = pc_of w, trace_event_u (AtCycleEnd (u_state u2)) u2)"
    using i u2(1) corr unfolding u_cycle_def decoder_step_def Let_def
    by (cases "get_opcode_bits i = OPCODE_LOAD")
      (simp_all add: corresponds_def get_register_def idx u0_def u1_def v2_def)
  moreover have "corresponds w' (trace_event_u (AtCycleEnd (u_state u2)) u2)" "v1_ready w'"
    "v1_mmu w' = v1_mmu w" "upc_of u2 = pc_of w'"
    using u2(2) w' w1 ready regs_wf_update [of "regs_of w2" rd v]
    by (auto simp: lands_def corresponds_def v1_ready_def regs_wf_def)
  ultimately show ?thesis
    by auto
qed

end

context matching_machines
begin

text \<open>Forward: an instruction that runs through to its write-back in every machine that agrees with
  \<open>w\<close> up to the trace.\<close>

lemma fetch_aligned:
  assumes "bare (v1_mmu w) Machine" "unat (pc_of w) mod 4 = 0"
    "word_at (v1_memory w) (unat (pc_of w) div 4) = Some i"
  shows "\<exists>tr. v1_fetch I Machine w = Some (NoTrap, i, w\<lparr>v1_tracer := tr\<rparr>)"
proof -
  have "aligned_access (i_conf I) (ucast (pc_of w)) 4"
    "word_at (v1_memory w) (unat (ucast (pc_of w) :: u64) div 4) = Some i"
    using assms by (auto simp: aligned_access_def unalignment_of_mod supported_accesses_def)
  from mem_read_in [OF this, where acc = Instruction and tr = "v1_tracer w"]
  show ?thesis
    using assms(1,2) by (auto simp: v1_fetch_def map_bare)
qed

lemma cycle_executes:
  assumes ready: "v1_ready w" and bare: "bare (v1_mmu w) Machine"
    and pc: "unat (pc_of w) mod 4 = 0" "word_at (v1_memory w) (unat (pc_of w) div 4) = Some i"
    and ex: "\<And>w1. v1_state w1 = v1_state w \<Longrightarrow> v1_memory w1 = v1_memory w \<Longrightarrow> v1_mmu w1 = v1_mmu w \<Longrightarrow>
      \<exists>tr. v1_execute I (DelegationsCSRProcessor R (i_ms I)) i (get_rd i) (regs_of w ! unat (get_formal_rs1 i))
        (regs_of w ! unat (get_formal_rs2 i)) Machine (pc_of w) w1 =
          Some (Writeback rd v p (w1\<lparr>v1_memory := m, v1_tracer := tr\<rparr>))"
  shows "\<exists>w'. v1_cycle R I w = Some w' \<and> regs_of w' = (regs_of w)[unat rd := if rd = 0 then 0 else v] \<and>
    pc_of w' = p + 4 \<and> v1_memory w' = m \<and> v1_nd w' = v1_nd w \<and> v1_mmu w' = v1_mmu w \<and> v1_ready w'"
proof -
  let ?w = "trace_event_v1 (AtCycleStart (v1_state w)) w"
  obtain tr where fe: "v1_fetch I Machine ?w = Some (NoTrap, i, ?w\<lparr>v1_tracer := tr\<rparr>)"
    using fetch_aligned [of ?w i] bare pc by auto
  let ?w1 = "snd (get_second_register (get_formal_rs2 i) (snd (get_first_register (get_formal_rs1 i)
    (?w\<lparr>v1_tracer := tr\<rparr>))))"
  obtain tr' where ex': "v1_execute I (DelegationsCSRProcessor R (i_ms I)) i (get_rd i)
      (regs_of w ! unat (get_formal_rs1 i)) (regs_of w ! unat (get_formal_rs2 i)) Machine (pc_of w) ?w1 =
        Some (Writeback rd v p (?w1\<lparr>v1_memory := m, v1_tracer := tr'\<rparr>))"
    using ex [of ?w1] by auto
  have blk: "v1_cycle_block I (DelegationsCSRProcessor R (i_ms I)) Machine ?w =
      Some (NoTrap, i, p + 4, set_register rd v (?w1\<lparr>v1_memory := m, v1_tracer := tr'\<rparr>))"
    using fe ex' by (simp add: v1_cycle_block_def)
  show ?thesis
    using ready blk read_sapt_pure regs_wf_update [of "regs_of w" rd v]
    by (auto simp: v1_cycle_def cycle_ext_def v1_ready_def case_prod_beta Let_def)
qed

end

end
