(* ===== verification/Sim.thy ===== *)
theory Sim
  imports Refine
begin

text \<open>
  The simulator around a machine (\<open>sim/mod.rs\<close>), the setups of \<open>lib.rs\<close> and the entry points of
  \<open>runner/mod.rs\<close>.  The trait \<open>RiscV32Machine\<close> is a record of its methods; the closures called before
  and after each cycle are arguments.  Timing, printing and the profiler (absent when the
  configuration has no diagnostics) are not modelled.
\<close>

section \<open>The run loop\<close>

record 'mach machine_ops =
  mc_cycle :: "'mach \<Rightarrow> 'mach option"
  mc_state :: "'mach \<Rightarrow> observable_state"

record 'mach simulator =
  sim_machine :: 'mach
  sim_cycles :: nat
  reached_end :: bool

type_synonym 'mach hook = "'mach simulator \<Rightarrow> nat \<Rightarrow> 'mach simulator option"

record run_result =
  rr_state :: observable_state
  rr_reached_end :: bool
  rr_exec_cycles :: nat

definition Simulator_new :: "'mach \<Rightarrow> nat \<Rightarrow> 'mach simulator" where
  "Simulator_new machine cycles = \<lparr>sim_machine = machine, sim_cycles = cycles, reached_end = False\<rparr>"

text \<open>The loop over the remaining cycles; the result is \<open>end_of_execution_reached\<close>, \<open>cycles\<close> and the
  simulator.\<close>

fun run_loop ::
  "'mach machine_ops \<Rightarrow> 'mach hook \<Rightarrow> 'mach hook \<Rightarrow> nat \<Rightarrow> nat \<Rightarrow> u32 \<Rightarrow> 'mach simulator
   \<Rightarrow> (bool \<times> nat \<times> 'mach simulator) option" where
  "run_loop M fn_pre fn_post cycle 0 previous_pc sim = Some (False, 0, sim)"
| "run_loop M fn_pre fn_post cycle (Suc remaining) previous_pc sim = do {
     sim \<leftarrow> fn_pre sim cycle;
     machine \<leftarrow> mc_cycle M (sim_machine sim);
     sim \<leftarrow> fn_post (sim\<lparr>sim_machine := machine\<rparr>) cycle;
     let pc = obs_pc (mc_state M (sim_machine sim));
     if pc = previous_pc then Some (True, cycle, sim)
     else run_loop M fn_pre fn_post (cycle + 1) remaining pc sim }"

definition Simulator_run ::
  "'mach machine_ops \<Rightarrow> 'mach hook \<Rightarrow> 'mach hook \<Rightarrow> 'mach simulator \<Rightarrow> (run_result \<times> 'mach simulator) option"
  where
  "Simulator_run M fn_pre fn_post sim = do {
     rust_assert (\<not> reached_end sim);
     let previous_pc = obs_pc (mc_state M (sim_machine sim));
     (end_of_execution_reached, cycles, sim) \<leftarrow>
       run_loop M fn_pre fn_post 0 (sim_cycles sim) previous_pc sim;
     let sim = sim\<lparr>reached_end := end_of_execution_reached\<rparr>;
     Some (\<lparr>rr_state = mc_state M (sim_machine sim), rr_reached_end = reached_end sim,
            rr_exec_cycles = cycles\<rparr>, sim) }"

abbreviation no_hook :: "'mach hook" where
  "no_hook sim cycle \<equiv> Some sim"

section \<open>Machines and setups\<close>

definition v1_machine ::
  "'u u256_lib \<Rightarrow> ('m, 'mmu, 'nd) v1_impls \<Rightarrow> ('m, 'mmu, 'nd) machine_v1 machine_ops" where
  "v1_machine R I = \<lparr>mc_cycle = v1_cycle R I, mc_state = (\<lambda>w. observable (v1_state w))\<rparr>"

definition unrolled_machine ::
  "('m, 'nd) u_impls \<Rightarrow> ('m, 'nd) delegation_csr_processor \<Rightarrow> ('m, 'nd) machine_unrolled machine_ops" where
  "unrolled_machine J csr =
    \<lparr>mc_cycle = (\<lambda>u. map_option snd (u_cycle J csr u)), mc_state = (\<lambda>u. u_observable (u_state u))\<rparr>"

definition DefaultSetup_instantiate ::
  "u32 \<Rightarrow> u8 list \<Rightarrow> (vector_memory, no_mmu, quasi_uart_source) machine_v1 option" where
  "DefaultSetup_instantiate entry_point bin = with_nd entry_point QuasiUARTSource_default"

definition BaselineWithND_instantiate ::
  "'nd \<Rightarrow> u32 \<Rightarrow> u8 list \<Rightarrow> (vector_memory, no_mmu, 'nd) machine_v1 option" where
  "BaselineWithND_instantiate non_determinism_source entry_point bin = do {
     machine \<leftarrow> with_nd entry_point non_determinism_source;
     memory \<leftarrow> load_image (v1_memory machine) entry_point bin;
     Some (machine\<lparr>v1_memory := memory\<rparr>) }"

definition ProverUnrolled_instantiate ::
  "'m \<Rightarrow> unrolled_state trace \<Rightarrow> 'nd \<Rightarrow> u32 \<Rightarrow> ('m, 'nd) machine_unrolled" where
  "ProverUnrolled_instantiate memory_source memory_tracer non_determinism_source entry_point =
     Unrolled_new entry_point memory_source memory_tracer non_determinism_source"

text \<open>The implementations the setups choose.\<close>

definition baseline_impls ::
  "machine_config \<Rightarrow> (vector_memory, 'nd) nd_source \<Rightarrow> (vector_memory, no_mmu, 'nd) v1_impls" where
  "baseline_impls C nd = \<lparr>i_conf = C, i_ms = VectorMemoryImpl, i_mmu = NoMMU, i_nd = nd\<rparr>"

definition unrolled_impls ::
  "machine_config \<Rightarrow> (vector_memory, 'nd) nd_source \<Rightarrow> (vector_memory, 'nd) u_impls" where
  "unrolled_impls C nd = \<lparr>ui_conf = C, ui_ms = VectorMemoryImpl, ui_nd = nd\<rparr>"

section \<open>Entry points\<close>

definition run_simple_for_num_cycles ::
  "'u u256_lib \<Rightarrow> machine_config \<Rightarrow> (vector_memory, 'nd) nd_source \<Rightarrow> u8 list \<Rightarrow> u32 \<Rightarrow> nat \<Rightarrow> 'nd
   \<Rightarrow> run_result option" where
  "run_simple_for_num_cycles R C nd binary entry_point cycles non_determinism_source = do {
     machine \<leftarrow> BaselineWithND_instantiate non_determinism_source entry_point binary;
     (result, sim) \<leftarrow> Simulator_run (v1_machine R (baseline_impls C nd)) no_hook no_hook
       (Simulator_new machine cycles);
     Some result }"

definition run_simple_with_entry_point_and_non_determimism_source_for_config ::
  "'u u256_lib \<Rightarrow> machine_config \<Rightarrow> (vector_memory, 'nd) nd_source \<Rightarrow> u8 list \<Rightarrow> u32 \<Rightarrow> nat \<Rightarrow> 'nd
   \<Rightarrow> run_result option" where
  "run_simple_with_entry_point_and_non_determimism_source_for_config R C nd bin entry_point cycles
     non_determinism_source = do {
     machine \<leftarrow> BaselineWithND_instantiate non_determinism_source entry_point bin;
     (result, sim) \<leftarrow> Simulator_run (v1_machine R (baseline_impls C nd)) no_hook no_hook
       (Simulator_new machine cycles);
     Some result }"

definition run_simple_with_entry_point_and_non_determimism_source ::
  "'u u256_lib \<Rightarrow> (vector_memory, 'nd) nd_source \<Rightarrow> u8 list \<Rightarrow> u32 \<Rightarrow> nat \<Rightarrow> 'nd \<Rightarrow> run_result option" where
  "run_simple_with_entry_point_and_non_determimism_source R nd bin entry_point cycles source =
     run_simple_with_entry_point_and_non_determimism_source_for_config R IMStandardIsaConfig nd bin
       entry_point cycles source"

definition run_simple_with_entry_point ::
  "'u u256_lib \<Rightarrow> u8 list \<Rightarrow> u32 \<Rightarrow> nat \<Rightarrow> u32 list option" where
  "run_simple_with_entry_point R bin entry_point cycles = do {
     result \<leftarrow> run_simple_with_entry_point_and_non_determimism_source R QuasiUARTSource bin entry_point
       cycles QuasiUARTSource_default;
     Some (map ((!) (registers (rr_state result))) [10, 11, 12, 13, 14, 15, 16, 17]) }"

section \<open>State traces\<close>

type_synonym state_tracer = "observable_state list"

definition StateTracer_insert :: "state_tracer \<Rightarrow> nat \<Rightarrow> observable_state \<Rightarrow> state_tracer option" where
  "StateTracer_insert tracer i st = do {
     rust_assert (length tracer = i);
     Some (tracer @ [st]) }"

definition StateTracer_get :: "state_tracer \<Rightarrow> nat \<Rightarrow> observable_state option" where
  "StateTracer_get tracer i = (if i < length tracer then Some (tracer ! i) else None)"

text \<open>The closure of \<open>run_simulator_with_traces_for_config\<close> captures the state tracer; here it is part of
  the machine the simulator runs.\<close>

definition traced_machine :: "'mach machine_ops \<Rightarrow> ('mach \<times> state_tracer) machine_ops" where
  "traced_machine M = \<lparr>mc_cycle = (\<lambda>(m, t). map_option (\<lambda>m. (m, t)) (mc_cycle M m)),
     mc_state = (\<lambda>(m, t). mc_state M m)\<rparr>"

definition insert_state_hook :: "'mach machine_ops \<Rightarrow> ('mach \<times> state_tracer) hook" where
  "insert_state_hook M sim cycle =
    (case sim_machine sim of (m, t) \<Rightarrow> do {
       t \<leftarrow> StateTracer_insert t (cycle + 1) (mc_state M m);
       Some (sim\<lparr>sim_machine := (m, t)\<rparr>) })"

definition run_simulator_with_traces_for_config ::
  "'u u256_lib \<Rightarrow> u8 list \<Rightarrow> u32 \<Rightarrow> nat \<Rightarrow> run_result option" where
  "run_simulator_with_traces_for_config R bin entry_point cycles = do {
     machine \<leftarrow> DefaultSetup_instantiate entry_point bin;
     let M = v1_machine R (baseline_impls IMStandardIsaConfig QuasiUARTSource);
     t \<leftarrow> StateTracer_insert [] 0 (mc_state M machine);
     (result, sim) \<leftarrow> Simulator_run (traced_machine M) no_hook (insert_state_hook M)
       (Simulator_new (machine, t) cycles);
     Some result }"

section \<open>What the loop computes\<close>

fun mc_iter :: "'mach machine_ops \<Rightarrow> nat \<Rightarrow> 'mach \<Rightarrow> 'mach option" where
  "mc_iter M 0 m = Some m"
| "mc_iter M (Suc k) m = mc_cycle M m \<bind> mc_iter M k"

definition pc_at :: "'mach machine_ops \<Rightarrow> 'mach \<Rightarrow> nat \<Rightarrow> u32 option" where
  "pc_at M m k = map_option (\<lambda>m. obs_pc (mc_state M m)) (mc_iter M k m)"

text \<open>The program counter stays where it was in cycle \<open>k\<close>: the end of a program.\<close>

definition stays :: "'mach machine_ops \<Rightarrow> 'mach \<Rightarrow> nat \<Rightarrow> bool" where
  "stays M m k \<longleftrightarrow> pc_at M m (Suc k) = pc_at M m k \<and> pc_at M m k \<noteq> None"

lemma pc_at_Suc: "mc_cycle M m = Some m' \<Longrightarrow> pc_at M m (Suc k) = pc_at M m' k"
  by (simp add: pc_at_def)

lemma stays_Suc: "mc_cycle M m = Some m' \<Longrightarrow> stays M m (Suc k) = stays M m' k"
  by (simp add: stays_def pc_at_Suc)

lemma stays_0: "mc_cycle M m = Some m' \<Longrightarrow>
    stays M m 0 \<longleftrightarrow> obs_pc (mc_state M m') = obs_pc (mc_state M m)"
  by (simp add: stays_def pc_at_def)

lemma run_loop_ends:
  assumes "k < n" "stays M (sim_machine sim) k" "\<forall>i < k. \<not> stays M (sim_machine sim) i"
    "mc_iter M (Suc k) (sim_machine sim) = Some m'"
  shows "run_loop M no_hook no_hook c n (obs_pc (mc_state M (sim_machine sim))) sim =
    Some (True, c + k, sim\<lparr>sim_machine := m'\<rparr>)"
  using assms
proof (induction n arbitrary: k c sim)
  case (Suc n)
  obtain m1 where m1: "mc_cycle M (sim_machine sim) = Some m1"
    using Suc.prems(4) by (auto simp: panic_simps)
  show ?case
  proof (cases k)
    case 0
    then show ?thesis
      using Suc.prems m1 by (simp add: stays_0)
  next
    case (Suc j)
    have "\<not> stays M (sim_machine sim) 0"
      using Suc.prems(3) Suc by simp
    moreover have "\<forall>i < j. \<not> stays M m1 i"
      using Suc.prems(3) stays_Suc [OF m1] Suc by blast
    ultimately show ?thesis
      using Suc.prems m1 Suc Suc.IH [of j "sim\<lparr>sim_machine := m1\<rparr>" "c + 1"]
      by (simp add: stays_0 stays_Suc)
  qed
qed simp

lemma run_loop_exhausts:
  assumes "\<forall>i < n. \<not> stays M (sim_machine sim) i" "mc_iter M n (sim_machine sim) = Some m'"
  shows "run_loop M no_hook no_hook c n (obs_pc (mc_state M (sim_machine sim))) sim =
    Some (False, 0, sim\<lparr>sim_machine := m'\<rparr>)"
  using assms
proof (induction n arbitrary: c sim)
  case (Suc n)
  obtain m1 where m1: "mc_cycle M (sim_machine sim) = Some m1"
    using Suc.prems(2) by (auto simp: panic_simps)
  moreover have "\<not> stays M (sim_machine sim) 0" "\<forall>i < n. \<not> stays M m1 i"
    using Suc.prems(1) stays_Suc [OF m1] by auto
  ultimately show ?case
    using Suc.prems Suc.IH [of "sim\<lparr>sim_machine := m1\<rparr>" "c + 1"] by (simp add: stays_0)
qed simp

lemma mc_iter_le: "k \<le> n \<Longrightarrow> mc_iter M n m \<noteq> None \<Longrightarrow> mc_iter M k m \<noteq> None"
proof (induction n arbitrary: k m)
  case (Suc n)
  then show ?case by (cases k) (auto split: bind_splits)
qed simp

lemma run_returns:
  assumes "mc_iter M n m \<noteq> None"
  shows "\<exists>m'. Simulator_run M no_hook no_hook (Simulator_new m n) =
    (case find (stays M m) [0..<n] of
       Some k \<Rightarrow> Some (\<lparr>rr_state = mc_state M m', rr_reached_end = True, rr_exec_cycles = k\<rparr>,
           \<lparr>sim_machine = m', sim_cycles = n, reached_end = True\<rparr>)
     | None \<Rightarrow> Some (\<lparr>rr_state = mc_state M m', rr_reached_end = False, rr_exec_cycles = 0\<rparr>,
           \<lparr>sim_machine = m', sim_cycles = n, reached_end = False\<rparr>)) \<and>
    mc_iter M (case find (stays M m) [0..<n] of Some k \<Rightarrow> Suc k | None \<Rightarrow> n) m = Some m'"
proof (cases "find (stays M m) [0..<n]")
  case None
  then have no: "\<forall>i < n. \<not> stays M m i"
    by (auto simp: find_None_iff)
  obtain m' where m': "mc_iter M n m = Some m'"
    using assms by blast
  then show ?thesis
    using None run_loop_exhausts [of n M "Simulator_new m n" m' 0] no
    by (simp add: Simulator_run_def Simulator_new_def)
next
  case (Some k)
  then have k: "k < n" "stays M m k" and first: "\<forall>i < k. \<not> stays M m i"
    by (auto simp: find_Some_iff)
  obtain m' where m': "mc_iter M (Suc k) m = Some m'"
    using mc_iter_le [of "Suc k" n M m] assms k by auto
  then show ?thesis
    using Some run_loop_ends [of k n M "Simulator_new m n" m' 0] k first
    by (simp add: Simulator_run_def Simulator_new_def)
qed

section \<open>Simulation of simulators\<close>

locale machine_simulation =
  fixes M :: "'a machine_ops" and N :: "'b machine_ops" and rel :: "'a \<Rightarrow> 'b \<Rightarrow> bool"
  assumes cycle_sim: "rel m n \<Longrightarrow> mc_cycle M m = Some m' \<Longrightarrow> \<exists>n'. mc_cycle N n = Some n' \<and> rel m' n'"
    and state_sim: "rel m n \<Longrightarrow> mc_state N n = mc_state M m"
begin

lemma run_loop_sim:
  assumes "rel (sim_machine s) (sim_machine t)"
    "run_loop M no_hook no_hook c n p s = Some (e, k, s')"
  shows "\<exists>n'. run_loop N no_hook no_hook c n p t = Some (e, k, t\<lparr>sim_machine := n'\<rparr>) \<and>
    rel (sim_machine s') n' \<and> s' = s\<lparr>sim_machine := sim_machine s'\<rparr>"
  using assms
proof (induction n arbitrary: c p s t)
  case 0
  then show ?case
    by (intro exI [of _ "sim_machine t"]) auto
next
  case (Suc n)
  obtain m1 where m1: "mc_cycle M (sim_machine s) = Some m1"
    using Suc.prems(2) by (auto simp: panic_simps)
  then obtain n1 where n1: "mc_cycle N (sim_machine t) = Some n1" "rel m1 n1"
    using cycle_sim [OF Suc.prems(1)] by blast
  show ?case
  proof (cases "obs_pc (mc_state M m1) = p")
    case True
    then show ?thesis
      using Suc.prems(2) m1 n1 state_sim [OF n1(2)] by auto
  next
    case False
    then have "run_loop M no_hook no_hook (c + 1) n (obs_pc (mc_state M m1)) (s\<lparr>sim_machine := m1\<rparr>) = Some (e, k, s')"
      using Suc.prems(2) m1 by simp
    from Suc.IH [OF _ this, of "t\<lparr>sim_machine := n1\<rparr>"] n1(2) obtain n' where
      "run_loop N no_hook no_hook (c + 1) n (obs_pc (mc_state M m1)) (t\<lparr>sim_machine := n1\<rparr>)
         = Some (e, k, t\<lparr>sim_machine := n'\<rparr>)" "rel (sim_machine s') n'"
      "s' = (s\<lparr>sim_machine := m1\<rparr>)\<lparr>sim_machine := sim_machine s'\<rparr>"
      by auto
    then show ?thesis
      using m1 n1 False state_sim [OF n1(2)] by auto
  qed
qed

lemma run_sim:
  assumes "rel m n" "Simulator_run M no_hook no_hook (Simulator_new m cycles) = Some (res, s)"
  shows "\<exists>t. Simulator_run N no_hook no_hook (Simulator_new n cycles) = Some (res, t) \<and>
    rel (sim_machine s) (sim_machine t)"
proof -
  let ?s = "Simulator_new m cycles" and ?t = "Simulator_new n cycles"
  obtain e k s' where loop: "run_loop M no_hook no_hook 0 cycles (obs_pc (mc_state M m)) ?s = Some (e, k, s')"
    and res: "res = \<lparr>rr_state = mc_state M (sim_machine s'), rr_reached_end = e, rr_exec_cycles = k\<rparr>"
      "s = s'\<lparr>reached_end := e\<rparr>"
    using assms(2) by (auto simp: Simulator_run_def Simulator_new_def panic_simps)
  obtain n' where "run_loop N no_hook no_hook 0 cycles (obs_pc (mc_state M m)) ?t = Some (e, k, ?t\<lparr>sim_machine := n'\<rparr>)"
    "rel (sim_machine s') n'"
    using run_loop_sim [OF _ loop, of ?t] assms(1) by (auto simp: Simulator_new_def)
  then show ?thesis
    using res state_sim assms(1) by (auto simp: Simulator_run_def Simulator_new_def)
qed

end

section \<open>The two machines under the simulator\<close>

definition isa_configs :: "machine_config list" where
  "isa_configs = [IMStandardIsaConfig, IMWithoutSignedMulDivIsaConfig,
     IWithoutByteAccessIsaConfigWithDelegation, IWithoutByteAccessIsaConfig, IMIsaConfigWithAllDelegations]"

lemma matching_setups:
  assumes "C \<in> set isa_configs"
  shows "matching_machines (baseline_impls C nd) (\<lambda>_ _. True) (unrolled_impls C nd) vector_word_at"
  using assms vm.word_memory_axioms nommu.bare_mmu_axioms
  by (auto simp: matching_machines_def matching_impls_def matching_impls_axioms_def baseline_impls_def
      unrolled_impls_def isa_configs_def config_defs)

definition in_step :: "('m, 'mmu, 'nd) machine_v1 \<Rightarrow> ('m, 'nd) machine_unrolled \<Rightarrow> bool" where
  "in_step w u \<longleftrightarrow> v1_ready w \<and> corresponds w u"

lemma matching_simulation:
  assumes "C \<in> set isa_configs"
  shows "machine_simulation (v1_machine R (baseline_impls C nd))
    (unrolled_machine (unrolled_impls C nd) (DelegationsCSRProcessor_unrolled R VectorMemoryImpl)) in_step"
proof
  fix w u w'
  assume rel: "in_step w u" and "mc_cycle (v1_machine R (baseline_impls C nd)) w = Some w'"
  then have "v1_cycle R (baseline_impls C nd) w = Some w'"
    by (simp add: v1_machine_def)
  with matching_machines.cycle_refines [OF matching_setups [OF assms]] rel
  show "\<exists>u'. mc_cycle (unrolled_machine (unrolled_impls C nd)
      (DelegationsCSRProcessor_unrolled R VectorMemoryImpl)) u = Some u' \<and> in_step w' u'"
    by (fastforce simp: in_step_def unrolled_machine_def baseline_impls_def)
qed (simp add: in_step_def corresponds_def v1_machine_def unrolled_machine_def)

lemma initial_in_step:
  "in_step (\<lparr>v1_state = RiscV32State_initial entry, v1_memory = m, v1_tracer = tr, v1_mmu = mmu, v1_nd = nd\<rparr>)
     (ProverUnrolled_instantiate m utr nd entry)"
  by (simp add: in_step_def v1_ready_def corresponds_def ProverUnrolled_instantiate_def Unrolled_new_def
      Unrolled_initial_def RiscV32State_initial_def regs_wf_def NUM_REGISTERS_def set_mode_def
      get_wait_for_interrupt_def get_current_mode_def bits_spec get_bit_unaligned_def WAIT_FOR_INTERRUPT_BIT_def Mode_from_proper_bit_value_def)

end
