(* ===== verification/Runs.thy ===== *)
theory Runs
  imports Sim U256
begin

text \<open>
  Whole runs: what the run loop computes, the refinement of the first machine by the unrolled one
  through the entry points, and the entry point that records traces of a program it never loads.  The
  interpretations instantiate the contracts of \<open>Refine\<close> and \<open>Sim\<close> with the setups of \<open>lib.rs\<close>.
\<close>

interpretation standard: matching_machines "baseline_impls IMStandardIsaConfig nd" "\<lambda>_ _. True"
  "unrolled_impls IMStandardIsaConfig nd" vector_word_at for nd
  by (rule matching_setups) (simp add: isa_configs_def)

interpretation lockstep: machine_simulation "v1_machine R (baseline_impls IMStandardIsaConfig nd)"
  "unrolled_machine (unrolled_impls IMStandardIsaConfig nd) (DelegationsCSRProcessor_unrolled R VectorMemoryImpl)"
  in_step for R nd
  by (rule matching_simulation) (simp add: isa_configs_def)

definition machine_at :: "u32 \<Rightarrow> vector_memory \<Rightarrow> 'nd \<Rightarrow> (vector_memory, no_mmu, 'nd) machine_v1" where
  "machine_at entry m nd = \<lparr>v1_state = RiscV32State_initial entry, v1_memory = m, v1_tracer = [],
     v1_mmu = \<lparr>no_mmu_sapt = 0\<rparr>, v1_nd = nd\<rparr>"

lemma machine_at_in_step: "in_step (machine_at entry m nd) (ProverUnrolled_instantiate m utr nd entry)"
  unfolding machine_at_def by (rule initial_in_step)

lemma machine_at_ready: "v1_ready (machine_at entry m nd)"
  using machine_at_in_step [of entry m nd] by (simp add: in_step_def)

text \<open>The memory of 1 GB with the image at the entry point.\<close>

definition loaded_memory :: "u32 \<Rightarrow> u8 list \<Rightarrow> vector_memory option" where
  "loaded_memory entry_point bin = do {
     m \<leftarrow> new_for_byte_size (push_bit 30 1);
     load_image m entry_point bin }"

lemma baseline_instantiate:
  "BaselineWithND_instantiate s entry bin = map_option (\<lambda>m. machine_at entry m s) (loaded_memory entry bin)"
  by (cases "new_for_byte_size (push_bit 30 1)"; cases "loaded_memory entry bin")
    (auto simp: BaselineWithND_instantiate_def with_nd_def loaded_memory_def machine_at_def RiscV32State_initial_def
      panic_simps)

lemma spin_cycle:
  assumes "vector_word_at m 0 = Some 0x6f"
  shows "\<exists>w'. v1_cycle R (baseline_impls IMStandardIsaConfig nd) (machine_at 0 m s) = Some w' \<and>
     observable (v1_state w') = observable (RiscV32State_initial 0)"
proof -
  have "\<exists>w'. v1_cycle R (baseline_impls IMStandardIsaConfig nd) (machine_at 0 m s) = Some w' \<and>
    regs_of w' = (regs_of (machine_at 0 m s))[unat (0 :: u32) := if (0 :: u32) = 0 then 0 else 4] \<and>
    pc_of w' = - 4 + 4 \<and> v1_memory w' = m \<and> v1_nd w' = v1_nd (machine_at 0 m s) \<and>
    v1_mmu w' = v1_mmu (machine_at 0 m s) \<and> v1_ready w'"
    using assms
    by (intro standard.cycle_executes [where i = "0x6f"] machine_at_ready)
      (auto simp: machine_at_def RiscV32State_initial_def v1_execute_def v1_jal_def bits_spec
        sign_extend_def JTypeOpcode_imm_def intro!: exI machine_v1.equality)
  moreover have "(replicate 32 0)[0 := 0] = (replicate 32 0 :: u32 list)"
    by (metis list_update_id nth_replicate zero_less_numeral)
  ultimately show ?thesis
    by (auto simp: machine_at_def RiscV32State_initial_def NUM_REGISTERS_def intro!: observable_state.equality)
qed

lemma spin_stays:
  "\<exists>w'. mc_cycle (v1_machine R (baseline_impls IMStandardIsaConfig nd)) (machine_at 0 \<lparr>inner = [0x6f]\<rparr> s) = Some w' \<and>
     mc_state (v1_machine R (baseline_impls IMStandardIsaConfig nd)) w' = observable (RiscV32State_initial 0) \<and>
     stays (v1_machine R (baseline_impls IMStandardIsaConfig nd)) (machine_at 0 \<lparr>inner = [0x6f]\<rparr> s) 0"
proof -
  have "vector_word_at \<lparr>inner = [0x6f]\<rparr> 0 = Some 0x6f"
    by (simp add: vector_word_at_def)
  from spin_cycle [OF this, of R nd s] show ?thesis
    by (auto simp: stays_0 v1_machine_def machine_at_def)
qed

lemma spin_memory: "\<exists>m. loaded_memory 0 [0x6f, 0, 0, 0] = Some m \<and> vector_word_at m 0 = Some 0x6f"
proof -
  have "load_words [0x6f, 0, 0, 0] (replicate (Suc n) 0) = 0x6f # replicate n 0" for n
    by simp
  moreover have "replicate (2 ^ 28) (0 :: u32) = replicate (Suc (2 ^ 28 - 1)) 0"
    by simp
  ultimately have *: "load_words [0x6f, 0, 0, 0] (replicate (2 ^ 28) 0) = 0x6f # replicate (2 ^ 28 - 1) 0"
    by (simp only:)
  have "new_for_byte_size (push_bit 30 1) = Some \<lparr>inner = replicate (2 ^ 28) 0\<rparr>"
    by (simp add: new_for_byte_size_def)
  then show ?thesis
    using * by (simp add: loaded_memory_def load_image_def vector_word_at_def)
qed

lemma spin_run:
  "\<exists>res. run_simple_for_num_cycles R IMStandardIsaConfig nd [0x6f, 0, 0, 0] 0 (Suc n) s = Some res \<and>
    rr_reached_end res \<and> rr_exec_cycles res = 0 \<and> rr_state res = observable (RiscV32State_initial 0)"
proof -
  obtain m where m: "loaded_memory 0 [0x6f, 0, 0, 0] = Some m" "vector_word_at m 0 = Some 0x6f"
    using spin_memory by blast
  obtain w' where "v1_cycle R (baseline_impls IMStandardIsaConfig nd) (machine_at 0 m s) = Some w'"
    "observable (v1_state w') = observable (RiscV32State_initial 0)"
    using spin_cycle [OF m(2), of R nd s] by blast
  then show ?thesis
    using m by (simp add: run_simple_for_num_cycles_def baseline_instantiate Simulator_run_def Simulator_new_def
        v1_machine_def machine_at_def)
qed

text \<open>C4: the unrolled machine refines the first machine end to end.  Whenever the entry point of the
  first machine returns a result for a program (final registers and program counter, whether the end
  was reached, the cycle), the simulator of the unrolled machine, started on the same memory and
  source of non-determinism, returns the same result, in each of the five configurations.\<close>

theorem unrolled_refines_baseline:
  assumes "C \<in> set isa_configs"
    and "run_simple_for_num_cycles R C nd bin entry_point cycles s = Some res"
  shows "\<exists>m sim. loaded_memory entry_point bin = Some m \<and>
    Simulator_run (unrolled_machine (unrolled_impls C nd) (DelegationsCSRProcessor_unrolled R VectorMemoryImpl))
      no_hook no_hook (Simulator_new (ProverUnrolled_instantiate m [] s entry_point) cycles) = Some (res, sim)"
proof -
  obtain m sim where m: "loaded_memory entry_point bin = Some m"
    and run: "Simulator_run (v1_machine R (baseline_impls C nd)) no_hook no_hook
      (Simulator_new (machine_at entry_point m s) cycles) = Some (res, sim)"
    using assms(2) by (auto simp: run_simple_for_num_cycles_def baseline_instantiate panic_simps)
  show ?thesis
    using machine_simulation.run_sim [OF matching_simulation [OF assms(1)] machine_at_in_step run] m by blast
qed

theorem unrolled_refines_baseline_witness:
  "\<exists>m sim res. loaded_memory 0 [0x6f, 0, 0, 0] = Some m \<and> rr_reached_end res \<and>
    Simulator_run (unrolled_machine (unrolled_impls IMStandardIsaConfig QuasiUARTSource)
      (DelegationsCSRProcessor_unrolled word256_lib VectorMemoryImpl)) no_hook no_hook
      (Simulator_new (ProverUnrolled_instantiate m [] QuasiUARTSource_default 0) 5) = Some (res, sim)"
proof -
  obtain res where run: "run_simple_for_num_cycles word256_lib IMStandardIsaConfig QuasiUARTSource [0x6f, 0, 0, 0] 0
      (Suc 4) QuasiUARTSource_default = Some res" and "rr_reached_end res"
    using spin_run [of word256_lib QuasiUARTSource 4 QuasiUARTSource_default] by blast
  then show ?thesis
    using unrolled_refines_baseline [OF _ run] by (auto simp: isa_configs_def)
qed

lemma zero_memory_panics:
  assumes "set (inner m) \<subseteq> {0}"
  shows "v1_cycle R (baseline_impls IMStandardIsaConfig nd) (machine_at entry m s) = panic"
proof (rule ccontr)
  assume "\<not> ?thesis"
  then obtain w' where "v1_cycle R (baseline_impls IMStandardIsaConfig nd) (machine_at entry m s) = Some w'"
    by blast
  from standard.cycle_SomeD [OF machine_at_ready TrueI this] obtain i rd v p w1 w2 where
    i: "opcode_read VectorMemoryImpl entry m = Some i" and
    ex: "v1_execute (baseline_impls IMStandardIsaConfig nd) (DelegationsCSRProcessor R VectorMemoryImpl) i (get_rd i)
      (regs_of (machine_at entry m s) ! unat (get_formal_rs1 i)) (regs_of (machine_at entry m s) ! unat (get_formal_rs2 i))
      Machine entry w1 = Some (Writeback rd v p w2)"
    by (auto simp: baseline_impls_def machine_at_def RiscV32State_initial_def)
  have "i = 0"
    using i assms by (auto simp: opcode_read_def get_opcode_noexcept_def VectorMemoryImpl_def VectorMemoryImpl_get_def
      panic_simps dest!: nth_mem split: if_splits)
  with ex show False
    by (simp add: v1_execute_def)
qed

text \<open>C17: the entry point that records state traces panics in its first cycle for every program and
  entry point, since its setup never loads the program.\<close>

theorem run_simulator_with_traces_panics:
  "run_simulator_with_traces_for_config R bin entry_point (Suc n) = panic"
proof -
  obtain m where "DefaultSetup_instantiate entry_point bin = Some (machine_at entry_point m QuasiUARTSource_default)"
    "set (inner m) \<subseteq> {0}"
    by (force simp: DefaultSetup_instantiate_def with_nd_def new_for_byte_size_def machine_at_def RiscV32State_initial_def)
  then show ?thesis
    using zero_memory_panics [of m R QuasiUARTSource entry_point QuasiUARTSource_default]
    by (simp add: run_simulator_with_traces_for_config_def StateTracer_insert_def Simulator_run_def Simulator_new_def
        traced_machine_def v1_machine_def)
qed


text \<open>C6: if the machine can run all cycles without a panic, the run loop returns: it stops after the
  first cycle that leaves the program counter unchanged and reports the machine after it and its
  index, or else runs all cycles and reports that the end was not reached.\<close>

theorem simulator_run_result:
  assumes "mc_iter M n m \<noteq> None"
  shows "\<exists>m'. Simulator_run M no_hook no_hook (Simulator_new m n) =
    (case find (stays M m) [0..<n] of
       Some k \<Rightarrow> Some (\<lparr>rr_state = mc_state M m', rr_reached_end = True, rr_exec_cycles = k\<rparr>,
           \<lparr>sim_machine = m', sim_cycles = n, reached_end = True\<rparr>)
     | None \<Rightarrow> Some (\<lparr>rr_state = mc_state M m', rr_reached_end = False, rr_exec_cycles = 0\<rparr>,
           \<lparr>sim_machine = m', sim_cycles = n, reached_end = False\<rparr>)) \<and>
    mc_iter M (case find (stays M m) [0..<n] of Some k \<Rightarrow> Suc k | None \<Rightarrow> n) m = Some m'"
  using assms by (rule run_returns)

theorem simulator_run_result_witness:
  "\<exists>sim. Simulator_run (v1_machine word256_lib (baseline_impls IMStandardIsaConfig QuasiUARTSource)) no_hook no_hook
     (Simulator_new (machine_at 0 \<lparr>inner = [0x6f]\<rparr> QuasiUARTSource_default) 1) =
     Some (\<lparr>rr_state = observable (RiscV32State_initial 0), rr_reached_end = True, rr_exec_cycles = 0\<rparr>, sim)"
proof -
  let ?M = "v1_machine word256_lib (baseline_impls IMStandardIsaConfig QuasiUARTSource)"
  let ?m = "machine_at 0 \<lparr>inner = [0x6f]\<rparr> QuasiUARTSource_default"
  obtain w' where "mc_cycle ?M ?m = Some w'" "mc_state ?M w' = observable (RiscV32State_initial 0)" "stays ?M ?m 0"
    using spin_stays [of word256_lib QuasiUARTSource] by blast
  then show ?thesis
    using simulator_run_result [of ?M 1 ?m] by auto
qed

lemma run_cycles_sim:
  assumes "C \<in> set isa_configs" "in_step w u" "mc_iter (v1_machine R (baseline_impls C nd)) n w = Some w'"
  shows "\<exists>u'. run_cycles (unrolled_impls C nd) (DelegationsCSRProcessor_unrolled R VectorMemoryImpl) n fin u =
      Some (fin \<or> (\<exists>k < n. stays (v1_machine R (baseline_impls C nd)) w k), u') \<and> in_step w' u'"
  using assms(2,3)
proof (induction n arbitrary: w u fin)
  case (Suc n)
  let ?M = "v1_machine R (baseline_impls C nd)"
  obtain w1 where w1: "mc_cycle ?M w = Some w1" and rest: "mc_iter ?M n w1 = Some w'"
    using Suc.prems(2) by (auto simp: panic_simps)
  have "v1_ready w" "corresponds w u" "v1_cycle R (baseline_impls C nd) w = Some w1"
    using Suc.prems(1) w1 by (simp_all add: in_step_def v1_machine_def)
  from matching_machines.cycle_refines [OF matching_setups [OF assms(1)] this(1) TrueI this(2,3)]
  obtain finished u1 where "u_cycle (unrolled_impls C nd)
      (DelegationsCSRProcessor_unrolled R (i_ms (baseline_impls C nd))) u = Some (finished, u1)"
    "finished \<longleftrightarrow> pc_of w1 = pc_of w" "corresponds w1 u1" "v1_ready w1"
    by blast
  then have u1: "u_cycle (unrolled_impls C nd) (DelegationsCSRProcessor_unrolled R VectorMemoryImpl) u
      = Some (stays ?M w 0, u1)" "in_step w1 u1"
    using stays_0 [OF w1] by (simp_all add: in_step_def v1_machine_def) (simp add: baseline_impls_def)
  have ex: "(\<exists>k < Suc n. stays ?M w k) \<longleftrightarrow> stays ?M w 0 \<or> (\<exists>k < n. stays ?M w1 k)"
    using stays_Suc [OF w1] by (metis Suc_less_eq gr0_conv_Suc not0_implies_Suc zero_less_Suc)
  show ?case
    using Suc.IH [OF u1(2) rest, of "fin \<or> stays ?M w 0"] u1(1) by (auto simp: ex)
qed simp


text \<open>C5: if the first machine runs \<open>n\<close> cycles without a panic, \<open>run_cycles\<close> of the unrolled machine
  returns, ends in the same registers, program counter, memory and source of non-determinism, and
  reports whether some cycle left the program counter unchanged.\<close>

theorem run_cycles_refines:
  assumes "C \<in> set isa_configs"
    and "mc_iter (v1_machine R (baseline_impls C nd)) n (machine_at entry_point m s) = Some w'"
  shows "\<exists>u'. run_cycles (unrolled_impls C nd) (DelegationsCSRProcessor_unrolled R VectorMemoryImpl) n False
      (ProverUnrolled_instantiate m [] s entry_point) =
      Some (\<exists>k < n. stays (v1_machine R (baseline_impls C nd)) (machine_at entry_point m s) k, u') \<and>
    regs_of w' = uregs_of u' \<and> pc_of w' = upc_of u' \<and> v1_memory w' = u_memory u' \<and> v1_nd w' = u_nd u'"
  using run_cycles_sim [OF assms(1) machine_at_in_step assms(2), of False "[]"]
  by (auto simp: in_step_def corresponds_def)

theorem run_cycles_refines_witness:
  "\<exists>u'. run_cycles (unrolled_impls IMStandardIsaConfig QuasiUARTSource)
      (DelegationsCSRProcessor_unrolled word256_lib VectorMemoryImpl) 1 False
      (ProverUnrolled_instantiate \<lparr>inner = [0x6f]\<rparr> [] QuasiUARTSource_default 0) = Some (True, u')"
proof -
  let ?M = "v1_machine word256_lib (baseline_impls IMStandardIsaConfig QuasiUARTSource)"
  let ?m = "machine_at 0 \<lparr>inner = [0x6f]\<rparr> QuasiUARTSource_default"
  obtain w' where w': "mc_cycle ?M ?m = Some w'" "stays ?M ?m 0"
    using spin_stays [of word256_lib QuasiUARTSource] by blast
  then have "mc_iter ?M 1 ?m = Some w'"
    by simp
  from run_cycles_refines [OF _ this] w' show ?thesis
    by (auto simp: isa_configs_def)
qed

end
