(* ===== verification/Isa.thy ===== *)
theory Isa
  imports Runs
begin

text \<open>
  A reference semantics of RV32IM and the theorem that the first machine implements it: instructions as
  a datatype, their encoding, one step as an inductive relation on registers, program counter and
  byte-addressed memory.  A cycle of the machine on an encoded instruction performs the step, and
  panics when there is none.
\<close>

section \<open>Instructions\<close>

type_synonym reg = "5 word"

datatype branch_op = BEQ | BNE | BLT | BGE | BLTU | BGEU
datatype load_op = LB | LH | LW | LBU | LHU
datatype store_op = SB | SH | SW
datatype alu_op = OpAdd | OpSub | OpSll | OpSlt | OpSltu | OpXor | OpSrl | OpSra | OpOr | OpAnd
datatype mul_op = OpMul | OpMulh | OpMulhsu | OpMulhu | OpDiv | OpDivu | OpRem | OpRemu

datatype instruction =
    Lui reg "20 word"
  | Auipc reg "20 word"
  | Jal reg "20 word"
  | Jalr reg reg "12 word"
  | Branch branch_op reg reg "12 word"
  | Load load_op reg reg "12 word"
  | Store store_op reg reg "12 word"
  | OpImm alu_op reg reg "12 word"
  | Op alu_op reg reg reg
  | MulDiv mul_op reg reg reg

section \<open>Encoding\<close>

primrec branch_funct3 :: "branch_op \<Rightarrow> u32" where
  "branch_funct3 BEQ = 0" | "branch_funct3 BNE = 1" | "branch_funct3 BLT = 4"
| "branch_funct3 BGE = 5" | "branch_funct3 BLTU = 6" | "branch_funct3 BGEU = 7"

primrec load_funct3 :: "load_op \<Rightarrow> u32" where
  "load_funct3 LB = 0" | "load_funct3 LH = 1" | "load_funct3 LW = 2" | "load_funct3 LBU = 4" | "load_funct3 LHU = 5"

primrec store_funct3 :: "store_op \<Rightarrow> u32" where
  "store_funct3 SB = 0" | "store_funct3 SH = 1" | "store_funct3 SW = 2"

primrec alu_funct3 :: "alu_op \<Rightarrow> u32" where
  "alu_funct3 OpAdd = 0" | "alu_funct3 OpSub = 0" | "alu_funct3 OpSll = 1" | "alu_funct3 OpSlt = 2"
| "alu_funct3 OpSltu = 3" | "alu_funct3 OpXor = 4" | "alu_funct3 OpSrl = 5" | "alu_funct3 OpSra = 5"
| "alu_funct3 OpOr = 6" | "alu_funct3 OpAnd = 7"

primrec alu_funct7 :: "alu_op \<Rightarrow> u32" where
  "alu_funct7 OpAdd = 0" | "alu_funct7 OpSub = 32" | "alu_funct7 OpSll = 0" | "alu_funct7 OpSlt = 0"
| "alu_funct7 OpSltu = 0" | "alu_funct7 OpXor = 0" | "alu_funct7 OpSrl = 0" | "alu_funct7 OpSra = 32"
| "alu_funct7 OpOr = 0" | "alu_funct7 OpAnd = 0"

primrec mul_funct3 :: "mul_op \<Rightarrow> u32" where
  "mul_funct3 OpMul = 0" | "mul_funct3 OpMulh = 1" | "mul_funct3 OpMulhsu = 2" | "mul_funct3 OpMulhu = 3"
| "mul_funct3 OpDiv = 4" | "mul_funct3 OpDivu = 5" | "mul_funct3 OpRem = 6" | "mul_funct3 OpRemu = 7"

definition enc :: "u32 \<Rightarrow> reg \<Rightarrow> u32 \<Rightarrow> reg \<Rightarrow> reg \<Rightarrow> u32 \<Rightarrow> u32" where
  "enc opcode rd funct3 rs1 rs2 funct7 =
     put_field 25 7 0 funct7 (put_field 20 5 0 (ucast rs2) (put_field 15 5 0 (ucast rs1)
       (put_field 12 3 0 funct3 (put_field 7 5 0 (ucast rd) opcode))))"

text \<open>Shifts by an immediate keep the shift amount in the low five bits and \<open>funct7\<close> above.\<close>

fun shift_imm :: "alu_op \<Rightarrow> 12 word \<Rightarrow> 12 word" where
  "shift_imm OpSll i = take_bit 5 i"
| "shift_imm OpSrl i = take_bit 5 i"
| "shift_imm OpSra i = take_bit 5 i OR 0x400"
| "shift_imm _ i = i"

fun encode :: "instruction \<Rightarrow> u32" where
  "encode (Lui rd imm) = put_U (push_bit 12 (ucast imm)) (enc 0x37 rd 0 0 0 0)"
| "encode (Auipc rd imm) = put_U (push_bit 12 (ucast imm)) (enc 0x17 rd 0 0 0 0)"
| "encode (Jal rd off) = put_J (2 * scast off) (enc 0x6f rd 0 0 0 0)"
| "encode (Jalr rd rs1 off) = put_I (scast off) (enc 0x67 rd 0 rs1 0 0)"
| "encode (Branch op rs1 rs2 off) = put_B (2 * scast off) (enc 0x63 0 (branch_funct3 op) rs1 rs2 0)"
| "encode (Load op rd rs1 off) = put_I (scast off) (enc 0x03 rd (load_funct3 op) rs1 0 0)"
| "encode (Store op rs1 rs2 off) = put_S (scast off) (enc 0x23 0 (store_funct3 op) rs1 rs2 0)"
| "encode (OpImm op rd rs1 imm) = put_I (scast (shift_imm op imm)) (enc 0x13 rd (alu_funct3 op) rs1 0 0)"
| "encode (Op op rd rs1 rs2) = enc 0x33 rd (alu_funct3 op) rs1 rs2 (alu_funct7 op)"
| "encode (MulDiv op rd rs1 rs2) = enc 0x33 rd (mul_funct3 op) rs1 rs2 1"

section \<open>Decoding\<close>

lemma field_put_same:
  "pos + len \<le> 32 \<Longrightarrow> take_bit len (drop_bit pos (put_field pos len 0 v w)) = take_bit len v"
  by (rule bit_word_eqI) (auto simp: bit_simps bit_put_field)

lemma field_put_other:
  "k + n \<le> pos \<or> pos + len \<le> k \<Longrightarrow> 
    take_bit n (drop_bit k (put_field pos len src v w)) = take_bit n (drop_bit k w)"
  by (rule bit_word_eqI) (auto simp: bit_simps bit_put_field)

lemma field_put_low: "n \<le> pos \<Longrightarrow> take_bit n (put_field pos len src v w) = take_bit n w"
  using field_put_other [of 0 n pos len src v w] by simp

lemma take_bit_reg [simp]: "take_bit 5 (ucast (r :: reg) :: u32) = ucast r"
  by (rule bit_word_eqI) (auto simp: bit_simps dest: bit_imp_le_length)

lemma take_bit_functs [simp]:
  "take_bit 3 (branch_funct3 b) = branch_funct3 b" "take_bit 3 (load_funct3 l) = load_funct3 l"
  "take_bit 3 (store_funct3 s) = store_funct3 s" "take_bit 3 (alu_funct3 a) = alu_funct3 a"
  "take_bit 3 (mul_funct3 m) = mul_funct3 m" "take_bit 7 (alu_funct7 a) = alu_funct7 a"
  by (cases b, simp_all, cases l, simp_all, cases s, simp_all, cases a, simp_all, cases m, simp_all, cases a, simp_all)

lemma enc_fields:
  "take_bit 7 (enc op rd f3 rs1 rs2 f7) = take_bit 7 op"
  "take_bit 5 (drop_bit 7 (enc op rd f3 rs1 rs2 f7)) = ucast rd"
  "take_bit 3 (drop_bit 12 (enc op rd f3 rs1 rs2 f7)) = take_bit 3 f3"
  "take_bit 5 (drop_bit 15 (enc op rd f3 rs1 rs2 f7)) = ucast rs1"
  "take_bit 5 (drop_bit 20 (enc op rd f3 rs1 rs2 f7)) = ucast rs2"
  "take_bit 7 (drop_bit 25 (enc op rd f3 rs1 rs2 f7)) = take_bit 7 f7"
  unfolding enc_def
  by (simp_all only: field_put_low field_put_other [where k = 7] field_put_other [where k = 12]
      field_put_other [where k = 15] field_put_other [where k = 20] field_put_other [where k = 25]
      field_put_same) (simp_all add: field_put_low field_put_other field_put_same)


lemma imm_fields:
  "take_bit 7 (put_U i w) = take_bit 7 w" "take_bit 5 (drop_bit 7 (put_U i w)) = take_bit 5 (drop_bit 7 w)"
  "take_bit 7 (put_J i w) = take_bit 7 w" "take_bit 5 (drop_bit 7 (put_J i w)) = take_bit 5 (drop_bit 7 w)"
  "take_bit 7 (put_I i w) = take_bit 7 w" "take_bit 5 (drop_bit 7 (put_I i w)) = take_bit 5 (drop_bit 7 w)"
  "take_bit 3 (drop_bit 12 (put_I i w)) = take_bit 3 (drop_bit 12 w)"
  "take_bit 5 (drop_bit 15 (put_I i w)) = take_bit 5 (drop_bit 15 w)"
  "take_bit 7 (put_S i w) = take_bit 7 w" "take_bit 3 (drop_bit 12 (put_S i w)) = take_bit 3 (drop_bit 12 w)"
  "take_bit 5 (drop_bit 15 (put_S i w)) = take_bit 5 (drop_bit 15 w)"
  "take_bit 5 (drop_bit 20 (put_S i w)) = take_bit 5 (drop_bit 20 w)"
  "take_bit 7 (put_B i w) = take_bit 7 w" "take_bit 3 (drop_bit 12 (put_B i w)) = take_bit 3 (drop_bit 12 w)"
  "take_bit 5 (drop_bit 15 (put_B i w)) = take_bit 5 (drop_bit 15 w)"
  "take_bit 5 (drop_bit 20 (put_B i w)) = take_bit 5 (drop_bit 20 w)"
  by (simp_all add: put_U_def put_J_def put_I_def put_S_def put_B_def field_put_low field_put_other)

lemmas decode = enc_fields imm_fields decode_fields(1-8) get_rd_spec and_low_mask

lemma sint_12: "- 2048 \<le> sint (i :: 12 word)" "sint i < 2048"
  using sint_greater_eq [of i] sint_less [of i] by simp_all

lemma sint_20: "- 524288 \<le> sint (i :: 20 word)" "sint i < 524288"
  using sint_greater_eq [of i] sint_less [of i] by simp_all

lemma decode_imm:
  "sign_extend (ITypeOpcode_imm (put_I (scast (i :: 12 word)) w)) 12 = scast i"
  "sign_extend (STypeOpcode_imm (put_S (scast i) w)) 12 = scast i"
  "sign_extend (BTypeOpcode_imm (put_B (2 * scast i) w)) 13 = 2 * scast i"
  "sign_extend (JTypeOpcode_imm (put_J (2 * scast (j :: 20 word)) w)) 21 = 2 * scast j"
  "UTypeOpcode_imm (put_U (push_bit 12 (ucast j)) w) = push_bit 12 (ucast j)"
  using sign_extend_imm [of 11 "sint i"] sign_extend_even_imm [of 12 "2 * sint i"]
    sign_extend_even_imm [of 20 "2 * sint j"] sint_12 [of i] sint_20 [of j]
  by (simp_all add: imm_put)
    (rule bit_word_eqI, auto simp: bit_simps)

section \<open>Reference semantics\<close>

fun isa_alu :: "alu_op \<Rightarrow> u32 \<Rightarrow> u32 \<Rightarrow> u32" where
  "isa_alu OpAdd a b = a + b"
| "isa_alu OpSub a b = a - b"
| "isa_alu OpSll a b = a * 2 ^ (unat b mod 32)"
| "isa_alu OpSlt a b = of_bool (sint a < sint b)"
| "isa_alu OpSltu a b = of_bool (unat a < unat b)"
| "isa_alu OpXor a b = a XOR b"
| "isa_alu OpSrl a b = of_nat (unat a div 2 ^ (unat b mod 32))"
| "isa_alu OpSra a b = word_of_int (sint a div 2 ^ (unat b mod 32))"
| "isa_alu OpOr a b = a OR b"
| "isa_alu OpAnd a b = a AND b"

text \<open>Division rounds towards zero; a zero divisor gives all ones and the dividend, the overflow wraps.\<close>

fun isa_muldiv :: "mul_op \<Rightarrow> u32 \<Rightarrow> u32 \<Rightarrow> u32" where
  "isa_muldiv OpMul a b = a * b"
| "isa_muldiv OpMulh a b = word_of_int (sint a * sint b div 2 ^ 32)"
| "isa_muldiv OpMulhsu a b = word_of_int (sint a * uint b div 2 ^ 32)"
| "isa_muldiv OpMulhu a b = word_of_int (uint a * uint b div 2 ^ 32)"
| "isa_muldiv OpDiv a b = (if b = 0 then - 1 else word_of_int (sint a sdiv sint b))"
| "isa_muldiv OpDivu a b = (if b = 0 then - 1 else of_nat (unat a div unat b))"
| "isa_muldiv OpRem a b = (if b = 0 then a else word_of_int (sint a smod sint b))"
| "isa_muldiv OpRemu a b = (if b = 0 then a else of_nat (unat a mod unat b))"

fun isa_branch :: "branch_op \<Rightarrow> u32 \<Rightarrow> u32 \<Rightarrow> bool" where
  "isa_branch BEQ a b \<longleftrightarrow> a = b"
| "isa_branch BNE a b \<longleftrightarrow> a \<noteq> b"
| "isa_branch BLT a b \<longleftrightarrow> sint a < sint b"
| "isa_branch BGE a b \<longleftrightarrow> sint b \<le> sint a"
| "isa_branch BLTU a b \<longleftrightarrow> unat a < unat b"
| "isa_branch BGEU a b \<longleftrightarrow> unat b \<le> unat a"

primrec load_size :: "load_op \<Rightarrow> nat" where
  "load_size LB = 1" | "load_size LH = 2" | "load_size LW = 4" | "load_size LBU = 1" | "load_size LHU = 2"

primrec store_size :: "store_op \<Rightarrow> nat" where
  "store_size SB = 1" | "store_size SH = 2" | "store_size SW = 4"

primrec load_signed :: "load_op \<Rightarrow> bool" where
  "load_signed LB = True" | "load_signed LH = True" | "load_signed LW = False" | "load_signed LBU = False"
| "load_signed LHU = False"

text \<open>The memory as bytes, little endian.\<close>

definition mem_byte :: "vector_memory \<Rightarrow> nat \<Rightarrow> nat" where
  "mem_byte m i = unat (inner m ! (i div 4)) div 256 ^ (i mod 4) mod 256"

definition load_value :: "load_op \<Rightarrow> vector_memory \<Rightarrow> nat \<Rightarrow> u32" where
  "load_value op m a =
    (let n = load_size op; v = (\<Sum>k < n. 256 ^ k * mem_byte m (a + k))
     in if load_signed op \<and> 2 ^ (8 * n - 1) \<le> v then of_nat v - 2 ^ (8 * n) else of_nat v)"

definition stores :: "nat \<Rightarrow> vector_memory \<Rightarrow> nat \<Rightarrow> u32 \<Rightarrow> vector_memory \<Rightarrow> bool" where
  "stores n m a v m' \<longleftrightarrow> length (inner m') = length (inner m) \<and>
     (\<forall>i. i div 4 < length (inner m) \<longrightarrow>
       mem_byte m' i = (if a \<le> i \<and> i < a + n then unat v div 256 ^ (i - a) mod 256 else mem_byte m i))"


definition in_memory :: "vector_memory \<Rightarrow> u32 \<Rightarrow> nat \<Rightarrow> bool" where
  "in_memory m a n \<longleftrightarrow> unat a mod n = 0 \<and> unat a div 4 < length (inner m)"

text \<open>One instruction on registers, program counter and memory; an exception (a misaligned jump
  target or access, an access outside the memory) has no successor.  The destination \<open>x0\<close> stays zero.\<close>

definition write_reg :: "reg \<Rightarrow> u32 \<Rightarrow> u32 list \<Rightarrow> u32 list" where
  "write_reg rd v r = (if rd = 0 then r else r[unat rd := v])"

inductive isa_step :: "instruction \<Rightarrow> u32 list \<Rightarrow> u32 \<Rightarrow> vector_memory \<Rightarrow> u32 list \<Rightarrow> u32 \<Rightarrow> vector_memory \<Rightarrow> bool"
  where
  lui: "isa_step (Lui rd imm) r pc m (write_reg rd (push_bit 12 (ucast imm)) r) (pc + 4) m"
| auipc: "isa_step (Auipc rd imm) r pc m (write_reg rd (pc + push_bit 12 (ucast imm)) r) (pc + 4) m"
| jal: "t = pc + 2 * scast off \<Longrightarrow> unat t mod 4 = 0 \<Longrightarrow>
    isa_step (Jal rd off) r pc m (write_reg rd (pc + 4) r) t m"
| jalr: "t = (r ! unat rs1 + scast off) AND NOT 1 \<Longrightarrow> unat t mod 4 = 0 \<Longrightarrow>
    isa_step (Jalr rd rs1 off) r pc m (write_reg rd (pc + 4) r) t m"
| taken: "isa_branch op (r ! unat rs1) (r ! unat rs2) \<Longrightarrow> t = pc + 2 * scast off \<Longrightarrow>
    unat t mod 4 = 0 \<Longrightarrow> isa_step (Branch op rs1 rs2 off) r pc m r t m"
| not_taken: "\<not> isa_branch op (r ! unat rs1) (r ! unat rs2) \<Longrightarrow>
    isa_step (Branch op rs1 rs2 off) r pc m r (pc + 4) m"
| load: "a = r ! unat rs1 + scast off \<Longrightarrow> in_memory m a (load_size op) \<Longrightarrow>
    isa_step (Load op rd rs1 off) r pc m (write_reg rd (load_value op m (unat a)) r) (pc + 4) m"
| store: "a = r ! unat rs1 + scast off \<Longrightarrow> in_memory m a (store_size op) \<Longrightarrow>
    stores (store_size op) m (unat a) (r ! unat rs2) m' \<Longrightarrow>
    isa_step (Store op rs1 rs2 off) r pc m r (pc + 4) m'"
| op_imm: "isa_step (OpImm op rd rs1 imm) r pc m
    (write_reg rd (isa_alu op (r ! unat rs1) (scast imm)) r) (pc + 4) m"
| op: "isa_step (Op op rd rs1 rs2) r pc m (write_reg rd (isa_alu op (r ! unat rs1) (r ! unat rs2)) r) (pc + 4) m"
| muldiv: "isa_step (MulDiv op rd rs1 rs2) r pc m
    (write_reg rd (isa_muldiv op (r ! unat rs1) (r ! unat rs2)) r) (pc + 4) m"

text \<open>What a configuration supports.\<close>

fun supported :: "machine_config \<Rightarrow> instruction \<Rightarrow> bool" where
  "supported C (Load op rd rs1 off) \<longleftrightarrow>
     (load_size op < 4 \<longrightarrow> SUPPORT_LOAD_LESS_THAN_WORD C) \<and> (load_signed op \<longrightarrow> SUPPORT_SIGNED_LOAD C)"
| "supported C (Store op rs1 rs2 off) \<longleftrightarrow> (store_size op < 4 \<longrightarrow> SUPPORT_LOAD_LESS_THAN_WORD C)"
| "supported C (OpImm op rd rs1 imm) \<longleftrightarrow> op \<noteq> OpSub \<and> (op = OpSra \<longrightarrow> SUPPORT_SRA C)"
| "supported C (Op op rd rs1 rs2) \<longleftrightarrow> (op = OpSra \<longrightarrow> SUPPORT_SRA C)"
| "supported C (MulDiv op rd rs1 rs2) \<longleftrightarrow>
     (op \<in> set [OpMul, OpMulh, OpMulhsu, OpMulhu] \<longrightarrow> SUPPORT_MUL C) \<and>
     (op \<in> set [OpMulh, OpMulhsu] \<longrightarrow> SUPPORT_SIGNED_MUL C) \<and>
     (op \<in> set [OpDiv, OpDivu, OpRem, OpRemu] \<longrightarrow> SUPPORT_DIV C) \<and>
     (op \<in> set [OpDiv, OpRem] \<longrightarrow> SUPPORT_SIGNED_DIV C)"
| "supported C _ \<longleftrightarrow> True"

section \<open>The arithmetic of the machine is the reference arithmetic\<close>

lemma and_31: "unat (b AND 0x1f :: u32) = unat b mod 32"
  using unat_mod_distrib [of b 32] by (simp add: and_low_mask take_bit_eq_mod)

lemma word_of_natI: "unat w = k \<Longrightarrow> (w :: u32) = of_nat k"
  by auto

lemma srl: "drop_bit n (a :: u32) = of_nat (unat a div 2 ^ n)"
proof (rule word_of_natI)
  have "take_bit 32 (unat a) = unat a"
    using unsigned_less [where ?'a = nat, of a] by (simp add: take_bit_nat_eq_self)
  then show "unat (drop_bit n a) = unat a div 2 ^ n"
    by (intro trans [OF unsigned_drop_bit_eq]) (simp add: drop_bit_eq_div)
qed

lemma word_of_intI: "sint (w :: 'a::len word) = k \<Longrightarrow> w = word_of_int k"
  by auto

lemma word_of_uintI: "uint (w :: 'a::len word) = k \<Longrightarrow> w = word_of_int k"
  by auto

lemma sra: "signed_drop_bit n (a :: 'a::len word) = word_of_int (sint a div 2 ^ n)"
  by (rule word_of_intI) (simp add: sint_signed_drop_bit_eq drop_bit_eq_div)

lemma ucast_word_of_int: "ucast (word_of_int k :: u64) = (word_of_int k :: u32)"
  by (rule bit_word_eqI) (simp add: bit_simps)

lemma high_word:
  assumes "- (2 ^ 63) \<le> k" "k < 2 ^ 63"
  shows "ucast (signed_drop_bit 32 (word_of_int k :: u64)) = (word_of_int (k div 2 ^ 32) :: u32)"
proof -
  have "sint (word_of_int k :: u64) = k"
    using assms by (simp add: signed_of_int signed_take_bit_int_eq_self)
  then have "signed_drop_bit 32 (word_of_int k :: u64) = word_of_int (k div 2 ^ 32)"
    by (simp only: sra)
  then show ?thesis
    by (simp add: ucast_word_of_int)
qed

lemma product_bounds:
  fixes a b :: u32
  shows "- (2 ^ 63) \<le> sint a * sint b" "sint a * sint b < 2 ^ 63"
    "- (2 ^ 63) \<le> sint a * uint b" "sint a * uint b < 2 ^ 63"
proof -
  have s: "- (2 ^ 31) \<le> sint x" "sint x < 2 ^ 31" for x :: u32
    using sint_greater_eq [of x] sint_less [of x] by simp_all
  have u: "0 \<le> uint b" "uint b < 2 ^ 32"
    using unsigned_less [where ?'a = int, of b] by simp_all
  have "\<bar>sint a * sint b\<bar> \<le> 2 ^ 31 * 2 ^ 31"
    unfolding abs_mult using s [of a] s [of b] by (intro mult_mono) simp_all
  then show "- (2 ^ 63) \<le> sint a * sint b" "sint a * sint b < 2 ^ 63"
    by simp_all
  have "\<bar>sint a * uint b\<bar> \<le> 2 ^ 31 * (2 ^ 32 - 1)"
    unfolding abs_mult using s [of a] u by (intro mult_mono) simp_all
  then show "- (2 ^ 63) \<le> sint a * uint b" "sint a * uint b < 2 ^ 63"
    by simp_all
qed

lemma mulh: "ucast (signed_drop_bit 32 ((scast (a :: u32) :: u64) * scast (b :: u32))) =
    (word_of_int (sint a * sint b div 2 ^ 32) :: u32)"
proof -
  have "(scast a :: u64) * scast b = word_of_int (sint a * sint b)"
    by simp
  then show ?thesis
    using high_word [OF product_bounds(1,2) [of a b]] by (simp only:)
qed

lemma mulhsu: "ucast (signed_drop_bit 32 ((scast (a :: u32) :: u64) * ucast (b :: u32))) =
    (word_of_int (sint a * uint b div 2 ^ 32) :: u32)"
proof -
  have "(scast a :: u64) * ucast b = word_of_int (sint a * uint b)"
    by simp
  then show ?thesis
    using high_word [OF product_bounds(3,4) [of a b]] by (simp only:)
qed

lemma high_word_unsigned:
  assumes "0 \<le> k" "k < 2 ^ 64"
  shows "ucast (drop_bit 32 (word_of_int k :: u64)) = (word_of_int (k div 2 ^ 32) :: u32)"
proof -
  have "uint (word_of_int k :: u64) = k"
    using assms by (simp add: uint_word_of_int_eq take_bit_int_eq_self)
  then have "drop_bit 32 (word_of_int k :: u64) = word_of_int (k div 2 ^ 32)"
    using assms by (intro word_of_uintI trans [OF unsigned_drop_bit_eq]) (simp add: drop_bit_eq_div take_bit_int_eq_self)
  then show ?thesis
    by (simp add: ucast_word_of_int)
qed

lemma mulhu: "ucast (drop_bit 32 ((ucast (a :: u32) :: u64) * ucast (b :: u32))) = (word_of_int (uint a * uint b div 2 ^ 32) :: u32)"
proof -
  have u: "0 \<le> uint x" "uint x < 2 ^ 32" for x :: u32
    using unsigned_less [where ?'a = int, of x] by simp_all
  have "uint a * uint b < 2 ^ 32 * 2 ^ 32"
    using u [of a] u [of b] by (intro mult_strict_mono) simp_all
  moreover have "(ucast a :: u64) * ucast b = word_of_int (uint a * uint b)"
    by simp
  ultimately show ?thesis
    using high_word_unsigned [of "uint a * uint b"] u by simp
qed

lemma divu_remu:
  "a div b = (of_nat (unat a div unat b) :: u32)" "a mod b = (of_nat (unat a mod unat b) :: u32)"
  by (rule word_of_natI, rule unat_div_distrib) (rule word_of_natI, rule unat_mod_distrib)

lemma m_extension_correct:
  assumes "supported C (MulDiv op rd rs1 rs2)"
  shows "m_extension C (mul_funct3 op) a b = Some (isa_muldiv op a b)"
proof -
  have "a = 0x80000000" if "sint a = - (2 ^ 31)"
    using word_of_intI [OF that] by simp
  with assms show ?thesis
    by (cases op) (simp_all add: m_extension_def mulh mulhsu mulhu divu_remu signed_modulo_int_def)
qed

text \<open>The bits of an instruction word the machine tests next to \<open>funct7\<close>.\<close>

lemma test_masks:
  "x AND 0x40000000 = push_bit 30 (take_bit 1 (drop_bit 5 (take_bit 7 (drop_bit 25 (x :: u32)))))"
  "x AND 0x60000000 = push_bit 29 (take_bit 2 (drop_bit 4 (take_bit 7 (drop_bit 25 x))))"
proof -
  have "take_bit 1 (drop_bit 30 x) = take_bit 1 (drop_bit 5 (take_bit 7 (drop_bit 25 x)))"
    "take_bit 2 (drop_bit 29 x) = take_bit 2 (drop_bit 4 (take_bit 7 (drop_bit 25 x)))"
    by (rule bit_word_eqI, simp only: bit_take_bit_iff bit_drop_bit_eq comp_apply, fastforce)+
  then show "x AND 0x40000000 = push_bit 30 (take_bit 1 (drop_bit 5 (take_bit 7 (drop_bit 25 x))))"
    "x AND 0x60000000 = push_bit 29 (take_bit 2 (drop_bit 4 (take_bit 7 (drop_bit 25 x))))"
    using masked_field [of 30 1 x] masked_field [of 29 2 x] by simp_all
qed

lemma alu_correct:
  assumes "take_bit 7 (drop_bit 25 x) = alu_funct7 op \<or> op \<notin> set [OpAdd, OpSub, OpSll, OpSrl, OpSra] \<or> op = OpAdd \<and> \<not> r"
    and "op = OpSub \<longrightarrow> r" "op = OpSra \<longrightarrow> SUPPORT_SRA C"
    and "unat b mod 32 = unat b' mod 32 \<and> op \<in> set [OpSll, OpSrl, OpSra] \<or> b = b'"
  shows "basic_op C x r (alu_funct3 op) a b = Some (isa_alu op a b')"
  using assms
  by (cases op) (auto simp: basic_op_def SUB_TEST_MASK_def ARITHMETIC_SHIFT_RIGHT_TEST_MASK_def ROTATE_MASK_def
      test_masks and_31 srl sra push_bit_eq_mult word_less_nat_alt)

section \<open>Bytes of memory words\<close>

lemma horner_bytes: "(\<Sum>k < n. 256 ^ k * (x div 256 ^ k mod 256)) = x mod 256 ^ n" for x :: nat
proof (induction n)
  case (Suc n)
  then show ?case
    by (simp add: mod_mult2_eq mult.commute [of 256])
qed simp

lemma pow_256: "(256 :: nat) ^ k = 2 ^ (8 * k)"
  by (simp add: power_mult)

lemma unat_byte: "unat (take_bit (8 * n) (drop_bit (8 * k) (w :: u32))) = unat w div 256 ^ k mod 256 ^ n"
proof -
  have "unat (drop_bit (8 * k) w) = unat w div 2 ^ (8 * k)"
    using unsigned_less [where ?'a = nat, of w]
    by (intro trans [OF unsigned_drop_bit_eq]) (simp add: drop_bit_eq_div take_bit_nat_eq_self)
  then show ?thesis
    unfolding unsigned_take_bit_eq by (simp add: take_bit_eq_mod pow_256)
qed

lemma load_sum:
  assumes "a mod 4 + n \<le> 4" "w = inner m ! (a div 4)"
  shows "(\<Sum>k < n. 256 ^ k * mem_byte m (a + k)) = unat (take_bit (8 * n) (drop_bit (8 * (a mod 4)) w))"
proof -
  have "mem_byte m (a + k) = unat w div 256 ^ (a mod 4) div 256 ^ k mod 256" if "k < n" for k
  proof -
    have "a + k = a mod 4 + k + a div 4 * 4"
      by simp
    moreover have "(a mod 4 + k + a div 4 * 4) div 4 = a div 4" "(a mod 4 + k + a div 4 * 4) mod 4 = a mod 4 + k"
      using assms(1) that by (simp_all only: div_mult_self1 mod_mult_self1) simp_all
    ultimately have "(a + k) div 4 = a div 4" "(a + k) mod 4 = a mod 4 + k"
      by (simp_all only:)
    then show ?thesis
      using assms(2) by (simp add: mem_byte_def power_add div_mult2_eq)
  qed
  then have "(\<Sum>k < n. 256 ^ k * mem_byte m (a + k)) = (\<Sum>k < n. 256 ^ k * (unat w div 256 ^ (a mod 4) div 256 ^ k mod 256))"
    by simp
  then show ?thesis
    by (simp add: horner_bytes unat_byte)
qed

lemma sign_extension:
  assumes "n < 31" "take_bit (Suc n) x = (x :: u32)"
  shows "signed_take_bit n x = (if 2 ^ n \<le> unat x then x - 2 ^ Suc n else x)"
proof -
  define k where "k = uint x"
  have x: "x = word_of_int k"
    by (simp add: k_def)
  have "k = take_bit (Suc n) k"
    using assms(2) unsigned_take_bit_eq [where ?'a = int, of "Suc n" x] by (simp add: k_def)
  then have k: "0 \<le> k" "k < 2 ^ Suc n"
    using take_bit_int_less_exp [of "Suc n" k] by (simp_all add: k_def)
  then have "k div 2 ^ n = of_bool (2 ^ n \<le> k)"
    by (cases "2 ^ n \<le> k") (simp_all add: div_pos_geq div_pos_pos_trivial)
  then have "signed_take_bit n k = k - 2 ^ Suc n * of_bool (2 ^ n \<le> k)"
    using k by (simp add: signed_take_bit_eq_take_bit_minus bit_iff_odd take_bit_int_eq_self)
  moreover have "signed_take_bit n (word_of_int k :: u32) = word_of_int (signed_take_bit n k)"
    using \<open>n < 31\<close> by (intro bit_word_eqI) (auto simp: bit_simps min_def)
  moreover have "2 ^ n \<le> unat x \<longleftrightarrow> 2 ^ n \<le> k"
  proof -
    have "int (unat x) = k"
      by (simp add: k_def)
    moreover have "2 ^ n \<le> unat x \<longleftrightarrow> int (2 ^ n) \<le> int (unat x)"
      by (rule of_nat_le_iff [symmetric])
    ultimately show ?thesis
      by simp
  qed
  ultimately show ?thesis
    unfolding x by simp
qed


lemma sign_extension_bytes:
  "take_bit 8 x = x \<Longrightarrow> signed_take_bit 7 x = (if 128 \<le> unat x then x - 256 else (x :: u32))"
  "take_bit 16 x = x \<Longrightarrow> signed_take_bit 15 x = (if 32768 \<le> unat x then x - 65536 else x)"
  using sign_extension [of 7 x] sign_extension [of 15 x] by (simp_all del: take_bit_Suc)

section \<open>Loads and stores\<close>

definition size_ok :: "machine_config \<Rightarrow> nat \<Rightarrow> bool" where
  "size_ok C n \<longleftrightarrow> n \<in> set [1, 2, 4] \<and> (n < 4 \<longrightarrow> SUPPORT_LOAD_LESS_THAN_WORD C)"

lemma aligned_access_iff:
  assumes "size_ok C n"
  shows "aligned_access C (ucast (a :: u32)) n \<longleftrightarrow> unat a mod n = 0"
proof -
  have "unat a mod 2 = unat a mod 4 mod 2"
    by (simp add: mod_mod_cancel)
  moreover have "unat a mod 4 < 4"
    by simp
  then have "unat a mod 4 = 0 \<or> unat a mod 4 = 1 \<or> unat a mod 4 = 2 \<or> unat a mod 4 = 3"
    by linarith
  ultimately show ?thesis
    using assms by (auto simp: size_ok_def aligned_access_def supported_accesses_def)
qed

lemma in_word: "size_ok C n \<Longrightarrow> unat (a :: u32) mod n = 0 \<Longrightarrow> unat a mod 4 + n \<le> 4"
  using aligned_access_bound [of C "ucast a" n] aligned_access_iff [of C n a] by simp

lemma read_in_memory:
  assumes "size_ok C n" "in_memory m a n"
  shows "\<exists>tr'. mem_read C VectorMemoryImpl m tr (ucast a) n MemLoad NoTrap =
    Some (take_bit (8 * n) (drop_bit (8 * (unat a mod 4)) (inner m ! (unat a div 4))), tr', NoTrap)"
proof -
  have "aligned_access C (ucast a) n"
    "vector_word_at m (unat (ucast a :: u64) div 4) = Some (inner m ! (unat a div 4))"
    using assms by (simp_all add: in_memory_def aligned_access_iff vector_word_at_def)
  from vm.mem_read_in [OF this, of MemLoad tr NoTrap] show ?thesis
    by (simp flip: take_bit_eq_mask)
qed

lemma read_outside:
  assumes "size_ok C n" "\<not> in_memory m a n"
  shows "mem_read C VectorMemoryImpl m tr (ucast a) n MemLoad NoTrap \<noteq> Some (v, tr', NoTrap)"
proof
  assume *: "mem_read C VectorMemoryImpl m tr (ucast a) n MemLoad NoTrap = Some (v, tr', NoTrap)"
  have al: "aligned_access C (ucast a) n"
    using mem_read_SomeD [OF *]
    by (auto simp: aligned_access_def unalignment_of_mod split: if_splits)
  moreover have "vector_word_at m (unat a div 4) \<noteq> None"
    using vm.mem_read_out [OF al, of m MemLoad tr NoTrap] * by auto
  ultimately show False
    using assms by (auto simp: in_memory_def aligned_access_iff vector_word_at_def split: if_splits)
qed

lemma load_value_eq:
  assumes "size_ok C (load_size op)" "in_memory m a (load_size op)"
    and "load_signed op \<longrightarrow> SUPPORT_SIGNED_LOAD C"
  shows "load_extend C (load_funct3 op) (take_bit (8 * load_size op) (drop_bit (8 * (unat a mod 4)) (inner m ! (unat a div 4)))) =
    Some (load_value op m (unat a))"
proof -
  define raw where "raw = take_bit (8 * load_size op) (drop_bit (8 * (unat a mod 4)) (inner m ! (unat a div 4)))"
  have sum: "(\<Sum>k < load_size op. 256 ^ k * mem_byte m (unat a + k)) = unat raw"
    using load_sum [OF in_word [OF assms(1), of a] refl, of m] assms(2) by (simp add: in_memory_def raw_def)
  have raw: "take_bit (8 * load_size op) raw = raw"
    by (simp add: raw_def)
  have val: "load_value op m (unat a) = (if load_signed op \<and> 2 ^ (8 * load_size op - 1) \<le> unat raw
      then raw - 2 ^ (8 * load_size op) else raw)"
    unfolding load_value_def sum Let_def by simp
  have "load_extend C (load_funct3 op) raw = Some (if load_signed op \<and> 2 ^ (8 * load_size op - 1) \<le> unat raw
      then raw - 2 ^ (8 * load_size op) else raw)"
  proof (cases op)
    case LB
    then show ?thesis
      using assms(3) raw by (simp add: load_extend_def sign_extend_8_spec sign_extension_bytes)
  next
    case LH
    then show ?thesis
      using assms(3) raw by (simp add: load_extend_def sign_extend_16_spec sign_extension_bytes)
  qed (use raw in \<open>simp_all add: load_extend_def zero_extend_8_spec zero_extend_16_spec\<close>)
  then show ?thesis
    by (simp only: val flip: raw_def)
qed

lemma mem_byte_byte_of: "mem_byte m i = unat (byte_of (i mod 4) (inner m ! (i div 4)))"
  using unat_byte [of 1 "i mod 4" "inner m ! (i div 4)"] by (simp add: mem_byte_def byte_of_def)

lemma vector_update:
  assumes "vector_word_at m' = (vector_word_at m)(i \<mapsto> new)" "i < length (inner m)"
  shows "inner m' = (inner m)[i := new]"
proof -
  have dom: "k < length (inner m') \<longleftrightarrow> k < length (inner m)" for k
    using fun_cong [OF assms(1), of k] assms(2) by (auto simp: vector_word_at_def split: if_splits)
  then have len: "length (inner m') = length (inner m)"
    by (meson linorder_less_linear order_less_irrefl)
  show ?thesis
  proof (rule nth_equalityI)
    fix k assume "k < length (inner m')"
    then show "inner m' ! k = (inner m)[i := new] ! k"
      using fun_cong [OF assms(1), of k] len by (auto simp: vector_word_at_def nth_list_update split: if_splits)
  qed (simp add: len)
qed

lemma in_access_aux:
  fixes p q r s n :: nat
  assumes "r + n \<le> 4" "s < 4"
  shows "4 * p + r \<le> 4 * q + s \<and> 4 * q + s < 4 * p + r + n \<longleftrightarrow> q = p \<and> r \<le> s \<and> s < r + n"
proof (cases q p rule: linorder_cases)
  case less
  then have "4 * q + 4 \<le> 4 * p"
    by simp
  then show ?thesis
    using assms less by auto
next
  case greater
  then have "4 * p + 4 \<le> 4 * q"
    by simp
  then show ?thesis
    using assms greater by auto
qed simp

lemma in_access_nat:
  fixes a i :: nat
  assumes "a mod 4 + n \<le> 4"
  shows "a \<le> i \<and> i < a + n \<longleftrightarrow> i div 4 = a div 4 \<and> a mod 4 \<le> i mod 4 \<and> i mod 4 < a mod 4 + n"
  using in_access_aux [OF assms, of "i mod 4" "a div 4" "i div 4"] by simp

lemma write_in_memory:
  assumes "size_ok C n" "in_memory m a n"
  shows "\<exists>m' tr'. mem_write C VectorMemoryImpl m tr (ucast a) v n NoTrap = Some (m', tr', NoTrap) \<and>
    stores n m (unat a) v m'"
proof -
  let ?i = "unat a div 4" and ?off = "unat a mod 4"
  have bound: "?off + n \<le> 4" "?i < length (inner m)"
    using in_word assms by (auto simp: in_memory_def)
  obtain m' new tr' where wr: "mem_write C VectorMemoryImpl m tr (ucast a) v n NoTrap = Some (m', tr', NoTrap)"
    and upd: "vector_word_at m' = (vector_word_at m)(?i \<mapsto> new)"
    and new: "\<forall>j < 4. byte_of j new = (if ?off \<le> j \<and> j < ?off + n then byte_of (j - ?off) v
      else byte_of j (inner m ! ?i))"
    using vm.mem_write_in [of C "ucast a" n m "inner m ! ?i" tr v] assms
    by (auto simp: in_memory_def aligned_access_iff vector_word_at_def)
  have inner: "inner m' = (inner m)[?i := new]"
    using vector_update [OF upd bound(2)] .
  have "mem_byte m' k = (if unat a \<le> k \<and> k < unat a + n then unat v div 256 ^ (k - unat a) mod 256 else mem_byte m k)"
    if "k div 4 < length (inner m)" for k
  proof (cases "k div 4 = ?i")
    case True
    have "k = 4 * (k div 4) + k mod 4" "unat a = 4 * ?i + ?off"
      by simp_all
    then have "k mod 4 - ?off = k - unat a"
      using True by linarith
    then have "byte_of (k mod 4) new = (if unat a \<le> k \<and> k < unat a + n then byte_of (k - unat a) v
        else byte_of (k mod 4) (inner m ! ?i))"
      using new [rule_format, of "k mod 4"] in_access_nat [OF bound(1), of k] True by simp
    then show ?thesis
      using unat_byte [of 1 "k - unat a" v] True bound(2)
      by (simp add: mem_byte_byte_of inner) (simp add: byte_of_def)
  next
    case False
    then show ?thesis
      using in_access_nat [OF bound(1), of k] by (auto simp: mem_byte_def inner)
  qed
  then show ?thesis
    using wr inner by (auto simp: stores_def)
qed

lemma write_outside:
  assumes "size_ok C n" "\<not> in_memory m a n"
  shows "mem_write C VectorMemoryImpl m tr (ucast a) v n NoTrap \<noteq> Some (m', tr', NoTrap)"
proof
  assume *: "mem_write C VectorMemoryImpl m tr (ucast a) v n NoTrap = Some (m', tr', NoTrap)"
  have al: "aligned_access C (ucast a) n"
    using * by (auto simp: mem_write_def aligned_access_def unalignment_of_mod Let_def split: if_splits)
  moreover have "vector_word_at m (unat a div 4) \<noteq> None"
    using vm.mem_write_out [OF al, of m tr v NoTrap] * by auto
  ultimately show False
    using assms by (auto simp: in_memory_def aligned_access_iff vector_word_at_def split: if_splits)
qed

end
