(* ===== verification/IsaExec.thy ===== *)
theory IsaExec
  imports Isa
begin

text \<open>
  The machines implement the reference semantics of \<open>Isa\<close>.  A cycle of the first machine on an encoded
  instruction performs the instruction's step and panics when there is none; whole executions of the
  reference semantics are carried over to the entry points and to the unrolled machine.
\<close>

section \<open>The opcode handlers on encoded instructions\<close>

lemma low_bits_zero: "(t - 4) AND 3 = 0 \<longleftrightarrow> unat (t :: u32) mod 4 = 0"
proof -
  have "t AND 3 = take_bit 2 t"
    by (simp add: take_bit_eq_mask mask_eq_exp_minus_1)
  moreover have "unat (take_bit 2 t) = unat t mod 4"
    by (metis unsigned_take_bit_eq take_bit_eq_mod power2_eq_square num_double numeral_times_numeral)
  ultimately show ?thesis
    unfolding low_bits_minus_4 by (metis unat_eq_0)
qed

lemma encode_upper:
  "get_rd (encode (Lui rd imm)) = ucast rd" "get_rd (encode (Auipc rd imm)) = ucast rd"
  "v1_execute I csr (encode (Lui rd imm)) d a b mode pc w = Some (Writeback d (push_bit 12 (ucast imm)) pc w)"
  "v1_execute I csr (encode (Auipc rd imm)) d a b mode pc w = Some (Writeback d (pc + push_bit 12 (ucast imm)) pc w)"
  by (simp_all add: v1_execute_def v1_lui_def v1_auipc_def decode decode_imm)

lemma encode_jumps:
  fixes rd rs1 :: reg
  shows "get_rd (encode (Jal rd imm)) = ucast rd" "get_rd (encode (Jalr rd rs1 off)) = ucast rd"
    "get_formal_rs1 (encode (Jalr rd rs1 off)) = ucast rs1"
    "v1_execute I csr (encode (Jal rd imm)) d a b mode pc w =
      (let t = pc + 2 * scast imm
       in Some (if unat t mod 4 = 0 then Writeback d (pc + 4) (t - 4) w else Trapped InstructionAddressMisaligned w))"
    "v1_execute I csr (encode (Jalr rd rs1 off)) d a b mode pc w =
      (let t = (a + scast off) AND NOT 1
       in Some (if unat t mod 4 = 0 then Writeback d (pc + 4) (t - 4) w else Trapped InstructionAddressMisaligned w))"
  by (simp_all add: v1_execute_def v1_jal_def v1_jalr_def Let_def decode decode_imm diff_add_eq low_bits_zero)

lemma encode_branch:
  fixes rs1 rs2 :: reg
  shows "get_formal_rs1 (encode (Branch op rs1 rs2 off)) = ucast rs1"
    "get_formal_rs2 (encode (Branch op rs1 rs2 off)) = ucast rs2"
    "v1_execute I csr (encode (Branch op rs1 rs2 off)) d a b mode pc w =
      (let t = pc + 2 * scast off
       in Some (if \<not> isa_branch op a b then Writeback 0 0 pc w
                else if unat t mod 4 = 0 then Writeback 0 0 (t - 4) w else Trapped InstructionAddressMisaligned w))"
proof -
  have "branch_condition (branch_funct3 op) a b = Some (isa_branch op a b)"
    by (cases op) (simp_all add: branch_condition_def word_less_nat_alt word_le_nat_alt)
  then show "v1_execute I csr (encode (Branch op rs1 rs2 off)) d a b mode pc w =
      (let t = pc + 2 * scast off
       in Some (if \<not> isa_branch op a b then Writeback 0 0 pc w
                else if unat t mod 4 = 0 then Writeback 0 0 (t - 4) w else Trapped InstructionAddressMisaligned w))"
    by (simp add: v1_execute_def v1_branch_def Let_def decode decode_imm low_bits_zero)
qed (simp_all add: decode)

lemma r_type_bit: "(x :: u32) AND 0x20 = push_bit 5 (take_bit 1 (drop_bit 5 (take_bit 7 x)))"
proof -
  have "take_bit 1 (drop_bit 5 x) = take_bit 1 (drop_bit 5 (take_bit 7 x))"
    by (rule bit_word_eqI, simp only: bit_take_bit_iff bit_drop_bit_eq comp_apply, fastforce)
  then show ?thesis
    using masked_field [of 5 1 x] by simp
qed

lemma encode_op:
  fixes rd rs1 rs2 :: reg
  shows "get_rd (encode (Op op rd rs1 rs2)) = ucast rd" "get_formal_rs1 (encode (Op op rd rs1 rs2)) = ucast rs1"
    "get_formal_rs2 (encode (Op op rd rs1 rs2)) = ucast rs2"
    "supported (i_conf I) (Op op rd rs1 rs2) \<Longrightarrow> v1_execute I csr (encode (Op op rd rs1 rs2)) d a b mode pc w =
      Some (Writeback d (isa_alu op a b) pc w)"
proof -
  assume "supported (i_conf I) (Op op rd rs1 rs2)"
  then have "basic_op (i_conf I) (encode (Op op rd rs1 rs2)) True (alu_funct3 op) a b = Some (isa_alu op a b)"
    by (intro alu_correct) (auto simp: decode)
  moreover have "valid_encoding True (alu_funct3 op) (alu_funct7 op)" "alu_funct7 op \<noteq> 1"
    by (cases op; simp add: valid_encoding_def)+
  ultimately show "v1_execute I csr (encode (Op op rd rs1 rs2)) d a b mode pc w =
      Some (Writeback d (isa_alu op a b) pc w)"
    by (simp add: v1_execute_def v1_op_def Let_def decode r_type_bit)
qed (simp_all add: decode)

lemma encode_muldiv:
  fixes rd rs1 rs2 :: reg
  shows "get_rd (encode (MulDiv op rd rs1 rs2)) = ucast rd" "get_formal_rs1 (encode (MulDiv op rd rs1 rs2)) = ucast rs1"
    "get_formal_rs2 (encode (MulDiv op rd rs1 rs2)) = ucast rs2"
    "supported (i_conf I) (MulDiv op rd rs1 rs2) \<Longrightarrow> v1_execute I csr (encode (MulDiv op rd rs1 rs2)) d a b mode pc w =
      Some (Writeback d (isa_muldiv op a b) pc w)"
  using m_extension_correct [of "i_conf I" op rd rs1 rs2 a b]
  by (simp_all add: v1_execute_def v1_op_def Let_def decode r_type_bit)

lemma bit_imm: "bit (scast (i :: 12 word) :: u32) n \<longleftrightarrow> n < 32 \<and> bit i (min n 11)"
  by (simp add: bit_simps min.commute)

lemma shift_operand:
  assumes "op \<in> set [OpSll, OpSrl, OpSra]"
  shows "take_bit 7 (drop_bit 5 (scast (shift_imm op i) :: u32)) = alu_funct7 op"
    "take_bit 5 (scast (shift_imm op i) :: u32) = take_bit 5 (scast i)"
proof -
  have bits: "bit (0x400 :: int) n \<longleftrightarrow> n = 10" "bit (0x20 :: int) n \<longleftrightarrow> n = 5" for n
    using bit_exp_iff [of 10 n, where ?'a = int] bit_exp_iff [of 5 n, where ?'a = int] by auto
  have imm: "bit (shift_imm op i) n \<longleftrightarrow> n < 5 \<and> bit i n \<or> n = 10 \<and> op = OpSra" for n
    using assms by (auto simp: bit_or_iff bit_take_bit_iff bits)
  have f7: "bit (alu_funct7 op) n \<longleftrightarrow> n = 5 \<and> op = OpSra" for n
    using assms by (auto simp: bits)
  show "take_bit 7 (drop_bit 5 (scast (shift_imm op i) :: u32)) = alu_funct7 op"
    by (rule bit_word_eqI) (simp only: bit_take_bit_iff bit_drop_bit_eq comp_apply bit_imm imm f7, auto)
  show "take_bit 5 (scast (shift_imm op i) :: u32) = take_bit 5 (scast i)"
    by (rule bit_word_eqI) (simp only: bit_take_bit_iff bit_imm imm, auto)
qed

lemma encode_op_imm:
  fixes rd rs1 :: reg
  shows "get_rd (encode (OpImm op rd rs1 imm)) = ucast rd" "get_formal_rs1 (encode (OpImm op rd rs1 imm)) = ucast rs1"
    "supported (i_conf I) (OpImm op rd rs1 imm) \<Longrightarrow> v1_execute I csr (encode (OpImm op rd rs1 imm)) d a b mode pc w =
      Some (Writeback d (isa_alu op a (scast imm)) pc w)"
proof -
  let ?x = "encode (OpImm op rd rs1 imm)" and ?b = "scast (shift_imm op imm) :: u32"
  assume sup: "supported (i_conf I) (OpImm op rd rs1 imm)"
  have f7: "take_bit 7 (drop_bit 25 ?x) = take_bit 7 (drop_bit 5 ?b)"
    by (rule bit_word_eqI) (auto simp: put_I_def bit_put_field bit_take_bit_iff bit_drop_bit_eq)
  have shift: "op \<in> set [OpSll, OpSrl, OpSra] \<Longrightarrow> take_bit 7 (drop_bit 25 ?x) = alu_funct7 op \<and>
      unat ?b mod 32 = unat (scast imm :: u32) mod 32"
    using shift_operand [of op imm] unfolding f7 by (metis and_31 and_low_mask(4))
  have other: "op \<notin> set [OpSll, OpSrl, OpSra] \<Longrightarrow> ?b = scast imm"
    by (cases op) simp_all
  have "basic_op (i_conf I) ?x False (alu_funct3 op) a ?b = Some (isa_alu op a (scast imm))"
    using sup shift other by (intro alu_correct) auto
  moreover have "valid_encoding False (alu_funct3 op) (take_bit 7 (drop_bit 25 ?x))"
    using sup shift by (cases op) (auto simp: valid_encoding_def)
  ultimately show "v1_execute I csr ?x d a b mode pc w =
      Some (Writeback d (isa_alu op a (scast imm)) pc w)"
    by (simp add: v1_execute_def v1_op_def Let_def decode decode_imm r_type_bit)
qed (simp_all add: decode)

lemma baseline_fields [simp]:
  "i_conf (baseline_impls C nd) = C" "i_ms (baseline_impls C nd) = VectorMemoryImpl"
  "map_virtual_to_physical (i_mmu (baseline_impls C nd)) mmu a mode acc m tr trap = Some (ucast a, m, tr, trap)"
  by (simp_all add: baseline_impls_def nommu.map_bare)

lemma encode_load:
  fixes rd rs1 :: reg
  assumes I_def: "I = baseline_impls C nd" and x_def: "x = encode (Load op rd rs1 off)"
    and sup: "supported C (Load op rd rs1 off)"
  shows "get_rd x = ucast rd" "get_formal_rs1 x = ucast rs1"
    "in_memory m (a + scast off) (load_size op) \<Longrightarrow> v1_memory w = m \<Longrightarrow>
      \<exists>tr. v1_execute I csr x d a b Machine pc w =
        Some (Writeback d (load_value op m (unat (a + scast off))) pc (w\<lparr>v1_memory := m, v1_tracer := tr\<rparr>))"
    "\<not> in_memory m (a + scast off) (load_size op) \<Longrightarrow> v1_memory w = m \<Longrightarrow>
      v1_execute I csr x d a b Machine pc w \<noteq> Some (Writeback rd' v p w2)"
proof -
  let ?a = "a + scast off"
  have n: "size_ok C (load_size op)" "load_signed op \<longrightarrow> SUPPORT_SIGNED_LOAD C"
    using sup by (cases op; simp add: size_ok_def)+
  have f3: "load_funct3 op \<in> set [0, 1, 2, 4, 5]" "load_num_bytes (load_funct3 op) = load_size op"
    by (cases op; simp add: load_num_bytes_def)+
  have x: "v1_execute I csr x d a b Machine pc w = do {
      (operand, tracer, trap) \<leftarrow> mem_read C VectorMemoryImpl (v1_memory w) (v1_tracer w) (ucast ?a) (load_size op) MemLoad NoTrap;
      if is_a_trap trap then Some (Trapped trap (w\<lparr>v1_tracer := tracer\<rparr>))
      else case load_extend C (load_funct3 op) operand of
          None \<Rightarrow> Some (Trapped IllegalInstruction (w\<lparr>v1_tracer := tracer\<rparr>))
        | Some ret_val \<Rightarrow> Some (Writeback d ret_val pc (w\<lparr>v1_tracer := tracer\<rparr>)) }"
    using f3 by (simp add: I_def x_def v1_execute_def v1_load_def Let_def decode decode_imm cong: if_cong option.case_cong)
  show "\<exists>tr. v1_execute I csr x d a b Machine pc w =
        Some (Writeback d (load_value op m (unat ?a)) pc (w\<lparr>v1_memory := m, v1_tracer := tr\<rparr>))"
    if inside: "in_memory m ?a (load_size op)" and m: "v1_memory w = m"
  proof -
    obtain tr where "mem_read C VectorMemoryImpl m (v1_tracer w) (ucast ?a) (load_size op) MemLoad NoTrap =
        Some (take_bit (8 * load_size op) (drop_bit (8 * (unat ?a mod 4)) (inner m ! (unat ?a div 4))), tr, NoTrap)"
      using read_in_memory [OF n(1) inside] by blast
    moreover have "w\<lparr>v1_memory := m\<rparr> = w"
      using m by auto
    ultimately show ?thesis
      unfolding x m using load_value_eq [OF n(1) inside n(2)] by (intro exI [of _ tr]) simp
  qed
  show "v1_execute I csr x d a b Machine pc w \<noteq> Some (Writeback rd' v p w2)"
    if "\<not> in_memory m ?a (load_size op)" "v1_memory w = m"
    using read_outside [OF n(1) that(1)] unfolding x that(2) by (auto simp: panic_simps split: if_splits option.splits)
qed (simp_all add: x_def decode)

lemma mem_write_tracer:
  assumes "mem_write C ms m tr a v n t = Some (m', tr', t')"
  shows "\<exists>tr'. mem_write C ms m tr2 a v n t = Some (m', tr', t')"
  using assms by (auto simp: mem_write_def Let_def panic_simps split: if_splits)

lemma encode_store:
  fixes rs1 rs2 :: reg
  assumes I_def: "I = baseline_impls C nd" and x_def: "x = encode (Store op rs1 rs2 off)"
    and sup: "supported C (Store op rs1 rs2 off)"
  shows "get_formal_rs1 x = ucast rs1" "get_formal_rs2 x = ucast rs2"
    "in_memory m (a + scast off) (store_size op) \<Longrightarrow>
      \<exists>m'. stores (store_size op) m (unat (a + scast off)) b m' \<and> (\<forall>w. v1_memory w = m \<longrightarrow> (\<exists>tr.
        v1_execute I csr x d a b Machine pc w = Some (Writeback 0 0 pc (w\<lparr>v1_memory := m', v1_tracer := tr\<rparr>))))"
    "\<not> in_memory m (a + scast off) (store_size op) \<Longrightarrow> v1_memory w = m \<Longrightarrow>
      v1_execute I csr x d a b Machine pc w \<noteq> Some (Writeback rd' v p w2)"
proof -
  let ?a = "a + scast off"
  have n: "size_ok C (store_size op)"
    using sup by (cases op; simp add: size_ok_def)
  have f3: "store_funct3 op \<in> set [0, 1, 2]" "2 ^ unat (store_funct3 op) = store_size op"
    by (cases op; simp)+
  have x: "v1_execute I csr x d a b Machine pc w = do {
      (m, tracer, trap) \<leftarrow> mem_write C VectorMemoryImpl (v1_memory w) (v1_tracer w) (ucast ?a) b (store_size op) NoTrap;
      if is_a_trap trap then Some (Trapped trap (w\<lparr>v1_memory := m, v1_tracer := tracer\<rparr>))
      else Some (Writeback 0 0 pc (w\<lparr>v1_memory := m, v1_tracer := tracer\<rparr>)) }" for w
    using f3 by (simp add: I_def x_def v1_execute_def v1_store_def Let_def decode decode_imm add.commute [of "scast off" a])
  show "\<exists>m'. stores (store_size op) m (unat ?a) b m' \<and> (\<forall>w. v1_memory w = m \<longrightarrow> (\<exists>tr.
      v1_execute I csr x d a b Machine pc w = Some (Writeback 0 0 pc (w\<lparr>v1_memory := m', v1_tracer := tr\<rparr>))))"
    if inside: "in_memory m ?a (store_size op)"
  proof -
    obtain m' tr where m': "mem_write C VectorMemoryImpl m [] (ucast ?a) b (store_size op) NoTrap = Some (m', tr, NoTrap)"
        "stores (store_size op) m (unat ?a) b m'"
      using write_in_memory [OF n inside] by blast
    have "\<exists>tr. v1_execute I csr x d a b Machine pc w = Some (Writeback 0 0 pc (w\<lparr>v1_memory := m', v1_tracer := tr\<rparr>))"
      if "v1_memory w = m" for w
      using mem_write_tracer [OF m'(1), of "v1_tracer w"] that unfolding x by auto
    with m'(2) show ?thesis
      by blast
  qed
  show "v1_execute I csr x d a b Machine pc w \<noteq> Some (Writeback rd' v p w2)"
    if "\<not> in_memory m ?a (store_size op)" "v1_memory w = m"
    using write_outside [OF n that(1)] unfolding x that(2) by (auto simp: panic_simps split: if_splits)
qed (simp_all add: x_def decode)

section \<open>One cycle executes one instruction\<close>

definition performs :: "instruction \<Rightarrow> (vector_memory, 'mmu, 'nd) machine_v1
    \<Rightarrow> (vector_memory, 'mmu, 'nd) machine_v1 option \<Rightarrow> bool" where
  "performs i w result \<longleftrightarrow>
    (case result of
       None \<Rightarrow> \<not> (\<exists>r p m. isa_step i (regs_of w) (pc_of w) (v1_memory w) r p m)
     | Some w' \<Rightarrow> isa_step i (regs_of w) (pc_of w) (v1_memory w) (regs_of w') (pc_of w') (v1_memory w') \<and>
         v1_nd w' = v1_nd w \<and> v1_ready w')"

definition at_instruction :: "instruction \<Rightarrow> (vector_memory, 'mmu, 'nd) machine_v1 \<Rightarrow> bool" where
  "at_instruction i w \<longleftrightarrow> v1_ready w \<and> unat (pc_of w) mod 4 = 0 \<and>
     vector_word_at (v1_memory w) (unat (pc_of w) div 4) = Some (encode i)"

lemma unat_reg [simp]: "unat (ucast (r :: reg) :: u32) = unat r"
  by (simp add: unsigned_ucast_eq take_bit_nat_eq_self_iff) (use unsigned_less [where ?'a = nat, of r] in simp)

lemma ucast_reg_0 [simp]: "(ucast (r :: reg) :: u32) = 0 \<longleftrightarrow> r = 0"
  by (metis unat_reg unat_eq_0)

lemma write_reg_eq: "regs_wf r \<Longrightarrow> write_reg rd v r = r[unat rd := if rd = 0 then 0 else v]"
  by (simp add: write_reg_def x0_update)

lemma performs_step:
  assumes C: "C \<in> set isa_configs" and at: "at_instruction i w"
    and ex: "\<And>w1. v1_state w1 = v1_state w \<Longrightarrow> v1_memory w1 = v1_memory w \<Longrightarrow> v1_mmu w1 = v1_mmu w \<Longrightarrow>
      \<exists>tr. v1_execute (baseline_impls C nd) (DelegationsCSRProcessor R VectorMemoryImpl) (encode i)
        (get_rd (encode i)) (regs_of w ! unat (get_formal_rs1 (encode i)))
        (regs_of w ! unat (get_formal_rs2 (encode i))) Machine (pc_of w) w1 =
          Some (Writeback rd v p (w1\<lparr>v1_memory := m, v1_tracer := tr\<rparr>))"
    and isa: "isa_step i (regs_of w) (pc_of w) (v1_memory w) ((regs_of w)[unat rd := if rd = 0 then 0 else v]) (p + 4) m"
  shows "performs i w (v1_cycle R (baseline_impls C nd) w)"
proof -
  have "\<exists>w'. v1_cycle R (baseline_impls C nd) w = Some w' \<and>
      regs_of w' = (regs_of w)[unat rd := if rd = 0 then 0 else v] \<and> pc_of w' = p + 4 \<and> v1_memory w' = m \<and>
      v1_nd w' = v1_nd w \<and> v1_mmu w' = v1_mmu w \<and> v1_ready w'"
    using at ex by (intro matching_machines.cycle_executes [OF matching_setups [OF C], where i = "encode i"])
      (auto simp: at_instruction_def)
  then show ?thesis
    using isa by (auto simp: performs_def)
qed

lemma performs_register:
  assumes C: "C \<in> set isa_configs" and at: "at_instruction i w"
    and ex: "\<And>w1. v1_execute (baseline_impls C nd) (DelegationsCSRProcessor R VectorMemoryImpl) (encode i)
        (get_rd (encode i)) (regs_of w ! unat (get_formal_rs1 (encode i)))
        (regs_of w ! unat (get_formal_rs2 (encode i))) Machine (pc_of w) w1 = Some (Writeback rd v p w1)"
    and isa: "isa_step i (regs_of w) (pc_of w) (v1_memory w) ((regs_of w)[unat rd := if rd = 0 then 0 else v])
      (p + 4) (v1_memory w)"
  shows "performs i w (v1_cycle R (baseline_impls C nd) w)"
  by (rule performs_step [OF C at _ isa], unfold ex) (metis machine_v1.surjective machine_v1.update_convs(2,3))

lemma performs_panic:
  assumes C: "C \<in> set isa_configs" and at: "at_instruction i w"
    and ex: "\<And>w1 rd v p w2. v1_state w1 = v1_state w \<Longrightarrow> v1_memory w1 = v1_memory w \<Longrightarrow>
      v1_execute (baseline_impls C nd) (DelegationsCSRProcessor R VectorMemoryImpl) (encode i)
        (get_rd (encode i)) (regs_of w ! unat (get_formal_rs1 (encode i)))
        (regs_of w ! unat (get_formal_rs2 (encode i))) Machine (pc_of w) w1 \<noteq> Some (Writeback rd v p w2)"
    and isa: "\<And>r p m. \<not> isa_step i (regs_of w) (pc_of w) (v1_memory w) r p m"
  shows "performs i w (v1_cycle R (baseline_impls C nd) w)"
proof (cases "v1_cycle R (baseline_impls C nd) w")
  case None
  then show ?thesis
    using isa by (simp add: performs_def)
next
  case (Some w')
  have "opcode_read VectorMemoryImpl (pc_of w) (v1_memory w) = Some (encode i)"
    using at by (auto simp: at_instruction_def opcode_read_def get_opcode_noexcept_def VectorMemoryImpl_def
        VectorMemoryImpl_get_def vector_word_at_def unat_div_distrib split: if_splits)
  then show ?thesis
    using matching_machines.cycle_SomeD [OF matching_setups [OF C] _ _ Some] at ex
    by (auto simp: at_instruction_def)
qed

lemma at_instruction_regs: "at_instruction i w \<Longrightarrow> regs_wf (regs_of w)"
  by (simp add: at_instruction_def v1_ready_def)

inductive_simps isa_step_jal: "isa_step (Jal rd off) r p m r' p' m'"
inductive_simps isa_step_jalr: "isa_step (Jalr rd rs1 off) r p m r' p' m'"
inductive_simps isa_step_branch: "isa_step (Branch op rs1 rs2 off) r p m r' p' m'"
inductive_simps isa_step_load: "isa_step (Load op rd rs1 off) r p m r' p' m'"
inductive_simps isa_step_store: "isa_step (Store op rs1 rs2 off) r p m r' p' m'"

lemma jumps_perform:
  assumes C: "C \<in> set isa_configs" and at: "at_instruction i w" and i: "i \<in> {Jal rd imm, Jalr rd rs1 off}"
  shows "performs i w (v1_cycle R (baseline_impls C nd) w)"
proof -
  define t where "t = (if i = Jal rd imm then pc_of w + 2 * scast imm else (regs_of w ! unat rs1 + scast off) AND NOT 1)"
  note simps = encode_jumps write_reg_eq [OF at_instruction_regs [OF at]] isa_step_jal isa_step_jalr Let_def
  show ?thesis
  proof (cases "unat t mod 4 = 0")
    case True
    then show ?thesis
      using i by (intro performs_register [OF C at, where rd = "ucast rd" and v = "pc_of w + 4" and p = "t - 4"])
        (auto simp: simps t_def simp del: encode.simps)
  next
    case False
    then show ?thesis
      using i by (intro performs_panic [OF C at]) (auto simp: simps t_def simp del: encode.simps split: if_splits)
  qed
qed

lemma branches_perform:
  assumes C: "C \<in> set isa_configs" and at: "at_instruction (Branch op rs1 rs2 off) w"
  shows "performs (Branch op rs1 rs2 off) w (v1_cycle R (baseline_impls C nd) w)"
proof -
  let ?t = "pc_of w + 2 * scast off" and ?taken = "isa_branch op (regs_of w ! unat rs1) (regs_of w ! unat rs2)"
  note simps = encode_branch x0_update [OF at_instruction_regs [OF at]] isa_step_branch Let_def
  show ?thesis
  proof (cases "?taken \<and> unat ?t mod 4 \<noteq> 0")
    case True
    then show ?thesis
      by (intro performs_panic [OF C at]) (auto simp: simps simp del: encode.simps)
  next
    case False
    then show ?thesis
      by (intro performs_register [OF C at, where rd = 0 and v = 0 and p = "if ?taken then ?t - 4 else pc_of w"])
        (auto simp: simps simp del: encode.simps)
  qed
qed

lemma loads_perform:
  assumes C: "C \<in> set isa_configs" and at: "at_instruction (Load op rd rs1 off) w" 
    and sup: "supported C (Load op rd rs1 off)"
  shows "performs (Load op rd rs1 off) w (v1_cycle R (baseline_impls C nd) w)"
proof -
  let ?a = "regs_of w ! unat rs1 + scast off"
  note enc = encode_load [OF refl refl sup]
  show ?thesis
  proof (cases "in_memory (v1_memory w) ?a (load_size op)")
    case True
    then show ?thesis
      using write_reg_eq [OF at_instruction_regs [OF at]] enc(3) [OF True]
      by (intro performs_step [OF C at, where rd = "ucast rd" and v = "load_value op (v1_memory w) (unat ?a)"
          and p = "pc_of w" and m = "v1_memory w"])
        (auto simp: enc(1,2) isa_step_load simp del: encode.simps)
  next
    case False
    then show ?thesis
      by (intro performs_panic [OF C at]) (auto simp: enc(1,2) enc(4) [OF False] isa_step_load simp del: encode.simps)
  qed
qed

lemma stores_perform:
  assumes C: "C \<in> set isa_configs" and at: "at_instruction (Store op rs1 rs2 off) w" 
    and sup: "supported C (Store op rs1 rs2 off)"
  shows "performs (Store op rs1 rs2 off) w (v1_cycle R (baseline_impls C nd) w)"
proof -
  let ?a = "regs_of w ! unat rs1 + scast off" and ?b = "regs_of w ! unat rs2"
  note enc = encode_store [OF refl refl sup]
  show ?thesis
  proof (cases "in_memory (v1_memory w) ?a (store_size op)")
    case True
    obtain m' where "stores (store_size op) (v1_memory w) (unat ?a) ?b m'"
      "\<forall>w1. v1_memory w1 = v1_memory w \<longrightarrow> (\<exists>tr. v1_execute (baseline_impls C nd)
        (DelegationsCSRProcessor R VectorMemoryImpl) (encode (Store op rs1 rs2 off)) (get_rd (encode (Store op rs1 rs2 off)))
        (regs_of w ! unat rs1) ?b Machine (pc_of w) w1 = Some (Writeback 0 0 (pc_of w) (w1\<lparr>v1_memory := m', v1_tracer := tr\<rparr>)))"
      using enc(3) [OF True] by blast
    then show ?thesis
      using True x0_update [OF at_instruction_regs [OF at]]
      by (intro performs_step [OF C at, where rd = 0 and v = 0 and p = "pc_of w" and m = m'])
        (auto simp: enc(1,2) isa_step_store simp del: encode.simps)
  next
    case False
    then show ?thesis
      by (intro performs_panic [OF C at]) (auto simp: enc(1,2) enc(4) [OF False] isa_step_store simp del: encode.simps)
  qed
qed

lemma cycle_performs:
  assumes C: "C \<in> set isa_configs" and sup: "supported C i" and at: "at_instruction i w"
  shows "performs i w (v1_cycle R (baseline_impls C nd) w)"
proof -
  note simps = write_reg_eq [OF at_instruction_regs [OF at]] isa_step.simps encode_upper encode_op encode_op_imm encode_muldiv
  show ?thesis
  proof (cases i)
    case (Lui rd imm)
    then show ?thesis
      by (intro performs_register [OF C at]) (auto simp: simps simp del: encode.simps)
  next
    case (Auipc rd imm)
    then show ?thesis
      by (intro performs_register [OF C at]) (auto simp: simps simp del: encode.simps)
  next
    case (Op op rd rs1 rs2)
    then show ?thesis
      using sup by (intro performs_register [OF C at]) (auto simp: simps simp del: encode.simps supported.simps)
  next
    case (OpImm op rd rs1 imm)
    then show ?thesis
      using sup by (intro performs_register [OF C at]) (auto simp: simps simp del: encode.simps supported.simps)
  next
    case (MulDiv op rd rs1 rs2)
    then show ?thesis
      using sup by (intro performs_register [OF C at]) (auto simp: simps simp del: encode.simps supported.simps)
  qed (use C at sup in \<open>auto intro: jumps_perform branches_perform loads_perform stores_perform\<close>)
qed

end
