(* ===== verification/Programs.thy ===== *)
theory Programs
  imports IsaExec
begin

text \<open>
  Executions of whole programs.  The reference semantics of \<open>Isa\<close> is deterministic; an execution of it
  that ends in a jump to itself is what both machines compute from their entry points.
\<close>

section \<open>The reference semantics is deterministic\<close>

lemma words_from_bytes:
  assumes "length (inner m) = length (inner m')" "\<forall>i. i div 4 < length (inner m) \<longrightarrow> mem_byte m i = mem_byte m' i"
  shows "m = m'"
proof -
  have word: "unat (inner x ! j) = (\<Sum>k < 4. 256 ^ k * mem_byte x (4 * j + k))" for j and x :: vector_memory
    using load_sum [of "4 * j" 4 "inner x ! j" x] by (simp add: take_bit_word_eq_self)
  have "inner m = inner m'"
  proof (rule nth_equalityI)
    fix j assume "j < length (inner m)"
    then have "(\<Sum>k < 4. 256 ^ k * mem_byte m (4 * j + k)) = (\<Sum>k < 4. 256 ^ k * mem_byte m' (4 * j + k))"
      using assms(2) by (intro sum.cong) auto
    then show "inner m ! j = inner m' ! j"
      using word [of m j] word [of m' j] by (simp add: word_eq_iff_unsigned [where ?'a = nat])
  qed (rule assms(1))
  then show ?thesis
    by (rule vector_memory.equality) simp
qed

lemma stores_unique: "stores n m a v m1 \<Longrightarrow> stores n m a v m2 \<Longrightarrow> m1 = m2"
  by (rule words_from_bytes) (auto simp: stores_def)

inductive_cases isa_step_elims:
  "isa_step (Lui rd imm) r p m r' p' m'" "isa_step (Auipc rd imm) r p m r' p' m'"
  "isa_step (Jal rd off) r p m r' p' m'" "isa_step (Jalr rd rs1 off) r p m r' p' m'"
  "isa_step (Branch b rs1 rs2 off) r p m r' p' m'" "isa_step (Load l rd rs1 off) r p m r' p' m'"
  "isa_step (Store s rs1 rs2 off) r p m r' p' m'" "isa_step (OpImm a rd rs1 imm) r p m r' p' m'"
  "isa_step (Op a rd rs1 rs2) r p m r' p' m'" "isa_step (MulDiv d rd rs1 rs2) r p m r' p' m'"

lemma isa_step_deterministic:
  "isa_step i r p m r1 p1 m1 \<Longrightarrow> isa_step i r p m r2 p2 m2 \<Longrightarrow> r2 = r1 \<and> p2 = p1 \<and> m2 = m1"
  by (induction rule: isa_step.induct) (elim isa_step_elims; simp add: stores_unique)+

section \<open>Executions\<close>

text \<open>An execution of \<open>n\<close> instructions that the configuration supports, none of which jumps to itself.\<close>

definition fetches :: "vector_memory \<Rightarrow> u32 \<Rightarrow> instruction \<Rightarrow> bool" where
  "fetches m pc i \<longleftrightarrow> unat pc mod 4 = 0 \<and> unat pc div 4 < length (inner m) \<and> inner m ! (unat pc div 4) = encode i"

inductive isa_run :: "machine_config \<Rightarrow> nat \<Rightarrow> u32 list \<Rightarrow> u32 \<Rightarrow> vector_memory \<Rightarrow> u32 list \<Rightarrow> u32 \<Rightarrow> vector_memory \<Rightarrow> bool"
  for C where
  stop: "isa_run C 0 r pc m r pc m"
| step: "fetches m pc i \<Longrightarrow> supported C i \<Longrightarrow> isa_step i r pc m r1 pc1 m1 \<Longrightarrow> pc1 \<noteq> pc \<Longrightarrow>
    isa_run C n r1 pc1 m1 r' pc' m' \<Longrightarrow> isa_run C (Suc n) r pc m r' pc' m'"

text \<open>A program halts at an instruction whose step leaves the program counter where it is.\<close>

definition halts_at :: "machine_config \<Rightarrow> u32 list \<Rightarrow> u32 \<Rightarrow> vector_memory \<Rightarrow> u32 list \<Rightarrow> vector_memory \<Rightarrow> bool" where
  "halts_at C r pc m r' m' \<longleftrightarrow> (\<exists>i. fetches m pc i \<and> supported C i \<and> isa_step i r pc m r' pc m')"

lemma mc_iter_add: "mc_iter M (k + l) m = mc_iter M k m \<bind> mc_iter M l"
  by (induction k arbitrary: m) (auto split: bind_splits)

lemma cycle_follows:
  assumes C: "C \<in> set isa_configs" and ready: "v1_ready w"
    and i: "fetches (v1_memory w) (pc_of w) i" "supported C i" "isa_step i (regs_of w) (pc_of w) (v1_memory w) r p m"
  shows "\<exists>w'. mc_cycle (v1_machine R (baseline_impls C nd)) w = Some w' \<and> regs_of w' = r \<and> pc_of w' = p \<and>
    v1_memory w' = m \<and> v1_nd w' = v1_nd w \<and> v1_ready w'"
proof -
  have "at_instruction i w"
    using ready i(1) by (simp add: at_instruction_def fetches_def vector_word_at_def)
  note perf = cycle_performs [OF C i(2) this, of R nd]
  show ?thesis
  proof (cases "v1_cycle R (baseline_impls C nd) w")
    case None
    then show ?thesis
      using perf i(3) by (auto simp: performs_def)
  next
    case (Some w')
    then have "isa_step i (regs_of w) (pc_of w) (v1_memory w) (regs_of w') (pc_of w') (v1_memory w')"
      "v1_nd w' = v1_nd w" "v1_ready w'"
      using perf by (simp_all add: performs_def)
    then show ?thesis
      using Some isa_step_deterministic [OF i(3)] by (simp add: v1_machine_def)
  qed
qed

lemma run_follows:
  assumes "isa_run C n r pc m r' pc' m'" "C \<in> set isa_configs" "v1_ready w" "r = regs_of w" "pc = pc_of w" "m = v1_memory w"
  shows "\<exists>w'. mc_iter (v1_machine R (baseline_impls C nd)) n w = Some w' \<and> regs_of w' = r' \<and> pc_of w' = pc' \<and>
    v1_memory w' = m' \<and> v1_nd w' = v1_nd w \<and> v1_ready w' \<and> (\<forall>k < n. \<not> stays (v1_machine R (baseline_impls C nd)) w k)"
  using assms
proof (induction arbitrary: w)
  case (step m pc i r r1 pc1 m1 n r' pc' m')
  let ?M = "v1_machine R (baseline_impls C nd)"
  obtain w1 where w1: "mc_cycle ?M w = Some w1" "regs_of w1 = r1" "pc_of w1 = pc1" "v1_memory w1 = m1"
      "v1_nd w1 = v1_nd w" "v1_ready w1"
    using cycle_follows [of C w i r1 pc1 m1 R nd] step.hyps step.prems by blast
  have "\<not> stays ?M w 0"
    using stays_0 [OF w1(1)] w1(3) step.hyps(4) step.prems by (simp add: v1_machine_def)
  then show ?case
    using step.IH [of w1] step.prems w1 by (auto simp: less_Suc_eq_0_disj stays_Suc)
qed simp

lemma machine_at_fields:
  "regs_of (machine_at entry m s) = replicate 32 0" "pc_of (machine_at entry m s) = entry" "v1_memory (machine_at entry m s) = m"
  by (simp_all add: machine_at_def RiscV32State_initial_def NUM_REGISTERS_def)

lemma halting_run:
  assumes C: "C \<in> set isa_configs" and run: "isa_run C n (replicate 32 0) entry m r pc m1"
    and halt: "halts_at C r pc m1 r' m2" and n: "n < cycles"
  shows "\<exists>sim. Simulator_run (v1_machine R (baseline_impls C nd)) no_hook no_hook
      (Simulator_new (machine_at entry m s) cycles) =
    Some (\<lparr>rr_state = \<lparr>registers = r', obs_pc = pc\<rparr>, rr_reached_end = True, rr_exec_cycles = n\<rparr>, sim) \<and>
    v1_memory (sim_machine sim) = m2 \<and> v1_nd (sim_machine sim) = s"
proof -
  let ?M = "v1_machine R (baseline_impls C nd)" and ?w = "machine_at entry m s"
  obtain w1 where w1: "mc_iter ?M n ?w = Some w1" "regs_of w1 = r" "pc_of w1 = pc" "v1_memory w1 = m1" "v1_nd w1 = v1_nd ?w"
      "v1_ready w1" "\<forall>k < n. \<not> stays ?M ?w k"
    using run_follows [OF run C machine_at_ready machine_at_fields [symmetric], where R = R and nd = nd] by blast
  obtain i where i: "fetches m1 pc i" "supported C i" "isa_step i r pc m1 r' pc m2"
    using halt by (auto simp: halts_at_def)
  obtain w2 where w2: "mc_cycle ?M w1 = Some w2" "regs_of w2 = r'" "pc_of w2 = pc" "v1_memory w2 = m2" "v1_nd w2 = v1_nd w1"
    using cycle_follows [OF C w1(6), of i r' pc m2 R nd] i w1 by blast
  have it: "mc_iter ?M (Suc n) ?w = Some w2"
    using mc_iter_add [of ?M n 1 ?w] w1(1) w2(1) by simp
  then have "stays ?M ?w n"
    using w1 w2 by (simp add: stays_def pc_at_def v1_machine_def)
  then show ?thesis
    using run_loop_ends [of n cycles ?M "Simulator_new ?w cycles" w2 0] n w1 w2 it
    by (auto simp: Simulator_run_def Simulator_new_def v1_machine_def machine_at_def)
qed

section \<open>Results\<close>

abbreviation ended :: "u32 list \<Rightarrow> u32 \<Rightarrow> nat \<Rightarrow> run_result" where
  "ended r pc n \<equiv> \<lparr>rr_state = \<lparr>registers = r, obs_pc = pc\<rparr>, rr_reached_end = True, rr_exec_cycles = n\<rparr>"

text \<open>C2: one cycle of the first machine executes the instruction at the program counter exactly as the
  reference semantics of RV32IM says.  In each of the five configurations and for every supported
  instruction, if the reference semantics has a step then the cycle returns with its registers,
  program counter and memory, reading no non-determinism; if there is none (misaligned target or
  access, access outside the memory) the cycle panics.\<close>

theorem cycle_executes_instruction:
  assumes "C \<in> set isa_configs" "supported C i" "at_instruction i w"
  shows "performs i w (v1_cycle R (baseline_impls C nd) w)"
  using assms by (rule cycle_performs)

lemma sample_encoding:
  "encode (OpImm OpAdd 1 0 5) = 0x00500093" "encode (Jal 0 0) = 0x6f"
  by (simp_all add: enc_def put_I_def put_J_def put_field_def mask_eq_exp_minus_1)

theorem cycle_executes_instruction_witness:
  "performs (OpImm OpAdd 1 0 5) (machine_at 0 \<lparr>inner = [0x00500093]\<rparr> QuasiUARTSource_default)
    (v1_cycle word256_lib (baseline_impls IMStandardIsaConfig QuasiUARTSource)
      (machine_at 0 \<lparr>inner = [0x00500093]\<rparr> QuasiUARTSource_default))"
  by (rule cycle_executes_instruction)
    (simp_all add: isa_configs_def at_instruction_def machine_at_ready machine_at_fields vector_word_at_def
      sample_encoding del: encode.simps)

text \<open>C1: the entry points compute what the reference semantics says.  If a program, loaded at its entry
  point, has a reference execution of \<open>n\<close> instructions to an instruction that jumps to itself, then every
  run of at least \<open>n + 1\<close> cycles returns with the final registers and program counter, the end
  reached, \<open>n\<close> cycles reported; the simulator of the unrolled machine returns the same result.\<close>

theorem program_result:
  assumes C: "C \<in> set isa_configs" and m: "loaded_memory entry bin = Some m"
    and run: "isa_run C n (replicate 32 0) entry m r pc m1"
    and halt: "halts_at C r pc m1 r' m2" and n: "n < cycles"
  shows "run_simple_for_num_cycles R C nd bin entry cycles s = Some (ended r' pc n) \<and>
    (\<exists>sim. Simulator_run (unrolled_machine (unrolled_impls C nd) (DelegationsCSRProcessor_unrolled R VectorMemoryImpl))
      no_hook no_hook (Simulator_new (ProverUnrolled_instantiate m [] s entry) cycles) = Some (ended r' pc n, sim))"
proof -
  obtain sim where sim: "Simulator_run (v1_machine R (baseline_impls C nd)) no_hook no_hook
      (Simulator_new (machine_at entry m s) cycles) = Some (ended r' pc n, sim)"
    using halting_run [OF C run halt n, of R nd s] by blast
  show ?thesis
    using sim m machine_simulation.run_sim [OF matching_simulation [OF C] machine_at_in_step sim]
    by (auto simp: run_simple_for_num_cycles_def baseline_instantiate)
qed

lemma sample_memory:
  "\<exists>ws. loaded_memory 0 [0x93, 0, 0x50, 0, 0x6f, 0, 0, 0] = Some \<lparr>inner = 0x00500093 # 0x6f # ws\<rparr>"
proof -
  have "load_words [0x93, 0, 0x50, 0, 0x6f, 0, 0, 0] (replicate (Suc (Suc n)) 0) = 0x00500093 # 0x6f # replicate n 0" for n
    by simp
  moreover have "replicate (2 ^ 28) (0 :: u32) = replicate (Suc (Suc (2 ^ 28 - 2))) 0"
    by simp
  ultimately have *: "load_words [0x93, 0, 0x50, 0, 0x6f, 0, 0, 0] (replicate (2 ^ 28) 0) =
      0x00500093 # 0x6f # replicate (2 ^ 28 - 2) 0"
    by (simp only:)
  have "new_for_byte_size (push_bit 30 1) = Some \<lparr>inner = replicate (2 ^ 28) 0\<rparr>"
    by (simp add: new_for_byte_size_def)
  then show ?thesis
    using * by (simp add: loaded_memory_def load_image_def)
qed

theorem program_result_witness:
  "run_simple_for_num_cycles word256_lib IMStandardIsaConfig QuasiUARTSource [0x93, 0, 0x50, 0, 0x6f, 0, 0, 0] 0 10
     QuasiUARTSource_default =
   Some (ended ((replicate 32 0)[1 := 5]) 4 1)"
proof -
  obtain ws where m: "loaded_memory 0 [0x93, 0, 0x50, 0, 0x6f, 0, 0, 0] = Some \<lparr>inner = 0x00500093 # 0x6f # ws\<rparr>"
    using sample_memory by blast
  let ?m = "\<lparr>inner = 0x00500093 # 0x6f # ws\<rparr>" and ?r = "(replicate 32 0)[1 := 5] :: u32 list"
  have "isa_step (OpImm OpAdd 1 0 5) (replicate 32 0) 0 ?m ?r 4 ?m"
    using isa_step.op_imm [of OpAdd 1 0 5 "replicate 32 0" 0 ?m] by (simp add: write_reg_def)
  then have run: "isa_run IMStandardIsaConfig 1 (replicate 32 0) 0 ?m ?r 4 ?m"
    unfolding One_nat_def
    by (rule isa_run.step [rotated 2]) (simp_all add: fetches_def sample_encoding isa_run.stop del: encode.simps)
  have "isa_step (Jal 0 0) ?r 4 ?m ?r 4 ?m"
    using isa_step.jal [of 4 4 0 0 ?r ?m] by (simp add: write_reg_def)
  then have halt: "halts_at IMStandardIsaConfig ?r 4 ?m ?r ?m"
    unfolding halts_at_def by (intro exI [of _ "Jal 0 0"]) (simp add: fetches_def sample_encoding del: encode.simps)
  show ?thesis
    using program_result [OF _ m run halt, of 10 word256_lib QuasiUARTSource QuasiUARTSource_default]
    by (simp add: isa_configs_def)
qed

end
