(* ===== verification/Invariants.thy ===== *)
theory Invariants
  imports Programs
begin

text \<open>
  What holds in every state the first machine reaches: the register file keeps its shape and \<open>x0\<close> is
  zero, the hart stays in machine mode and never waits, the memory keeps its size.
\<close>

abbreviation mem_size :: "(vector_memory, 'mmu, 'nd) machine_v1 \<Rightarrow> nat" where
  "mem_size w \<equiv> length (inner (v1_memory w))"

lemma set_size:
  "VectorMemoryImpl_set m a v acc t = Some (m', t') \<Longrightarrow> length (inner m') = length (inner m)"
  by (auto simp: VectorMemoryImpl_set_def Let_def panic_simps split: if_splits)

lemma mem_write_size:
  "mem_write C VectorMemoryImpl m tr a v n t = Some (m', tr', t') \<Longrightarrow> length (inner m') = length (inner m)"
  by (auto simp: mem_write_def Let_def panic_simps VectorMemoryImpl_def dest!: set_size split: if_splits)

lemma write_indirect_size:
  "write_indirect_accesses VectorMemoryImpl a vs m = Some m' \<Longrightarrow> length (inner m') = length (inner m)"
  by (induction vs arbitrary: a m) (auto simp: panic_simps VectorMemoryImpl_def dest!: set_size)

lemma delegation_size:
  "DelegationsCSRProcessor_process_write R VectorMemoryImpl n v z w t = Some (t', w') \<Longrightarrow> mem_size w' = mem_size w"
  by (auto simp: DelegationsCSRProcessor_process_write_def blake2_round_function_with_extended_control_def
      u256_ops_with_control_impl_def Let_def panic_simps dest!: write_indirect_size split: if_splits)

lemma csr_size:
  "v1_custom_csr_read I (DelegationsCSRProcessor R ms) n rd rs1 z w = Some (v, t, w') \<Longrightarrow> v1_memory w' = v1_memory w"
  "v1_custom_csr_write I (DelegationsCSRProcessor R VectorMemoryImpl) n rs1 z v w = Some (t, w') \<Longrightarrow> mem_size w' = mem_size w"
  by (auto simp: v1_custom_csr_read_def v1_custom_csr_write_def v1_nd_read_def v1_nd_write_def
      DelegationsCSRProcessor_def DelegationsCSRProcessor_process_read_def panic_simps dest: delegation_size split: if_splits)

lemma standard_csr_size:
  "v1_standard_csr_read I (DelegationsCSRProcessor R ms) mode n rd rs1 z w = Some (v, t, w') \<Longrightarrow> v1_memory w' = v1_memory w"
  "v1_standard_csr_write I (DelegationsCSRProcessor R VectorMemoryImpl) mode n rs1 z v w = Some (t, w') \<Longrightarrow> mem_size w' = mem_size w"
  by (auto simp: v1_standard_csr_read_def v1_standard_csr_write_def put_trap_data_def Let_def
      dest: csr_size split: if_splits prod.splits)

lemma system_size:
  "v1_system I (DelegationsCSRProcessor R VectorMemoryImpl) i rd rs1 rs2 mode pc w = Some (Writeback a b c w') \<Longrightarrow>
    mem_size w' = mem_size w"
  by (auto simp: v1_system_def v1_zicsr_def Let_def panic_simps dest!: csr_size standard_csr_size
      split: if_splits option.splits)

lemma execute_size:
  assumes "v1_execute (baseline_impls C nd) (DelegationsCSRProcessor R VectorMemoryImpl) i rd rs1 rs2 Machine pc w =
    Some (Writeback a b c w')"
  shows "mem_size w' = mem_size w"
  using assms unfolding v1_execute_def Let_def
  by (auto simp: v1_lui_def v1_auipc_def v1_jal_def v1_jalr_def v1_branch_def v1_op_def v1_load_def v1_store_def
      Let_def panic_simps dest!: system_size mem_write_size split: if_splits option.splits)

definition machine_inv :: "nat \<Rightarrow> (vector_memory, no_mmu, 'nd) machine_v1 \<Rightarrow> bool" where
  "machine_inv sz w \<longleftrightarrow> length (regs_of w) = 32 \<and> regs_of w ! 0 = 0 \<and> mem_size w = sz \<and>
     get_current_mode (extra_flags (v1_state w)) = Some Machine \<and> get_wait_for_interrupt (extra_flags (v1_state w)) = 0"

lemma machine_inv_ready: "machine_inv sz w \<longleftrightarrow> v1_ready w \<and> mem_size w = sz"
  by (auto simp: machine_inv_def v1_ready_def regs_wf_def NUM_REGISTERS_def)

lemma cycle_ready:
  assumes "C \<in> set isa_configs" "v1_ready w" "v1_cycle R (baseline_impls C nd) w = Some w'"
  shows "v1_ready w'"
proof -
  have "corresponds w \<lparr>u_state = \<lparr>u_observable = observable (v1_state w)\<rparr>, u_memory = v1_memory w, u_tracer = [], u_nd = v1_nd w\<rparr>"
    by (simp add: corresponds_def)
  from matching_machines.cycle_refines [OF matching_setups [OF assms(1)] assms(2) _ this assms(3)]
  show ?thesis
    by blast
qed

lemma cycle_inv:
  assumes C: "C \<in> set isa_configs" and inv: "machine_inv sz w" and cyc: "v1_cycle R (baseline_impls C nd) w = Some w'"
  shows "machine_inv sz w'"
proof -
  obtain i w1 rd v p w2 where "v1_memory w1 = v1_memory w" "v1_memory w' = v1_memory w2"
    "v1_execute (baseline_impls C nd) (DelegationsCSRProcessor R VectorMemoryImpl) i (get_rd i)
      (regs_of w ! unat (get_formal_rs1 i)) (regs_of w ! unat (get_formal_rs2 i)) Machine (pc_of w) w1 = Some (Writeback rd v p w2)"
    using matching_machines.cycle_SomeD [OF matching_setups [OF C] _ _ cyc] inv by (auto simp: machine_inv_ready)
  then show ?thesis
    using cycle_ready [OF C _ cyc] inv execute_size [of C nd R i] by (auto simp: machine_inv_ready)
qed

text \<open>C18: every state the first machine reaches from its start, in any of the five configurations and for
  any program and source of non-determinism, has 32 registers with \<open>x0\<close> zero, is in machine mode, does
  not wait for an interrupt and has the memory size it started with.\<close>

theorem reachable_states_invariant:
  assumes "C \<in> set isa_configs"
    and "mc_iter (v1_machine R (baseline_impls C nd)) n (machine_at entry m s) = Some w"
  shows "machine_inv (length (inner m)) w"
proof -
  have "machine_inv sz w \<Longrightarrow> mc_iter (v1_machine R (baseline_impls C nd)) n w = Some w' \<Longrightarrow> machine_inv sz w'"
    for sz w w'
  proof (induction n arbitrary: w)
    case (Suc n)
    then obtain w1 where "v1_cycle R (baseline_impls C nd) w = Some w1"
      "mc_iter (v1_machine R (baseline_impls C nd)) n w1 = Some w'"
      by (auto simp: v1_machine_def panic_simps)
    then show ?case
      using cycle_inv [OF assms(1) Suc.prems(1)] Suc.IH by blast
  qed simp
  moreover have "machine_inv (length (inner m)) (machine_at entry m s)"
    by (simp add: machine_inv_ready machine_at_ready machine_at_fields)
  ultimately show ?thesis
    using assms(2) by blast
qed

theorem reachable_states_invariant_witness:
  "\<exists>w. mc_iter (v1_machine word256_lib (baseline_impls IMStandardIsaConfig QuasiUARTSource)) 1
      (machine_at 0 \<lparr>inner = [0x6f]\<rparr> QuasiUARTSource_default) = Some w \<and> machine_inv 1 w"
proof -
  obtain w' where "mc_iter (v1_machine word256_lib (baseline_impls IMStandardIsaConfig QuasiUARTSource)) 1
      (machine_at 0 \<lparr>inner = [0x6f]\<rparr> QuasiUARTSource_default) = Some w'"
    using spin_stays [of word256_lib QuasiUARTSource QuasiUARTSource_default] by auto
  then show ?thesis
    using reachable_states_invariant [of IMStandardIsaConfig word256_lib QuasiUARTSource 1 0 "\<lparr>inner = [0x6f]\<rparr>"]
    by (auto simp: isa_configs_def)
qed

end
