(* ===== verification/M31_Fields.thy ===== *)
theory M31_Fields
  imports M31_Laws
begin

text \<open>
  The fields the arithmetic of the crate \<open>field\<close> is meant to compute in: the residues modulo
  \<open>2 ^ 31 - 1\<close>, their quadratic extension by a root of \<open>- 1\<close>, and the quadratic extension of that by a root
  of \<open>2 + i\<close>.  Each is a type of class \<open>field\<close>; for the extensions this needs that \<open>- 1\<close> and \<open>2 + i\<close> are not
  squares.
\<close>

section \<open>The prime field\<close>

typedef f31 = "{0..<p31}" morphisms f31_int Abs_f31
  by (rule exI [of _ 0]) simp

setup_lifting type_definition_f31

lemma f31_int_bounds: "0 \<le> f31_int x" "f31_int x < p31"
  using f31_int [of x] by simp_all

instantiation f31 :: comm_ring_1
begin

lift_definition zero_f31 :: f31 is 0 by simp
lift_definition one_f31 :: f31 is 1 by simp
lift_definition plus_f31 :: "f31 \<Rightarrow> f31 \<Rightarrow> f31" is "\<lambda>x y. (x + y) mod p31" by simp
lift_definition uminus_f31 :: "f31 \<Rightarrow> f31" is "\<lambda>x. (- x) mod p31" by simp
lift_definition minus_f31 :: "f31 \<Rightarrow> f31 \<Rightarrow> f31" is "\<lambda>x y. (x - y) mod p31" by simp
lift_definition times_f31 :: "f31 \<Rightarrow> f31 \<Rightarrow> f31" is "\<lambda>x y. (x * y) mod p31" by simp

instance
  by (standard; transfer) (simp_all add: mod_simps algebra_simps)

end

lift_definition f31_of_int :: "int \<Rightarrow> f31" is "\<lambda>k. k mod p31" by simp

lemma f31_of_int_hom:
  "f31_of_int 0 = 0" "f31_of_int 1 = 1" "f31_of_int (a + b) = f31_of_int a + f31_of_int b"
  "f31_of_int (a - b) = f31_of_int a - f31_of_int b" "f31_of_int (- a) = - f31_of_int a"
  "f31_of_int (a * b) = f31_of_int a * f31_of_int b"
  by (transfer; simp add: mod_simps)+

lemma f31_of_int_mod [simp]: "f31_of_int (a mod p31) = f31_of_int a"
  by transfer simp

lemma f31_of_int_power: "f31_of_int (a ^ n) = f31_of_int a ^ n"
  by (induction n) (simp_all add: f31_of_int_hom)

lemma f31_of_int_inverse [simp]: "f31_of_int (f31_int x) = x"
  by transfer simp

lemma f31_of_int_eq_iff: "f31_of_int a = f31_of_int b \<longleftrightarrow> a mod p31 = b mod p31"
  by transfer simp

lemma f31_of_int_0_iff: "f31_of_int a = 0 \<longleftrightarrow> a mod p31 = 0"
  using f31_of_int_eq_iff [of a 0] by (simp add: f31_of_int_hom)

lemma f31_fermat: "x \<noteq> 0 \<Longrightarrow> x ^ N31 = (1 :: f31)"
proof -
  assume "x \<noteq> 0"
  then have "f31_int x \<noteq> 0"
    by (metis f31_of_int_hom(1) f31_of_int_inverse)
  then have "f31_int x ^ N31 mod p31 = 1"
    using f31_int_bounds [of x] by (intro fermat_m31) simp_all
  then have "f31_of_int (f31_int x ^ N31) = f31_of_int 1"
    by (simp only: f31_of_int_eq_iff) simp
  then show "x ^ N31 = 1"
    by (simp add: f31_of_int_power f31_of_int_hom)
qed

instantiation f31 :: field
begin

definition inverse_f31 :: "f31 \<Rightarrow> f31" where "inverse_f31 x = x ^ 2147483645"
definition divide_f31 :: "f31 \<Rightarrow> f31 \<Rightarrow> f31" where "divide_f31 x y = x * inverse y"

instance
proof
  fix x y :: f31
  have N31: "N31 = Suc 2147483645"
    by (simp add: N31_def)
  show "inverse x * x = 1" if "x \<noteq> 0"
    using f31_fermat [OF that] by (simp only: inverse_f31_def N31 power_Suc mult.commute)
  show "x div y = x * inverse y"
    by (simp add: divide_f31_def)
  show "inverse (0 :: f31) = 0"
    by (simp add: inverse_f31_def)
qed

end

section \<open>Non-squares\<close>

text \<open>Euler's criterion, as far as it is needed: the half of the group order kills every non-zero square.\<close>

definition half_order :: nat where "half_order = 1073741823"

lemma square_half_order:
  assumes "(x :: f31) \<noteq> 0"
  shows "(x * x) ^ half_order = 1"
proof -
  have "N31 = half_order * 2"
    by (simp add: half_order_def N31_def)
  have "(x * x) ^ half_order = x ^ N31"
    unfolding \<open>N31 = half_order * 2\<close> by (simp only: power_mult power2_eq_square power_mult_distrib flip: power_add)
  then show ?thesis
    using f31_fermat [OF assms] by simp
qed

lemma half_order_values:
  "(- 1 :: f31) ^ half_order = - 1" "(f31_of_int 5) ^ half_order = - 1" "(- 1 :: f31) \<noteq> 1"
proof -
  have "odd half_order"
    by (simp add: half_order_def)
  then show "(- 1 :: f31) ^ half_order = - 1"
    by simp
  have "(5 :: int) ^ 1073741823 mod p31 = (- 1) mod p31"
    unfolding powm by simp
  then have "f31_of_int (5 ^ half_order) = f31_of_int (- 1)"
    by (simp only: f31_of_int_eq_iff half_order_def)
  then show "(f31_of_int 5) ^ half_order = - 1"
    by (simp add: f31_of_int_power f31_of_int_hom)
  have "f31_of_int (- 1) \<noteq> f31_of_int 1"
    by (simp only: f31_of_int_eq_iff) simp
  then show "(- 1 :: f31) \<noteq> 1"
    by (simp add: f31_of_int_hom)
qed

lemma minus_one_not_square: "(x :: f31) * x \<noteq> - 1"
proof
  assume *: "x * x = - 1"
  then have "x \<noteq> 0"
    by auto
  then show False
    using square_half_order half_order_values(1,3) * by metis
qed

lemma five_not_square: "(x :: f31) * x \<noteq> f31_of_int 5"
proof
  assume *: "x * x = f31_of_int 5"
  then have "x \<noteq> 0"
    using f31_of_int_0_iff [of 5] by auto
  then show False
    using square_half_order half_order_values(2,3) * by metis
qed

lemma sum_of_squares: "(a :: f31) * a + b * b = 0 \<longleftrightarrow> a = 0 \<and> b = 0"
proof (cases "b = 0")
  case False
  have "a * a + b * b \<noteq> 0"
  proof
    assume "a * a + b * b = 0"
    then have "a * a = - (b * b)"
      by (simp add: eq_neg_iff_add_eq_0)
    then have "(a / b) * (a / b) = - 1"
      using False by (simp add: field_simps)
    then show False
      using minus_one_not_square by blast
  qed
  then show ?thesis
    using False by simp
qed simp

section \<open>The quadratic extension\<close>

datatype c31 = C31 (c31_re: f31) (c31_im: f31)

instantiation c31 :: comm_ring_1
begin

definition zero_c31 :: c31 where "0 = C31 0 0"
definition one_c31 :: c31 where "1 = C31 1 0"

fun plus_c31 :: "c31 \<Rightarrow> c31 \<Rightarrow> c31" where "C31 a b + C31 c d = C31 (a + c) (b + d)"
fun minus_c31 :: "c31 \<Rightarrow> c31 \<Rightarrow> c31" where "C31 a b - C31 c d = C31 (a - c) (b - d)"
fun uminus_c31 :: "c31 \<Rightarrow> c31" where "- C31 a b = C31 (- a) (- b)"
fun times_c31 :: "c31 \<Rightarrow> c31 \<Rightarrow> c31" where "C31 a b * C31 c d = C31 (a * c - b * d) (a * d + b * c)"

instance
proof
  fix a b c :: c31
  show "a + b + c = a + (b + c)" "a + b = b + a" "0 + a = a" "- a + a = 0" "a - b = a + - b"
    "a * b * c = a * (b * c)" "a * b = b * a" "1 * a = a" "(a + b) * c = a * c + b * c" "(0 :: c31) \<noteq> 1"
    by (cases a; cases b; cases c; simp add: zero_c31_def one_c31_def algebra_simps)+
qed

end

definition c31_norm :: "c31 \<Rightarrow> f31" where
  "c31_norm z = c31_re z * c31_re z + c31_im z * c31_im z"

lemma c31_norm_mult: "c31_norm (z * w) = c31_norm z * c31_norm w"
  by (cases z; cases w) (simp add: c31_norm_def algebra_simps)

lemma c31_norm_0_iff: "c31_norm z = 0 \<longleftrightarrow> z = 0"
  by (cases z) (simp add: c31_norm_def sum_of_squares zero_c31_def)

instantiation c31 :: field
begin

definition inverse_c31 :: "c31 \<Rightarrow> c31" where
  "inverse z = C31 (c31_re z / c31_norm z) (- c31_im z / c31_norm z)"
definition divide_c31 :: "c31 \<Rightarrow> c31 \<Rightarrow> c31" where "divide_c31 z w = z * inverse w"

instance
proof
  fix z w :: c31
  show "inverse z * z = 1" if "z \<noteq> 0"
  proof -
    obtain a b where z: "z = C31 a b"
      by (cases z)
    define n where "n = c31_norm z"
    have "n \<noteq> 0"
      using that by (simp add: n_def c31_norm_0_iff)
    moreover have "n = a * a + b * b"
      by (simp add: n_def z c31_norm_def)
    ultimately have "a / n * a - - b / n * b = 1" "a / n * b + - b / n * a = 0"
      by (simp_all flip: add_divide_distrib)
    then show ?thesis
      by (simp add: inverse_c31_def one_c31_def n_def z)
  qed
  show "z div w = z * inverse w"
    by (simp add: divide_c31_def)
  show "inverse (0 :: c31) = 0"
    by (simp add: inverse_c31_def zero_c31_def)
qed

end

definition beta :: c31 where "beta = C31 2 1"

lemma beta_not_square: "z * z \<noteq> beta"
proof
  assume "z * z = beta"
  then have "c31_norm z * c31_norm z = c31_norm beta"
    by (metis c31_norm_mult)
  moreover have "c31_norm beta = f31_of_int 5"
  proof -
    have "f31_of_int (2 * 2 + 1) = (1 + 1) * (1 + 1) + 1"
      by (simp only: f31_of_int_hom flip: one_add_one)
    then show ?thesis
      by (simp add: c31_norm_def beta_def)
  qed
  ultimately show False
    using five_not_square by metis
qed

section \<open>The quartic extension\<close>

datatype q31 = Q31 (q31_lo: c31) (q31_hi: c31)

instantiation q31 :: comm_ring_1
begin

definition zero_q31 :: q31 where "0 = Q31 0 0"
definition one_q31 :: q31 where "1 = Q31 1 0"

fun plus_q31 :: "q31 \<Rightarrow> q31 \<Rightarrow> q31" where "Q31 a b + Q31 c d = Q31 (a + c) (b + d)"
fun minus_q31 :: "q31 \<Rightarrow> q31 \<Rightarrow> q31" where "Q31 a b - Q31 c d = Q31 (a - c) (b - d)"
fun uminus_q31 :: "q31 \<Rightarrow> q31" where "- Q31 a b = Q31 (- a) (- b)"
fun times_q31 :: "q31 \<Rightarrow> q31 \<Rightarrow> q31" where "Q31 a b * Q31 c d = Q31 (a * c + beta * (b * d)) (a * d + b * c)"

instance
proof
  fix a b c :: q31
  show "a + b + c = a + (b + c)" "a + b = b + a" "0 + a = a" "- a + a = 0" "a - b = a + - b"
    "a * b * c = a * (b * c)" "a * b = b * a" "1 * a = a" "(a + b) * c = a * c + b * c" "(0 :: q31) \<noteq> 1"
    by (cases a; cases b; cases c; simp add: zero_q31_def one_q31_def algebra_simps)+
qed

end

definition q31_norm :: "q31 \<Rightarrow> c31" where
  "q31_norm z = q31_lo z * q31_lo z - beta * (q31_hi z * q31_hi z)"

lemma q31_norm_0_iff: "q31_norm z = 0 \<longleftrightarrow> z = 0"
proof (cases "q31_hi z = 0")
  case True
  then show ?thesis
    by (cases z) (simp add: q31_norm_def zero_q31_def)
next
  case False
  have "q31_norm z \<noteq> 0"
  proof
    assume "q31_norm z = 0"
    then have "(q31_lo z / q31_hi z) * (q31_lo z / q31_hi z) = beta"
      using False by (simp add: q31_norm_def divide_simps)
    then show False
      using beta_not_square by blast
  qed
  then show ?thesis
    using False by (auto simp: zero_q31_def)
qed

instantiation q31 :: field
begin

definition inverse_q31 :: "q31 \<Rightarrow> q31" where
  "inverse z = Q31 (q31_lo z / q31_norm z) (- q31_hi z / q31_norm z)"
definition divide_q31 :: "q31 \<Rightarrow> q31 \<Rightarrow> q31" where "divide_q31 z w = z * inverse w"

instance
proof
  fix z w :: q31
  show "inverse z * z = 1" if "z \<noteq> 0"
  proof -
    obtain a b where z: "z = Q31 a b"
      by (cases z)
    define n where "n = q31_norm z"
    have "n \<noteq> 0"
      using that by (simp add: n_def q31_norm_0_iff)
    moreover have "n = a * a - beta * (b * b)"
      by (simp add: n_def z q31_norm_def)
    ultimately have "a / n * a + beta * (- b / n * b) = 1" "a / n * b + - b / n * a = 0"
      by (simp_all flip: diff_divide_distrib)
    then show ?thesis
      by (simp add: inverse_q31_def one_q31_def n_def z)
  qed
  show "z div w = z * inverse w"
    by (simp add: divide_q31_def)
  show "inverse (0 :: q31) = 0"
    by (simp add: inverse_q31_def zero_q31_def)
qed

end

end
