(* ===== verification/FieldTrait.thy ===== *)
theory FieldTrait
  imports M31_Fields
begin

text \<open>
  The trait \<open>Field\<close> of the crate \<open>field\<close> as a record of its methods (\<open>field.rs\<close>), the methods with a default
  body and the batch inversion of \<open>lib.rs\<close> over it.  The locale \<open>field_impl\<close> is the contract of an
  implementation: a representation invariant and a value in a field such that every method computes the
  operation of the field.
\<close>

section \<open>The trait\<close>

record 'a field_ops =
  f_ZERO :: 'a
  f_ONE :: 'a
  f_is_zero :: "'a \<Rightarrow> bool"
  f_is_one :: "'a \<Rightarrow> bool"
  f_eq :: "'a \<Rightarrow> 'a \<Rightarrow> bool"
  f_inverse :: "'a \<Rightarrow> 'a option"
  f_add_assign :: "'a \<Rightarrow> 'a \<Rightarrow> 'a"
  f_sub_assign :: "'a \<Rightarrow> 'a \<Rightarrow> 'a"
  f_mul_assign :: "'a \<Rightarrow> 'a \<Rightarrow> 'a"
  f_square :: "'a \<Rightarrow> 'a"
  f_negate :: "'a \<Rightarrow> 'a"
  f_double :: "'a \<Rightarrow> 'a"

function field_pow_loop :: "'a field_ops \<Rightarrow> 'a \<Rightarrow> 'a \<Rightarrow> u32 \<Rightarrow> 'a" where
  "field_pow_loop F base result exp =
    (if 0 < exp then
       field_pow_loop F (f_square F base) (if exp mod 2 = 1 then f_mul_assign F result base else result) (drop_bit 1 exp)
     else result)"
  by pat_completeness auto
termination
  by (relation "measure (\<lambda>(_, _, _, e). unat e)")
    (auto simp: drop_bit_eq_div unat_div_distrib word_less_nat_alt)

declare field_pow_loop.simps [simp del]

definition field_pow :: "'a field_ops \<Rightarrow> 'a \<Rightarrow> u32 \<Rightarrow> 'a" where
  "field_pow F x exp = field_pow_loop F x (f_ONE F) exp"

fun field_exp_power_of_2 :: "'a field_ops \<Rightarrow> 'a \<Rightarrow> nat \<Rightarrow> 'a" where
  "field_exp_power_of_2 F x 0 = x"
| "field_exp_power_of_2 F x (Suc power_log) = field_exp_power_of_2 F (f_square F x) power_log"

definition field_fused_mul_add_assign :: "'a field_ops \<Rightarrow> 'a \<Rightarrow> 'a \<Rightarrow> 'a \<Rightarrow> 'a" where
  "field_fused_mul_add_assign F x a b = f_add_assign F (f_mul_assign F x a) b"

definition field_add_assign_product :: "'a field_ops \<Rightarrow> 'a \<Rightarrow> 'a \<Rightarrow> 'a \<Rightarrow> 'a" where
  "field_add_assign_product F x a b = (let t = f_mul_assign F a b in f_add_assign F x t)"

definition field_from_boolean :: "'a field_ops \<Rightarrow> bool \<Rightarrow> 'a" where
  "field_from_boolean F flag = (if flag then f_ONE F else f_ZERO F)"

section \<open>Batch inversion\<close>

text \<open>The first loop: what is written into the buffer, the accumulator and whether a zero was met.\<close>

fun batch_forward :: "'a field_ops \<Rightarrow> 'a \<Rightarrow> bool \<Rightarrow> 'a list \<Rightarrow> 'a list \<times> 'a \<times> bool" where
  "batch_forward F accumulator zero_encountered [] = ([], accumulator, zero_encountered)"
| "batch_forward F accumulator zero_encountered (el # els) =
    (let (acc, zero) = (if f_is_zero F el then (accumulator, True)
                        else (f_mul_assign F accumulator el, zero_encountered));
         (outs, acc, zero) = batch_forward F acc zero els
     in (accumulator # outs, acc, zero))"

text \<open>The second loop, over the pairs of buffer and input from the back.\<close>

fun batch_backward :: "'a field_ops \<Rightarrow> 'a \<Rightarrow> ('a \<times> 'a) list \<Rightarrow> 'a list" where
  "batch_backward F grand_inverse [] = []"
| "batch_backward F grand_inverse ((tmp, original) # rest) =
    (let tmp = f_mul_assign F tmp grand_inverse
     in if \<not> f_is_zero F original
        then tmp # batch_backward F (f_mul_assign F grand_inverse original) rest
        else original # batch_backward F grand_inverse rest)"

definition batch_inverse_checked :: "'a field_ops \<Rightarrow> 'a list \<Rightarrow> 'a list \<Rightarrow> (bool \<times> 'a list \<times> 'a list) option" where
  "batch_inverse_checked F input tmp_buffer = do {
     rust_assert (length input = length tmp_buffer);
     if input = [] then Some (True, input, tmp_buffer)
     else do {
       let (zero_encountered, accumulator) =
         (if f_is_zero F (hd input) then (True, f_ONE F) else (False, hd input));
       let (outs, accumulator, zero_encountered) = batch_forward F accumulator zero_encountered (tl input);
       let tmp_buffer = f_ONE F # outs;
       grand_inverse \<leftarrow> f_inverse F accumulator;
       Some (\<not> zero_encountered, rev (batch_backward F grand_inverse (rev (zip tmp_buffer input))), tmp_buffer) } }"

section \<open>The contract of an implementation\<close>

locale field_impl =
  fixes F :: "'a field_ops" and wf :: "'a \<Rightarrow> bool" and val :: "'a \<Rightarrow> 'k::field"
  assumes wf_ZERO: "wf (f_ZERO F)" and val_ZERO: "val (f_ZERO F) = 0"
    and wf_ONE: "wf (f_ONE F)" and val_ONE: "val (f_ONE F) = 1"
    and is_zero: "wf x \<Longrightarrow> f_is_zero F x \<longleftrightarrow> val x = 0"
    and is_one: "wf x \<Longrightarrow> f_is_one F x \<longleftrightarrow> val x = 1"
    and eq: "wf x \<Longrightarrow> wf y \<Longrightarrow> f_eq F x y \<longleftrightarrow> val x = val y"
    and add: "wf x \<Longrightarrow> wf y \<Longrightarrow> wf (f_add_assign F x y) \<and> val (f_add_assign F x y) = val x + val y"
    and sub: "wf x \<Longrightarrow> wf y \<Longrightarrow> wf (f_sub_assign F x y) \<and> val (f_sub_assign F x y) = val x - val y"
    and mul: "wf x \<Longrightarrow> wf y \<Longrightarrow> wf (f_mul_assign F x y) \<and> val (f_mul_assign F x y) = val x * val y"
    and square: "wf x \<Longrightarrow> wf (f_square F x) \<and> val (f_square F x) = val x * val x"
    and negate: "wf x \<Longrightarrow> wf (f_negate F x) \<and> val (f_negate F x) = - val x"
    and double: "wf x \<Longrightarrow> wf (f_double F x) \<and> val (f_double F x) = val x + val x"
    and inverse_None: "wf x \<Longrightarrow> f_inverse F x = None \<longleftrightarrow> val x = 0"
    and inverse_Some: "wf x \<Longrightarrow> f_inverse F x = Some y \<Longrightarrow> wf y \<and> val y = inverse (val x)"
begin

lemmas ops = is_zero is_one eq add sub mul square negate double

lemma pow_loop:
  "wf base \<Longrightarrow> wf result \<Longrightarrow>
    wf (field_pow_loop F base result e) \<and> val (field_pow_loop F base result e) = val result * val base ^ unat e"
proof (induction "unat e" arbitrary: base result e rule: less_induct)
  case less
  show ?case
  proof (cases "0 < e")
    case True
    let ?h = "drop_bit 1 e" and ?r = "if e mod 2 = 1 then f_mul_assign F result base else result"
    have h: "unat ?h = unat e div 2"
      by (simp add: drop_bit_eq_div unat_div_distrib)
    then have "unat ?h < unat e"
      using True by (simp add: word_less_nat_alt)
    then have IH: "wf (field_pow_loop F (f_square F base) ?r ?h) \<and>
        val (field_pow_loop F (f_square F base) ?r ?h) = val ?r * val (f_square F base) ^ unat ?h"
      using less by (simp add: square mul)
    have "unat e = 2 * (unat e div 2) + unat e mod 2"
      by simp
    then have e: "unat e = 2 * unat ?h + (if e mod 2 = 1 then 1 else 0)"
      by (simp only: h unat_odd)
    have "val base ^ unat e = (val base * val base) ^ unat ?h * (if e mod 2 = 1 then val base else 1)"
      by (subst e) (simp only: power_add power_mult power2_eq_square, simp)
    then show ?thesis
      using IH True less.prems by (subst (1 2) field_pow_loop.simps) (simp add: square mul ac_simps)
  next
    case False
    then have "e = 0"
      by (simp add: word_gt_0)
    then show ?thesis
      using less.prems by (simp add: field_pow_loop.simps)
  qed
qed

lemma pow: "wf x \<Longrightarrow> wf (field_pow F x e) \<and> val (field_pow F x e) = val x ^ unat e"
  using pow_loop [of x "f_ONE F" e] by (simp add: field_pow_def wf_ONE val_ONE)

lemma exp_power_of_2:
  "wf x \<Longrightarrow> wf (field_exp_power_of_2 F x k) \<and> val (field_exp_power_of_2 F x k) = val x ^ 2 ^ k"
  by (induction k arbitrary: x) (simp_all add: square power_mult_distrib power_mult flip: power2_eq_square)

text \<open>The product of the non-zero elements.\<close>

definition nz_prod :: "'a list \<Rightarrow> 'k" where
  "nz_prod xs = prod_list (map (\<lambda>x. if val x = 0 then 1 else val x) xs)"

lemma nz_prod_simps [simp]: "nz_prod [] = 1" "nz_prod (x # xs) = (if val x = 0 then 1 else val x) * nz_prod xs"
  "nz_prod (xs @ [x]) = nz_prod xs * (if val x = 0 then 1 else val x)"
  by (simp_all add: nz_prod_def)

lemma nz_prod_nonzero: "nz_prod xs \<noteq> 0"
  by (induction xs) simp_all

lemma batch_forward:
  assumes "batch_forward F acc z xs = (outs, a, z')" "wf acc" "\<forall>x \<in> set xs. wf x"
  shows "length outs = length xs \<and> wf a \<and> val a = val acc * nz_prod xs \<and>
    (z' \<longleftrightarrow> z \<or> (\<exists>x \<in> set xs. val x = 0)) \<and>
    (\<forall>i < length xs. wf (outs ! i) \<and> val (outs ! i) = val acc * nz_prod (take i xs))"
  using assms
proof (induction xs arbitrary: acc z outs)
  case (Cons x xs)
  let ?acc = "if f_is_zero F x then acc else f_mul_assign F acc x" and ?z = "z \<or> val x = 0"
  obtain outs' where outs: "batch_forward F ?acc ?z xs = (outs', a, z')" "outs = acc # outs'"
    using Cons.prems by (auto simp: is_zero split: prod.splits if_splits)
  have acc: "wf ?acc" "val ?acc = val acc * (if val x = 0 then 1 else val x)"
    using Cons.prems by (simp_all add: is_zero mul)
  show ?case
    using Cons.IH [OF outs(1) acc(1)] Cons.prems acc(2) unfolding outs(2)
    by (auto simp: less_Suc_eq_0_disj)
qed simp

lemma batch_backward:
  assumes "length outs = length xs" "\<forall>x \<in> set xs. wf x"
    "\<forall>i < length xs. wf (outs ! i) \<and> val (outs ! i) = c * nz_prod (take i xs)"
    "wf g" "val g * (c * nz_prod xs) = 1"
  shows "length (batch_backward F g (rev (zip outs xs))) = length xs \<and>
    (\<forall>i < length xs. wf (rev (batch_backward F g (rev (zip outs xs))) ! i) \<and>
      val (rev (batch_backward F g (rev (zip outs xs))) ! i) = inverse (val (xs ! i)))"
  using assms
proof (induction xs arbitrary: outs g rule: rev_induct)
  case (snoc x xs)
  obtain outs' t where outs: "outs = outs' @ [t]" "length outs' = length xs"
    using snoc.prems(1) by (cases outs rule: rev_cases) auto
  have pre: "\<forall>i < length xs. wf (outs' ! i) \<and> val (outs' ! i) = c * nz_prod (take i xs)"
  proof (intro allI impI)
    fix i assume "i < length xs"
    then show "wf (outs' ! i) \<and> val (outs' ! i) = c * nz_prod (take i xs)"
      using snoc.prems(3) [rule_format, of i] outs by (simp add: nth_append)
  qed
  have t: "wf t" "val t = c * nz_prod xs"
    using snoc.prems(3)[rule_format, of "length xs"] outs by (simp_all add: nth_append)
  have x: "wf x" "\<forall>x \<in> set xs. wf x"
    using snoc.prems(2) by simp_all
  let ?g = "if val x = 0 then g else f_mul_assign F g x" and ?y = "if val x = 0 then x else f_mul_assign F t g"
  have step: "batch_backward F g (rev (zip outs (xs @ [x]))) = ?y # batch_backward F ?g (rev (zip outs' xs))"
    using outs x by (simp add: is_zero)
  have "wf ?g" "val ?g * (c * nz_prod xs) = 1"
    using snoc.prems x by (simp_all add: mul ac_simps split: if_splits)
  note IH = snoc.IH [OF outs(2) x(2) pre this]
  have "wf ?y" "val ?y = inverse (val x)"
    using snoc.prems t x by (auto simp: mul ac_simps intro!: inverse_unique [symmetric])
  then show ?case
    unfolding step using IH by (auto simp: nth_append less_Suc_eq)
qed simp

theorem batch_inverse:
  assumes "length xs = length buf" "\<forall>x \<in> set xs. wf x"
  shows "\<exists>ys buf'. batch_inverse_checked F xs buf = Some (\<forall>x \<in> set xs. val x \<noteq> 0, ys, buf') \<and>
    length ys = length xs \<and> (\<forall>i < length xs. wf (ys ! i) \<and> val (ys ! i) = inverse (val (xs ! i)))"
proof (cases xs)
  case Nil
  then show ?thesis
    using assms by (simp add: batch_inverse_checked_def)
next
  case (Cons x rest)
  let ?acc = "if val x = 0 then f_ONE F else x"
  obtain outs a z where fw: "batch_forward F ?acc (val x = 0) rest = (outs, a, z)"
    by (metis prod.exhaust)
  have acc: "wf ?acc" "val ?acc = (if val x = 0 then 1 else val x)"
    using assms Cons by (simp_all add: wf_ONE val_ONE)
  note fw' = batch_forward [OF fw acc(1)]
  have a: "wf a" "val a = nz_prod xs"
    using fw' assms Cons acc(2) by simp_all
  then obtain g where g: "f_inverse F a = Some g" "wf g" "val g = inverse (val a)"
    using inverse_None inverse_Some nz_prod_nonzero by (metis not_None_eq)
  have buf: "\<forall>i < length xs. wf ((f_ONE F # outs) ! i) \<and> val ((f_ONE F # outs) ! i) = 1 * nz_prod (take i xs)"
  proof (intro allI impI)
    fix i assume "i < length xs"
    then show "wf ((f_ONE F # outs) ! i) \<and> val ((f_ONE F # outs) ! i) = 1 * nz_prod (take i xs)"
      using fw' assms(2) Cons acc(2) by (cases i) (simp_all add: wf_ONE val_ONE)
  qed
  have "val g * (1 * nz_prod xs) = 1"
    using g(3) a(2) nz_prod_nonzero [of xs] by simp
  moreover have "length (f_ONE F # outs) = length xs"
    using fw' assms Cons by simp
  ultimately have bw: "length (batch_backward F g (rev (zip (f_ONE F # outs) xs))) = length xs \<and>
    (\<forall>i < length xs. wf (rev (batch_backward F g (rev (zip (f_ONE F # outs) xs))) ! i) \<and>
      val (rev (batch_backward F g (rev (zip (f_ONE F # outs) xs))) ! i) = inverse (val (xs ! i)))"
    using assms(2) buf g(2) by (intro batch_backward)
  have "batch_inverse_checked F xs buf = Some (\<not> z, rev (batch_backward F g (rev (zip (f_ONE F # outs) xs))), f_ONE F # outs)"
    using assms Cons fw g by (auto simp: batch_inverse_checked_def is_zero Let_def split: if_splits)
  moreover have "\<not> z \<longleftrightarrow> (\<forall>x \<in> set xs. val x \<noteq> 0)"
    using fw' assms Cons by auto
  ultimately show ?thesis
    using bw by auto
qed

end

end
