(* ===== verification/Extensions.thy ===== *)
theory Extensions
  imports FieldTrait
begin

text \<open>
  The extension fields of the crate \<open>field\<close>: \<open>Mersenne31Complex\<close> (\<open>complex.rs\<close>) over the base field with
  \<open>i * i = - 1\<close>, \<open>Mersenne31Quartic\<close> (\<open>quartic.rs\<close>) over that with the non-residue \<open>2 + i\<close>.  The host
  versions are modelled, and the two schoolbook variants of the feature \<open>modular_ops\<close> over any base field.
  The three fields implement the contract of the trait.
\<close>

section \<open>The base field as an implementation of the trait\<close>

definition m31_ops :: "m31 field_ops" where
  "m31_ops = \<lparr>f_ZERO = 0, f_ONE = 1, f_is_zero = m31_is_zero, f_is_one = m31_is_one, f_eq = m31_eq,
     f_inverse = m31_inverse, f_add_assign = add_mod, f_sub_assign = sub_mod, f_mul_assign = mul_mod,
     f_square = m31_square, f_negate = m31_negate, f_double = m31_double\<rparr>"

section \<open>Complex\<close>

record mersenne31_complex =
  cc0 :: m31
  cc1 :: m31

definition Complex_new :: "m31 \<Rightarrow> m31 \<Rightarrow> mersenne31_complex" where
  "Complex_new real imag = \<lparr>cc0 = real, cc1 = imag\<rparr>"

definition real_part :: "mersenne31_complex \<Rightarrow> m31" where "real_part x = cc0 x"
definition imag_part :: "mersenne31_complex \<Rightarrow> m31" where "imag_part x = cc1 x"

definition conjugate :: "mersenne31_complex \<Rightarrow> mersenne31_complex" where
  "conjugate x = x\<lparr>cc1 := m31_negate (cc1 x)\<rparr>"

definition Complex_div_2exp_u64 :: "mersenne31_complex \<Rightarrow> u64 \<Rightarrow> mersenne31_complex" where
  "Complex_div_2exp_u64 x exp = Complex_new (div_2exp_u64 (real_part x) exp) (div_2exp_u64 (imag_part x) exp)"

definition Complex_is_zero :: "mersenne31_complex \<Rightarrow> bool" where
  "Complex_is_zero x \<longleftrightarrow> m31_is_zero (cc0 x) \<and> m31_is_zero (cc1 x)"

definition Complex_is_one :: "mersenne31_complex \<Rightarrow> bool" where
  "Complex_is_one x \<longleftrightarrow> m31_is_one (cc0 x) \<and> m31_is_zero (cc1 x)"

definition Complex_add_assign :: "mersenne31_complex \<Rightarrow> mersenne31_complex \<Rightarrow> mersenne31_complex" where
  "Complex_add_assign x other = \<lparr>cc0 = add_mod (cc0 x) (cc0 other), cc1 = add_mod (cc1 x) (cc1 other)\<rparr>"

definition Complex_sub_assign :: "mersenne31_complex \<Rightarrow> mersenne31_complex \<Rightarrow> mersenne31_complex" where
  "Complex_sub_assign x other = \<lparr>cc0 = sub_mod (cc0 x) (cc0 other), cc1 = sub_mod (cc1 x) (cc1 other)\<rparr>"

definition Complex_mul_assign :: "mersenne31_complex \<Rightarrow> mersenne31_complex \<Rightarrow> mersenne31_complex" where
  "Complex_mul_assign x other =
    (let v0 = mul_mod (cc0 x) (cc0 other);
         v1 = mul_mod (cc1 x) (cc1 other);
         c1 = add_mod (cc1 x) (cc0 x);
         t0 = add_mod (cc0 other) (cc1 other);
         c1 = mul_mod c1 t0;
         c1 = sub_mod c1 v0;
         c1 = sub_mod c1 v1;
         c0 = sub_mod v0 v1
     in \<lparr>cc0 = c0, cc1 = c1\<rparr>)"

text \<open>With the feature \<open>modular_ops\<close>, over the base operations \<open>B\<close>.\<close>

definition Complex_mul_assign_schoolbook ::
  "m31 field_ops \<Rightarrow> mersenne31_complex \<Rightarrow> mersenne31_complex \<Rightarrow> mersenne31_complex" where
  "Complex_mul_assign_schoolbook B x other =
    (let v0 = f_mul_assign B (cc0 x) (cc0 other);
         v1 = f_mul_assign B (cc1 x) (cc1 other);
         v01 = f_mul_assign B (cc0 x) (cc1 other);
         v10 = f_mul_assign B (cc1 x) (cc0 other)
     in \<lparr>cc0 = f_sub_assign B v0 v1, cc1 = f_add_assign B v01 v10\<rparr>)"

definition Complex_square :: "mersenne31_complex \<Rightarrow> mersenne31_complex" where
  "Complex_square x =
    (let v0 = sub_mod (cc0 x) (cc1 x);
         v3 = add_mod (cc0 x) (cc1 x);
         v2 = mul_mod (cc0 x) (cc1 x);
         v0 = mul_mod v0 v3;
         v0 = add_mod v0 v2;
         c1 = m31_double v2;
         c0 = sub_mod v0 v2
     in \<lparr>cc0 = c0, cc1 = c1\<rparr>)"

definition Complex_square_schoolbook :: "m31 field_ops \<Rightarrow> mersenne31_complex \<Rightarrow> mersenne31_complex" where
  "Complex_square_schoolbook B x =
    (let v0 = f_mul_assign B (cc0 x) (cc0 x);
         v1 = f_mul_assign B (cc1 x) (cc1 x);
         cross = f_mul_assign B (cc0 x) (cc1 x)
     in \<lparr>cc0 = f_sub_assign B v0 v1, cc1 = f_double B cross\<rparr>)"

definition Complex_negate :: "mersenne31_complex \<Rightarrow> mersenne31_complex" where
  "Complex_negate x = \<lparr>cc0 = m31_negate (cc0 x), cc1 = m31_negate (cc1 x)\<rparr>"

definition Complex_double :: "mersenne31_complex \<Rightarrow> mersenne31_complex" where
  "Complex_double x = \<lparr>cc0 = m31_double (cc0 x), cc1 = m31_double (cc1 x)\<rparr>"

definition Complex_inverse :: "mersenne31_complex \<Rightarrow> mersenne31_complex option" where
  "Complex_inverse x =
    (let v0 = m31_square (cc0 x);
         v1 = m31_square (cc1 x);
         v1_by_nonresidue = m31_mul_by_non_residue v1;
         v0 = sub_mod v0 v1_by_nonresidue
     in case m31_inverse v0 of
          Some inversed \<Rightarrow>
            Some \<lparr>cc0 = mul_mod (cc0 x) inversed, cc1 = m31_negate (mul_mod (cc1 x) inversed)\<rparr>
        | None \<Rightarrow> None)"

definition Complex_eq :: "mersenne31_complex \<Rightarrow> mersenne31_complex \<Rightarrow> bool" where
  "Complex_eq x other \<longleftrightarrow> m31_eq (cc0 x) (cc0 other) \<and> m31_eq (cc1 x) (cc1 other)"

definition Complex_ZERO :: mersenne31_complex where "Complex_ZERO = \<lparr>cc0 = 0, cc1 = 0\<rparr>"
definition Complex_ONE :: mersenne31_complex where "Complex_ONE = \<lparr>cc0 = 1, cc1 = 0\<rparr>"
definition Complex_default :: mersenne31_complex where "Complex_default = \<lparr>cc0 = 0, cc1 = 0\<rparr>"

definition Complex_mul_by_two :: "mersenne31_complex \<Rightarrow> mersenne31_complex" where
  "Complex_mul_by_two x = \<lparr>cc0 = m31_mul_by_two (cc0 x), cc1 = m31_mul_by_two (cc1 x)\<rparr>"

definition Complex_div_by_two :: "mersenne31_complex \<Rightarrow> mersenne31_complex" where
  "Complex_div_by_two x = \<lparr>cc0 = m31_div_by_two (cc0 x), cc1 = m31_div_by_two (cc1 x)\<rparr>"

definition Complex_ops :: "mersenne31_complex field_ops" where
  "Complex_ops = \<lparr>f_ZERO = Complex_ZERO, f_ONE = Complex_ONE, f_is_zero = Complex_is_zero, f_is_one = Complex_is_one,
     f_eq = Complex_eq, f_inverse = Complex_inverse, f_add_assign = Complex_add_assign, f_sub_assign = Complex_sub_assign,
     f_mul_assign = Complex_mul_assign, f_square = Complex_square, f_negate = Complex_negate, f_double = Complex_double\<rparr>"

definition Complex_mul_assign_by_base :: "mersenne31_complex \<Rightarrow> m31 \<Rightarrow> mersenne31_complex" where
  "Complex_mul_assign_by_base x elem = \<lparr>cc0 = mul_mod (cc0 x) elem, cc1 = mul_mod (cc1 x) elem\<rparr>"

definition Complex_into_coeffs_in_base :: "mersenne31_complex \<Rightarrow> m31 list" where
  "Complex_into_coeffs_in_base x = [cc0 x, cc1 x]"

text \<open>Out of range indices panic.\<close>

definition Complex_from_coeffs_in_base :: "m31 list \<Rightarrow> mersenne31_complex option" where
  "Complex_from_coeffs_in_base coeffs =
    (case coeffs of a # b # _ \<Rightarrow> Some \<lparr>cc0 = a, cc1 = b\<rparr> | _ \<Rightarrow> panic)"

definition Complex_add_assign_base :: "mersenne31_complex \<Rightarrow> m31 \<Rightarrow> mersenne31_complex" where
  "Complex_add_assign_base x elem = x\<lparr>cc0 := add_mod (cc0 x) elem\<rparr>"

definition Complex_sub_assign_base :: "mersenne31_complex \<Rightarrow> m31 \<Rightarrow> mersenne31_complex" where
  "Complex_sub_assign_base x elem = x\<lparr>cc0 := sub_mod (cc0 x) elem\<rparr>"

definition Complex_from_base :: "m31 \<Rightarrow> mersenne31_complex" where
  "Complex_from_base elem = \<lparr>cc0 = elem, cc1 = 0\<rparr>"

definition Complex_QUADRATIC_NON_RESIDUE :: mersenne31_complex where
  "Complex_QUADRATIC_NON_RESIDUE = \<lparr>cc0 = 2, cc1 = 1\<rparr>"

definition Complex_mul_by_non_residue :: "mersenne31_complex \<Rightarrow> mersenne31_complex" where
  "Complex_mul_by_non_residue elem =
    (let a = cc0 elem; b = cc1 elem;
         real = m31_double a;
         real = sub_mod real b;
         imag = m31_double b;
         imag = add_mod imag a
     in \<lparr>cc0 = real, cc1 = imag\<rparr>)"

section \<open>The fields implement the contract\<close>

definition m31_elem :: "m31 \<Rightarrow> f31" where
  "m31_elem x = f31_of_int (m31_val x)"

lemma m31_elem_eq_iff: "m31_elem x = m31_elem y \<longleftrightarrow> m31_val x = m31_val y"
  by (simp add: m31_elem_def f31_of_int_eq_iff m31_val_def)

lemma m31_elem_consts: "m31_elem 0 = 0" "m31_elem 1 = 1"
  by (simp_all add: m31_elem_def m31_consts f31_of_int_hom)

lemma m31_elem_add: "m31_wf x \<Longrightarrow> m31_wf y \<Longrightarrow> m31_wf (add_mod x y) \<and> m31_elem (add_mod x y) = m31_elem x + m31_elem y"
  by (simp add: m31_elem_def add_mod_correct f31_of_int_hom)

lemma m31_elem_sub: "m31_wf x \<Longrightarrow> m31_wf y \<Longrightarrow> m31_wf (sub_mod x y) \<and> m31_elem (sub_mod x y) = m31_elem x - m31_elem y"
  by (simp add: m31_elem_def sub_mod_correct f31_of_int_hom)

lemma m31_elem_mul: "m31_wf x \<Longrightarrow> m31_wf y \<Longrightarrow> m31_wf (mul_mod x y) \<and> m31_elem (mul_mod x y) = m31_elem x * m31_elem y"
  by (simp add: m31_elem_def mul_mod_correct f31_of_int_hom)

lemma m31_elem_negate: "m31_wf x \<Longrightarrow> m31_wf (m31_negate x) \<and> m31_elem (m31_negate x) = - m31_elem x"
  by (simp add: m31_elem_def negate_correct f31_of_int_hom)

lemma m31_elem_double: "m31_wf x \<Longrightarrow> m31_wf (m31_double x) \<and> m31_elem (m31_double x) = m31_elem x + m31_elem x"
  by (simp only: m31_elem_def double_correct f31_of_int_mod mult_2 f31_of_int_hom(3) simp_thms)

lemma m31_is_one_iff:
  assumes "m31_wf x"
  shows "m31_is_one x \<longleftrightarrow> m31_elem x = 1"
proof -
  have "uint x \<le> p31" "0 \<le> uint x"
    using assms by (simp_all add: m31_wf_iff)
  then have "uint x mod p31 = 1 \<longleftrightarrow> uint x = 1"
    by (cases "uint x = p31") simp_all
  then show ?thesis
    using m31_elem_eq_iff [of x 1] by (auto simp: m31_is_one_def m31_elem_consts m31_val_def m31_consts word_uint_eq_iff)
qed

lemma m31_elem_inverse:
  assumes "m31_wf x"
  shows "m31_inverse x = None \<longleftrightarrow> m31_elem x = 0"
    "m31_inverse x = Some y \<Longrightarrow> m31_wf y \<and> m31_elem y = inverse (m31_elem x)"
proof -
  have zero: "m31_elem x = 0 \<longleftrightarrow> m31_is_zero x"
    using m31_elem_eq_iff [of x 0] assms by (simp add: m31_elem_consts m31_consts m31_is_zero_iff)
  show none: "m31_inverse x = None \<longleftrightarrow> m31_elem x = 0"
    unfolding zero using inverse_correct [OF assms] by (auto simp: m31_inverse_def)
  assume y: "m31_inverse x = Some y"
  then have "\<not> m31_is_zero x"
    using none zero by auto
  then have "m31_wf y" "m31_val x * m31_val y mod p31 = 1 mod p31"
    using inverse_correct [OF assms] y by auto
  then have "m31_elem x * m31_elem y = 1"
    by (simp only: m31_elem_def f31_of_int_hom(2) flip: f31_of_int_hom(6) f31_of_int_eq_iff)
  then show "m31_wf y \<and> m31_elem y = inverse (m31_elem x)"
    using \<open>m31_wf y\<close> by (simp add: inverse_unique)
qed

interpretation m31f: field_impl m31_ops m31_wf m31_elem
proof (unfold_locales, unfold m31_ops_def field_ops.select_convs)
  fix x y
  assume "m31_wf x"
  then show "m31_is_zero x \<longleftrightarrow> m31_elem x = 0"
    using m31_elem_eq_iff [of x 0] by (simp add: m31_elem_consts m31_consts m31_is_zero_iff)
qed (simp_all add: m31_elem_consts m31_consts m31_elem_add m31_elem_sub m31_elem_mul m31_elem_negate
      m31_elem_double m31_is_one_iff m31_square_def m31_elem_inverse m31_eq_iff m31_elem_eq_iff)

definition complex_wf :: "mersenne31_complex \<Rightarrow> bool" where
  "complex_wf x \<longleftrightarrow> m31_wf (cc0 x) \<and> m31_wf (cc1 x)"

definition complex_elem :: "mersenne31_complex \<Rightarrow> c31" where
  "complex_elem x = C31 (m31_elem (cc0 x)) (m31_elem (cc1 x))"

lemmas m31_elems = m31_elem_consts m31_consts m31_elem_add m31_elem_sub m31_elem_mul m31_elem_negate m31_elem_double
lemmas complex_defs = complex_wf_def complex_elem_def zero_c31_def one_c31_def

lemma complex_add: "complex_wf x \<Longrightarrow> complex_wf y \<Longrightarrow>
    complex_wf (Complex_add_assign x y) \<and> complex_elem (Complex_add_assign x y) = complex_elem x + complex_elem y"
  by (simp add: complex_defs Complex_add_assign_def m31_elems)

lemma complex_sub: "complex_wf x \<Longrightarrow> complex_wf y \<Longrightarrow>
    complex_wf (Complex_sub_assign x y) \<and> complex_elem (Complex_sub_assign x y) = complex_elem x - complex_elem y"
  by (simp add: complex_defs Complex_sub_assign_def m31_elems)

lemma complex_mul: "complex_wf x \<Longrightarrow> complex_wf y \<Longrightarrow>
    complex_wf (Complex_mul_assign x y) \<and> complex_elem (Complex_mul_assign x y) = complex_elem x * complex_elem y"
  by (simp add: complex_defs Complex_mul_assign_def m31_elems Let_def algebra_simps)

lemma complex_square: "complex_wf x \<Longrightarrow>
    complex_wf (Complex_square x) \<and> complex_elem (Complex_square x) = complex_elem x * complex_elem x"
  by (simp add: complex_defs Complex_square_def m31_elems Let_def algebra_simps)

lemma complex_negate: "complex_wf x \<Longrightarrow> complex_wf (Complex_negate x) \<and> complex_elem (Complex_negate x) = - complex_elem x"
  by (simp add: complex_defs Complex_negate_def m31_elems)

lemma complex_double: "complex_wf x \<Longrightarrow>
    complex_wf (Complex_double x) \<and> complex_elem (Complex_double x) = complex_elem x + complex_elem x"
  by (simp add: complex_defs Complex_double_def m31_elems)

lemma complex_mul_by_non_residue: "complex_wf x \<Longrightarrow>
    complex_wf (Complex_mul_by_non_residue x) \<and> complex_elem (Complex_mul_by_non_residue x) = beta * complex_elem x"
  by (simp add: complex_defs Complex_mul_by_non_residue_def beta_def m31_elems Let_def)

lemma complex_inverse:
  assumes "complex_wf x"
  shows "Complex_inverse x = None \<longleftrightarrow> complex_elem x = 0"
    "Complex_inverse x = Some y \<Longrightarrow> complex_wf y \<and> complex_elem y = inverse (complex_elem x)"
proof -
  let ?n = "sub_mod (m31_square (cc0 x)) (m31_mul_by_non_residue (m31_square (cc1 x)))"
  have n: "m31_wf ?n" "m31_elem ?n = c31_norm (complex_elem x)"
    using assms by (simp_all add: complex_defs m31_square_def m31_mul_by_non_residue_def m31_elems c31_norm_def)
  show "Complex_inverse x = None \<longleftrightarrow> complex_elem x = 0"
    using m31_elem_inverse(1) [OF n(1)] n(2)
    by (auto simp: Complex_inverse_def Let_def c31_norm_0_iff split: option.splits)
  assume "Complex_inverse x = Some y"
  then obtain v where v: "m31_inverse ?n = Some v"
    "y = \<lparr>cc0 = mul_mod (cc0 x) v, cc1 = m31_negate (mul_mod (cc1 x) v)\<rparr>"
    by (auto simp: Complex_inverse_def Let_def split: option.splits)
  then have "m31_wf v" "m31_elem v = inverse (c31_norm (complex_elem x))"
    using m31_elem_inverse(2) [OF n(1)] n(2) by simp_all
  then show "complex_wf y \<and> complex_elem y = inverse (complex_elem x)"
    using assms v(2) by (simp add: complex_defs m31_elems inverse_c31_def divide_inverse)
qed

lemma complex_tests:
  "complex_wf x \<Longrightarrow> Complex_is_zero x \<longleftrightarrow> complex_elem x = 0"
  "complex_wf x \<Longrightarrow> Complex_is_one x \<longleftrightarrow> complex_elem x = 1"
  "complex_wf x \<Longrightarrow> complex_wf y \<Longrightarrow> Complex_eq x y \<longleftrightarrow> complex_elem x = complex_elem y"
  using m31f.is_zero m31f.is_one m31f.eq
  by (simp_all add: complex_defs Complex_is_zero_def Complex_is_one_def Complex_eq_def m31_ops_def)

interpretation c31f: field_impl Complex_ops complex_wf complex_elem
  by (unfold_locales, unfold Complex_ops_def field_ops.select_convs)
    (simp_all add: complex_tests complex_add complex_sub complex_mul complex_square complex_negate complex_double
      complex_inverse Complex_ZERO_def Complex_ONE_def, simp_all add: complex_defs m31_elems)

section \<open>Quartic\<close>

record mersenne31_quartic =
  qc0 :: mersenne31_complex
  qc1 :: mersenne31_complex

definition Quartic_new :: "mersenne31_complex \<Rightarrow> mersenne31_complex \<Rightarrow> mersenne31_quartic" where
  "Quartic_new c0 c1 = \<lparr>qc0 = c0, qc1 = c1\<rparr>"

definition Quartic_from_array_of_base :: "m31 list \<Rightarrow> mersenne31_quartic" where
  "Quartic_from_array_of_base els =
    \<lparr>qc0 = \<lparr>cc0 = els ! 0, cc1 = els ! 1\<rparr>, qc1 = \<lparr>cc0 = els ! 2, cc1 = els ! 3\<rparr>\<rparr>"

definition Quartic_eq :: "mersenne31_quartic \<Rightarrow> mersenne31_quartic \<Rightarrow> bool" where
  "Quartic_eq x other \<longleftrightarrow> Complex_eq (qc0 x) (qc0 other) \<and> Complex_eq (qc1 x) (qc1 other)"

definition Quartic_ZERO :: mersenne31_quartic where "Quartic_ZERO = \<lparr>qc0 = Complex_ZERO, qc1 = Complex_ZERO\<rparr>"
definition Quartic_ONE :: mersenne31_quartic where "Quartic_ONE = \<lparr>qc0 = Complex_ONE, qc1 = Complex_ZERO\<rparr>"
definition Quartic_default :: mersenne31_quartic where "Quartic_default = \<lparr>qc0 = Complex_ZERO, qc1 = Complex_ZERO\<rparr>"

definition Quartic_is_zero :: "mersenne31_quartic \<Rightarrow> bool" where
  "Quartic_is_zero x \<longleftrightarrow> Complex_is_zero (qc0 x) \<and> Complex_is_zero (qc1 x)"

definition Quartic_is_one :: "mersenne31_quartic \<Rightarrow> bool" where
  "Quartic_is_one x \<longleftrightarrow> Complex_is_one (qc0 x) \<and> Complex_is_zero (qc1 x)"

definition Quartic_add_assign :: "mersenne31_quartic \<Rightarrow> mersenne31_quartic \<Rightarrow> mersenne31_quartic" where
  "Quartic_add_assign x other = \<lparr>qc0 = Complex_add_assign (qc0 x) (qc0 other), qc1 = Complex_add_assign (qc1 x) (qc1 other)\<rparr>"

definition Quartic_sub_assign :: "mersenne31_quartic \<Rightarrow> mersenne31_quartic \<Rightarrow> mersenne31_quartic" where
  "Quartic_sub_assign x other = \<lparr>qc0 = Complex_sub_assign (qc0 x) (qc0 other), qc1 = Complex_sub_assign (qc1 x) (qc1 other)\<rparr>"

definition Quartic_mul_assign :: "mersenne31_quartic \<Rightarrow> mersenne31_quartic \<Rightarrow> mersenne31_quartic" where
  "Quartic_mul_assign x other =
    (let v0 = Complex_mul_assign (qc0 x) (qc0 other);
         v1 = Complex_mul_assign (qc1 x) (qc1 other);
         t = qc0 x;
         c1 = Complex_add_assign (qc1 x) t;
         t0 = Complex_add_assign (qc0 other) (qc1 other);
         c1 = Complex_mul_assign c1 t0;
         c1 = Complex_sub_assign c1 v0;
         c1 = Complex_sub_assign c1 v1;
         v1 = Complex_mul_by_non_residue v1;
         c0 = Complex_add_assign v0 v1
     in \<lparr>qc0 = c0, qc1 = c1\<rparr>)"

definition Quartic_square :: "mersenne31_quartic \<Rightarrow> mersenne31_quartic" where
  "Quartic_square x =
    (let v0 = Complex_sub_assign (qc0 x) (qc1 x);
         v3 = qc0 x;
         t0 = Complex_mul_by_non_residue (qc1 x);
         v3 = Complex_sub_assign v3 t0;
         v2 = Complex_mul_assign (qc0 x) (qc1 x);
         v0 = Complex_mul_assign v0 v3;
         v0 = Complex_add_assign v0 v2;
         c1 = Complex_double v2;
         v2 = Complex_mul_by_non_residue v2;
         c0 = Complex_add_assign v0 v2
     in \<lparr>qc0 = c0, qc1 = c1\<rparr>)"

definition Quartic_negate :: "mersenne31_quartic \<Rightarrow> mersenne31_quartic" where
  "Quartic_negate x = \<lparr>qc0 = Complex_negate (qc0 x), qc1 = Complex_negate (qc1 x)\<rparr>"

definition Quartic_double :: "mersenne31_quartic \<Rightarrow> mersenne31_quartic" where
  "Quartic_double x = \<lparr>qc0 = Complex_double (qc0 x), qc1 = Complex_double (qc1 x)\<rparr>"

definition Quartic_inverse :: "mersenne31_quartic \<Rightarrow> mersenne31_quartic option" where
  "Quartic_inverse x =
    (let v0 = Complex_square (qc0 x);
         v1 = Complex_square (qc1 x);
         v1_by_nonresidue = Complex_mul_by_non_residue v1;
         v0 = Complex_sub_assign v0 v1_by_nonresidue
     in case Complex_inverse v0 of
          Some inversed \<Rightarrow>
            Some \<lparr>qc0 = Complex_mul_assign (qc0 x) inversed, qc1 = Complex_negate (Complex_mul_assign (qc1 x) inversed)\<rparr>
        | None \<Rightarrow> None)"

definition Quartic_mul_by_two :: "mersenne31_quartic \<Rightarrow> mersenne31_quartic" where
  "Quartic_mul_by_two x = \<lparr>qc0 = Complex_mul_by_two (qc0 x), qc1 = Complex_mul_by_two (qc1 x)\<rparr>"

definition Quartic_div_by_two :: "mersenne31_quartic \<Rightarrow> mersenne31_quartic" where
  "Quartic_div_by_two x = \<lparr>qc0 = Complex_div_by_two (qc0 x), qc1 = Complex_div_by_two (qc1 x)\<rparr>"

definition fma_implementation :: "mersenne31_quartic \<Rightarrow> mersenne31_quartic \<Rightarrow> mersenne31_quartic \<Rightarrow> mersenne31_quartic" where
  "fma_implementation dst a b = Quartic_add_assign (Quartic_mul_assign dst a) b"

definition Quartic_ops :: "mersenne31_quartic field_ops" where
  "Quartic_ops = \<lparr>f_ZERO = Quartic_ZERO, f_ONE = Quartic_ONE, f_is_zero = Quartic_is_zero, f_is_one = Quartic_is_one,
     f_eq = Quartic_eq, f_inverse = Quartic_inverse, f_add_assign = Quartic_add_assign, f_sub_assign = Quartic_sub_assign,
     f_mul_assign = Quartic_mul_assign, f_square = Quartic_square, f_negate = Quartic_negate, f_double = Quartic_double\<rparr>"

text \<open>\<open>FieldExtension<Mersenne31Complex>\<close> and \<open>FieldExtension<Mersenne31Field>\<close>.  As \<open>Mersenne31Complex\<close> is
  also an extension of itself of degree 1, \<open>add_assign_base\<close> of the first adds the whole element.\<close>

definition Quartic_mul_assign_by_complex :: "mersenne31_quartic \<Rightarrow> mersenne31_complex \<Rightarrow> mersenne31_quartic" where
  "Quartic_mul_assign_by_complex x elem = \<lparr>qc0 = Complex_mul_assign (qc0 x) elem, qc1 = Complex_mul_assign (qc1 x) elem\<rparr>"

definition Quartic_add_assign_complex :: "mersenne31_quartic \<Rightarrow> mersenne31_complex \<Rightarrow> mersenne31_quartic" where
  "Quartic_add_assign_complex x elem = x\<lparr>qc0 := Complex_add_assign (qc0 x) elem\<rparr>"

definition Quartic_sub_assign_complex :: "mersenne31_quartic \<Rightarrow> mersenne31_complex \<Rightarrow> mersenne31_quartic" where
  "Quartic_sub_assign_complex x elem = x\<lparr>qc0 := Complex_sub_assign (qc0 x) elem\<rparr>"

definition Quartic_from_complex :: "mersenne31_complex \<Rightarrow> mersenne31_quartic" where
  "Quartic_from_complex elem = \<lparr>qc0 = elem, qc1 = Complex_ZERO\<rparr>"

definition Quartic_mul_assign_by_base :: "mersenne31_quartic \<Rightarrow> m31 \<Rightarrow> mersenne31_quartic" where
  "Quartic_mul_assign_by_base x elem =
    \<lparr>qc0 = Complex_mul_assign_by_base (qc0 x) elem, qc1 = Complex_mul_assign_by_base (qc1 x) elem\<rparr>"

definition Quartic_into_coeffs_in_base :: "mersenne31_quartic \<Rightarrow> m31 list" where
  "Quartic_into_coeffs_in_base x = Complex_into_coeffs_in_base (qc0 x) @ Complex_into_coeffs_in_base (qc1 x)"

definition Quartic_from_coeffs_in_base :: "m31 list \<Rightarrow> mersenne31_quartic option" where
  "Quartic_from_coeffs_in_base coefs =
    (case coefs of a # b # c # d # _ \<Rightarrow> Some \<lparr>qc0 = \<lparr>cc0 = a, cc1 = b\<rparr>, qc1 = \<lparr>cc0 = c, cc1 = d\<rparr>\<rparr> | _ \<Rightarrow> panic)"

definition Quartic_add_assign_base :: "mersenne31_quartic \<Rightarrow> m31 \<Rightarrow> mersenne31_quartic" where
  "Quartic_add_assign_base x elem = x\<lparr>qc0 := Complex_add_assign_base (qc0 x) elem\<rparr>"

definition Quartic_sub_assign_base :: "mersenne31_quartic \<Rightarrow> m31 \<Rightarrow> mersenne31_quartic" where
  "Quartic_sub_assign_base x elem = x\<lparr>qc0 := Complex_sub_assign_base (qc0 x) elem\<rparr>"

definition Quartic_from_base :: "m31 \<Rightarrow> mersenne31_quartic" where
  "Quartic_from_base elem = \<lparr>qc0 = Complex_from_base elem, qc1 = Complex_ZERO\<rparr>"

section \<open>The quartic field implements the contract\<close>

definition quartic_wf :: "mersenne31_quartic \<Rightarrow> bool" where
  "quartic_wf x \<longleftrightarrow> complex_wf (qc0 x) \<and> complex_wf (qc1 x)"

definition quartic_elem :: "mersenne31_quartic \<Rightarrow> q31" where
  "quartic_elem x = Q31 (complex_elem (qc0 x)) (complex_elem (qc1 x))"

lemma complex_consts: "complex_wf Complex_ZERO" "complex_elem Complex_ZERO = 0" "complex_wf Complex_ONE" "complex_elem Complex_ONE = 1"
  using c31f.wf_ZERO c31f.val_ZERO c31f.wf_ONE c31f.val_ONE by (simp_all add: Complex_ops_def)

lemmas complex_elems = complex_consts complex_add complex_sub complex_mul complex_square complex_negate complex_double
  complex_mul_by_non_residue
lemmas quartic_defs = quartic_wf_def quartic_elem_def zero_q31_def one_q31_def

lemma quartic_add: "quartic_wf x \<Longrightarrow> quartic_wf y \<Longrightarrow>
    quartic_wf (Quartic_add_assign x y) \<and> quartic_elem (Quartic_add_assign x y) = quartic_elem x + quartic_elem y"
  by (simp add: quartic_defs Quartic_add_assign_def complex_elems)

lemma quartic_sub: "quartic_wf x \<Longrightarrow> quartic_wf y \<Longrightarrow>
    quartic_wf (Quartic_sub_assign x y) \<and> quartic_elem (Quartic_sub_assign x y) = quartic_elem x - quartic_elem y"
  by (simp add: quartic_defs Quartic_sub_assign_def complex_elems)

lemma quartic_mul: "quartic_wf x \<Longrightarrow> quartic_wf y \<Longrightarrow>
    quartic_wf (Quartic_mul_assign x y) \<and> quartic_elem (Quartic_mul_assign x y) = quartic_elem x * quartic_elem y"
  by (simp add: quartic_defs Quartic_mul_assign_def complex_elems Let_def algebra_simps)

lemma quartic_square: "quartic_wf x \<Longrightarrow>
    quartic_wf (Quartic_square x) \<and> quartic_elem (Quartic_square x) = quartic_elem x * quartic_elem x"
  by (simp add: quartic_defs Quartic_square_def complex_elems Let_def algebra_simps)

lemma quartic_negate: "quartic_wf x \<Longrightarrow> quartic_wf (Quartic_negate x) \<and> quartic_elem (Quartic_negate x) = - quartic_elem x"
  by (simp add: quartic_defs Quartic_negate_def complex_elems)

lemma quartic_double: "quartic_wf x \<Longrightarrow>
    quartic_wf (Quartic_double x) \<and> quartic_elem (Quartic_double x) = quartic_elem x + quartic_elem x"
  by (simp add: quartic_defs Quartic_double_def complex_elems)

lemma quartic_inverse:
  assumes "quartic_wf x"
  shows "Quartic_inverse x = None \<longleftrightarrow> quartic_elem x = 0"
    "Quartic_inverse x = Some y \<Longrightarrow> quartic_wf y \<and> quartic_elem y = inverse (quartic_elem x)"
proof -
  let ?n = "Complex_sub_assign (Complex_square (qc0 x)) (Complex_mul_by_non_residue (Complex_square (qc1 x)))"
  have n: "complex_wf ?n" "complex_elem ?n = q31_norm (quartic_elem x)"
    using assms by (simp_all add: quartic_defs complex_elems q31_norm_def)
  show "Quartic_inverse x = None \<longleftrightarrow> quartic_elem x = 0"
    using complex_inverse(1) [OF n(1)] n(2)
    by (auto simp: Quartic_inverse_def Let_def q31_norm_0_iff split: option.splits)
  assume "Quartic_inverse x = Some y"
  then obtain v where v: "Complex_inverse ?n = Some v"
    "y = \<lparr>qc0 = Complex_mul_assign (qc0 x) v, qc1 = Complex_negate (Complex_mul_assign (qc1 x) v)\<rparr>"
    by (auto simp: Quartic_inverse_def Let_def split: option.splits)
  then have "complex_wf v" "complex_elem v = inverse (q31_norm (quartic_elem x))"
    using complex_inverse(2) [OF n(1)] n(2) by simp_all
  then show "quartic_wf y \<and> quartic_elem y = inverse (quartic_elem x)"
    using assms v(2) by (simp add: quartic_defs complex_elems inverse_q31_def divide_inverse)
qed

lemma quartic_tests:
  "quartic_wf x \<Longrightarrow> Quartic_is_zero x \<longleftrightarrow> quartic_elem x = 0"
  "quartic_wf x \<Longrightarrow> Quartic_is_one x \<longleftrightarrow> quartic_elem x = 1"
  "quartic_wf x \<Longrightarrow> quartic_wf y \<Longrightarrow> Quartic_eq x y \<longleftrightarrow> quartic_elem x = quartic_elem y"
  by (simp_all add: quartic_defs Quartic_is_zero_def Quartic_is_one_def Quartic_eq_def complex_tests)

interpretation q31f: field_impl Quartic_ops quartic_wf quartic_elem
  by (unfold_locales, unfold Quartic_ops_def field_ops.select_convs)
    (simp_all add: quartic_tests quartic_add quartic_sub quartic_mul quartic_square quartic_negate quartic_double
      quartic_inverse Quartic_ZERO_def Quartic_ONE_def, simp_all add: quartic_defs complex_elems)

section \<open>Embeddings\<close>

definition c31_of :: "f31 \<Rightarrow> c31" where "c31_of a = C31 a 0"
definition q31_of :: "c31 \<Rightarrow> q31" where "q31_of z = Q31 z 0"

lemma base_ops:
  assumes "complex_wf x" "m31_wf e"
  shows "complex_wf (Complex_mul_assign_by_base x e) \<and> complex_elem (Complex_mul_assign_by_base x e) = complex_elem x * c31_of (m31_elem e)"
    "complex_wf (Complex_add_assign_base x e) \<and> complex_elem (Complex_add_assign_base x e) = complex_elem x + c31_of (m31_elem e)"
    "complex_wf (Complex_sub_assign_base x e) \<and> complex_elem (Complex_sub_assign_base x e) = complex_elem x - c31_of (m31_elem e)"
    "complex_wf (Complex_from_base e) \<and> complex_elem (Complex_from_base e) = c31_of (m31_elem e)"
  using assms by (simp_all add: complex_defs c31_of_def m31_elems Complex_mul_assign_by_base_def Complex_add_assign_base_def
      Complex_sub_assign_base_def Complex_from_base_def)

lemma quartic_base_ops:
  assumes "quartic_wf x" "complex_wf z" "m31_wf e"
  shows "quartic_wf (Quartic_mul_assign_by_complex x z) \<and> quartic_elem (Quartic_mul_assign_by_complex x z) = quartic_elem x * q31_of (complex_elem z)"
    "quartic_wf (Quartic_add_assign_complex x z) \<and> quartic_elem (Quartic_add_assign_complex x z) = quartic_elem x + q31_of (complex_elem z)"
    "quartic_wf (Quartic_sub_assign_complex x z) \<and> quartic_elem (Quartic_sub_assign_complex x z) = quartic_elem x - q31_of (complex_elem z)"
    "quartic_wf (Quartic_from_complex z) \<and> quartic_elem (Quartic_from_complex z) = q31_of (complex_elem z)"
    "quartic_wf (Quartic_mul_assign_by_base x e) \<and> quartic_elem (Quartic_mul_assign_by_base x e) = quartic_elem x * q31_of (c31_of (m31_elem e))"
    "quartic_wf (Quartic_add_assign_base x e) \<and> quartic_elem (Quartic_add_assign_base x e) = quartic_elem x + q31_of (c31_of (m31_elem e))"
    "quartic_wf (Quartic_sub_assign_base x e) \<and> quartic_elem (Quartic_sub_assign_base x e) = quartic_elem x - q31_of (c31_of (m31_elem e))"
    "quartic_wf (Quartic_from_base e) \<and> quartic_elem (Quartic_from_base e) = q31_of (c31_of (m31_elem e))"
  using assms by (simp_all add: quartic_defs q31_of_def complex_elems base_ops Quartic_mul_assign_by_complex_def
      Quartic_add_assign_complex_def Quartic_sub_assign_complex_def Quartic_from_complex_def Quartic_mul_assign_by_base_def
      Quartic_add_assign_base_def Quartic_sub_assign_base_def Quartic_from_base_def)

section \<open>Results\<close>

text \<open>C20: arithmetic of the complex extension.  On well-formed elements the host operations of
  \<open>Mersenne31Complex\<close> keep the representation and compute the operations of the field of residues modulo
  \<open>2 ^ 31 - 1\<close> extended by a root of \<open>- 1\<close> (the Karatsuba-style product and square included); the tests decide
  the values; \<open>inverse\<close> fails exactly on zero; and with any correct base field the schoolbook product and square
  of the feature \<open>modular_ops\<close> have the same values.\<close>

theorem complex_ops_correct:
  assumes "complex_wf x" "complex_wf y" and "field_impl B m31_wf m31_elem"
  shows "(complex_wf (Complex_add_assign x y) \<and> complex_elem (Complex_add_assign x y) = complex_elem x + complex_elem y) \<and>
    (complex_wf (Complex_sub_assign x y) \<and> complex_elem (Complex_sub_assign x y) = complex_elem x - complex_elem y) \<and>
    (complex_wf (Complex_mul_assign x y) \<and> complex_elem (Complex_mul_assign x y) = complex_elem x * complex_elem y) \<and>
    (complex_wf (Complex_square x) \<and> complex_elem (Complex_square x) = complex_elem x * complex_elem x) \<and>
    (complex_wf (Complex_mul_by_non_residue x) \<and> complex_elem (Complex_mul_by_non_residue x) = beta * complex_elem x) \<and>
    (Complex_eq x y \<longleftrightarrow> complex_elem x = complex_elem y) \<and>
    (case Complex_inverse x of None \<Rightarrow> complex_elem x = 0
      | Some z \<Rightarrow> complex_elem x \<noteq> 0 \<and> complex_wf z \<and> complex_elem z = 1 / complex_elem x) \<and>
    (complex_wf (Complex_mul_assign_schoolbook B x y) \<and>
      complex_elem (Complex_mul_assign_schoolbook B x y) = complex_elem (Complex_mul_assign x y)) \<and>
    (complex_wf (Complex_square_schoolbook B x) \<and>
      complex_elem (Complex_square_schoolbook B x) = complex_elem (Complex_square x))"
proof -
  have school: "complex_wf (Complex_mul_assign_schoolbook B x y) \<and>
      complex_elem (Complex_mul_assign_schoolbook B x y) = complex_elem x * complex_elem y"
    "complex_wf (Complex_square_schoolbook B x) \<and> complex_elem (Complex_square_schoolbook B x) = complex_elem x * complex_elem x"
    using assms(1,2) field_impl.ops [OF assms(3)]
    by (simp_all add: complex_defs Complex_mul_assign_schoolbook_def Complex_square_schoolbook_def Let_def)
  have inv: "case Complex_inverse x of None \<Rightarrow> complex_elem x = 0
      | Some z \<Rightarrow> complex_elem x \<noteq> 0 \<and> complex_wf z \<and> complex_elem z = 1 / complex_elem x"
    using complex_inverse [OF assms(1)] by (auto simp: inverse_eq_divide split: option.splits)
  show ?thesis
    using assms(1,2) inv school by (simp add: complex_elems complex_tests)
qed

theorem complex_ops_correct_witness:
  "Complex_mul_assign \<lparr>cc0 = 3, cc1 = 4\<rparr> \<lparr>cc0 = 5, cc1 = 0x7ffffffe\<rparr> = \<lparr>cc0 = 19, cc1 = 17\<rparr> \<and>
   complex_elem (Complex_mul_assign_schoolbook m31_ops \<lparr>cc0 = 3, cc1 = 4\<rparr> \<lparr>cc0 = 5, cc1 = 0x7ffffffe\<rparr>) =
     complex_elem \<lparr>cc0 = 19, cc1 = 17\<rparr>"
proof -
  have "Complex_mul_assign \<lparr>cc0 = 3, cc1 = 4\<rparr> \<lparr>cc0 = 5, cc1 = 0x7ffffffe\<rparr> = \<lparr>cc0 = 19, cc1 = 17\<rparr>"
    by code_simp
  then show ?thesis
    using complex_ops_correct [of "\<lparr>cc0 = 3, cc1 = 4\<rparr>" "\<lparr>cc0 = 5, cc1 = 0x7ffffffe\<rparr>" m31_ops, OF _ _ m31f.field_impl_axioms]
    by (simp add: complex_wf_def m31_wf_def ORDER_eq)
qed

text \<open>C19: arithmetic of the quartic extension.  On well-formed elements the host operations of
  \<open>Mersenne31Quartic\<close> keep the representation and compute in the extension of the complex field by a root of
  \<open>2 + i\<close>, which is a field because \<open>2 + i\<close> is not a square; \<open>inverse\<close> fails exactly on zero; the operations with a
  base-field element agree with its embedding.\<close>

theorem quartic_ops_correct:
  assumes "quartic_wf x" "quartic_wf y" "quartic_wf z" "m31_wf e"
  shows "(quartic_wf (Quartic_add_assign x y) \<and> quartic_elem (Quartic_add_assign x y) = quartic_elem x + quartic_elem y) \<and>
    (quartic_wf (Quartic_sub_assign x y) \<and> quartic_elem (Quartic_sub_assign x y) = quartic_elem x - quartic_elem y) \<and>
    (quartic_wf (Quartic_mul_assign x y) \<and> quartic_elem (Quartic_mul_assign x y) = quartic_elem x * quartic_elem y) \<and>
    (quartic_wf (Quartic_square x) \<and> quartic_elem (Quartic_square x) = quartic_elem x ^ 2) \<and>
    (quartic_wf (fma_implementation x y z) \<and> quartic_elem (fma_implementation x y z) = quartic_elem x * quartic_elem y + quartic_elem z) \<and>
    (Quartic_eq x y \<longleftrightarrow> quartic_elem x = quartic_elem y) \<and>
    (case Quartic_inverse x of None \<Rightarrow> quartic_elem x = 0
      | Some v \<Rightarrow> quartic_elem x \<noteq> 0 \<and> quartic_wf v \<and> quartic_elem v = 1 / quartic_elem x) \<and>
    (quartic_wf (Quartic_mul_assign_by_base x e) \<and>
      quartic_elem (Quartic_mul_assign_by_base x e) = quartic_elem (Quartic_mul_assign x (Quartic_from_base e))) \<and>
    (quartic_wf (Quartic_add_assign_base x e) \<and>
      quartic_elem (Quartic_add_assign_base x e) = quartic_elem (Quartic_add_assign x (Quartic_from_base e)))"
proof -
  have inv: "case Quartic_inverse x of None \<Rightarrow> quartic_elem x = 0
      | Some v \<Rightarrow> quartic_elem x \<noteq> 0 \<and> quartic_wf v \<and> quartic_elem v = 1 / quartic_elem x"
    using quartic_inverse [OF assms(1)] by (auto simp: inverse_eq_divide split: option.splits)
  show ?thesis
    using assms inv quartic_base_ops [OF assms(1) complex_consts(1) assms(4)]
    by (simp add: quartic_add quartic_sub quartic_mul quartic_square quartic_tests fma_implementation_def power2_eq_square)
qed

theorem quartic_ops_correct_witness:
  "quartic_elem (fma_implementation Quartic_ONE Quartic_ONE Quartic_ONE) = 1 + 1"
  using quartic_ops_correct [of Quartic_ONE Quartic_ONE Quartic_ONE 1] q31f.wf_ONE q31f.val_ONE
  by (simp add: Quartic_ops_def m31_consts)

text \<open>C23: the default method \<open>pow\<close> of the trait returns for every 32-bit exponent and computes the power, and
  \<open>exp_power_of_2\<close> the power with exponent \<open>2 ^ k\<close>, in every correct implementation of the trait.\<close>

theorem field_pow_correct:
  assumes "field_impl F ok val" "ok x"
  shows "ok (field_pow F x e) \<and> val (field_pow F x e) = val x ^ unat e \<and>
    ok (field_exp_power_of_2 F x k) \<and> val (field_exp_power_of_2 F x k) = val x ^ 2 ^ k"
  using field_impl.pow [OF assms] field_impl.exp_power_of_2 [OF assms] by blast

theorem field_pow_correct_witness:
  "quartic_elem (field_pow Quartic_ops Quartic_ONE 0xffffffff) = 1"
  using field_pow_correct [OF q31f.field_impl_axioms, of Quartic_ONE "0xffffffff"] q31f.wf_ONE q31f.val_ONE
  by (simp add: Quartic_ops_def)

text \<open>C21: batch inversion.  In every correct implementation of the trait, on input and buffer of the same length,
  \<open>batch_inverse_checked\<close> returns (its \<open>expect\<close> never fails), replaces every non-zero element by its inverse, keeps
  the zeros, and reports whether there was none; on different lengths it panics.\<close>

theorem batch_inverse_correct:
  assumes "field_impl F ok val" "\<forall>x \<in> set xs. ok x"
  shows "if length xs = length buf
    then \<exists>ys buf'. batch_inverse_checked F xs buf = Some (\<forall>x \<in> set xs. val x \<noteq> 0, ys, buf') \<and> length ys = length xs \<and>
      (\<forall>i < length xs. ok (ys ! i) \<and> (if val (xs ! i) = 0 then val (ys ! i) = 0 else val (ys ! i) * val (xs ! i) = 1))
    else batch_inverse_checked F xs buf = panic"
proof (cases "length xs = length buf")
  case True
  then obtain ys buf' where "batch_inverse_checked F xs buf = Some (\<forall>x \<in> set xs. val x \<noteq> 0, ys, buf')"
    "length ys = length xs" "\<forall>i < length xs. ok (ys ! i) \<and> val (ys ! i) = inverse (val (xs ! i))"
    using field_impl.batch_inverse [OF assms(1) True assms(2)] by blast
  then show ?thesis
    using True by auto
qed (simp add: batch_inverse_checked_def)

theorem batch_inverse_correct_witness:
  "\<exists>ys buf'. batch_inverse_checked m31_ops [2, 0, 3] [0, 0, 0] = Some (False, ys, buf') \<and> m31_elem (ys ! 0) * m31_elem 2 = 1"
proof -
  have "m31_elem 2 \<noteq> 0" "m31_elem 0 = 0"
    using f31_of_int_0_iff [of 2] by (simp_all add: m31_elem_def m31_val_def f31_of_int_hom)
  moreover have "\<forall>x \<in> set [2, 0, 3]. m31_wf x"
    by (simp add: m31_wf_def ORDER_eq)
  ultimately show ?thesis
    using batch_inverse_correct [OF m31f.field_impl_axioms, of "[2, 0, 3]" "[0, 0, 0]"] by fastforce
qed

end
