(* ===== verification/Roots.thy ===== *)
theory Roots
  imports Extensions
begin

text \<open>
  The roots of unity of \<open>Mersenne31Complex\<close> that the Fourier transforms use (\<open>complex.rs\<close>): the generator, the tables
  of generators of the two-power subgroups and of their inverses.
\<close>

section \<open>Roots of unity\<close>

definition TWO_ADIC_GENERATOR :: mersenne31_complex where
  "TWO_ADIC_GENERATOR = \<lparr>cc0 = 311014874, cc1 = 1584694829\<rparr>"

text \<open>The loop that fills the table, \<open>n\<close> iterations from \<open>i\<close>.\<close>

fun two_adicity_loop :: "nat \<Rightarrow> nat \<Rightarrow> mersenne31_complex \<Rightarrow> mersenne31_complex list \<Rightarrow> mersenne31_complex list" where
  "two_adicity_loop 0 i current result = result[0 := current]"
| "two_adicity_loop (Suc n) i current result =
     two_adicity_loop n (i + 1) (Complex_square current) (result[31 - i := current])"

definition TWO_ADICITY_GENERATORS :: "mersenne31_complex list" where
  "TWO_ADICITY_GENERATORS = two_adicity_loop 31 0 TWO_ADIC_GENERATOR (replicate 32 Complex_ZERO)"

text \<open>\<open>unwrap\<close> panics at compile time.\<close>

definition TWO_ADICITY_GENERATORS_INVERSED :: "mersenne31_complex list option" where
  "TWO_ADICITY_GENERATORS_INVERSED = those (map Complex_inverse TWO_ADICITY_GENERATORS)"

lemma two_adicity_loop:
  assumes "n + i = 31" "length result = 32" "complex_wf current"
  shows "length (two_adicity_loop n i current result) = 32 \<and>
    (\<forall>k \<le> n. complex_wf (two_adicity_loop n i current result ! k) \<and>
      complex_elem (two_adicity_loop n i current result ! k) = complex_elem current ^ 2 ^ (n - k)) \<and>
    (\<forall>k. n < k \<longrightarrow> two_adicity_loop n i current result ! k = result ! k)"
  using assms
proof (induction n arbitrary: i current result)
  case (Suc n)
  define L where "L = two_adicity_loop n (i + 1) (Complex_square current) (result[Suc n := current])"
  have "31 - i = Suc n"
    using Suc.prems(1) by simp
  then have L: "two_adicity_loop (Suc n) i current result = L"
    by (simp add: L_def)
  have sq: "complex_wf (Complex_square current)" "complex_elem (Complex_square current) = complex_elem current ^ 2"
    using complex_square [OF Suc.prems(3)] by (simp_all add: power2_eq_square)
  have IH: "length L = 32" "k \<le> n \<Longrightarrow> complex_wf (L ! k) \<and> complex_elem (L ! k) = complex_elem current ^ 2 ^ (Suc n - k)"
    "n < k \<Longrightarrow> L ! k = result[Suc n := current] ! k" for k
    using Suc.IH [of "i + 1" "result[Suc n := current]" "Complex_square current"] Suc.prems(1,2) sq
    by (simp_all add: L_def Suc_diff_le flip: power_mult)
  show ?case
    unfolding L
  proof (intro conjI allI impI)
    fix k assume k: "k \<le> Suc n"
    show "complex_wf (L ! k)" "complex_elem (L ! k) = complex_elem current ^ 2 ^ (Suc n - k)"
      using IH(2,3) [of k] Suc.prems k by (cases "k = Suc n"; simp)+
  qed (use IH in simp_all)
qed simp

text \<open>Powers by repeated squaring on pairs of residues.\<close>

fun mul_pairs :: "int \<times> int \<Rightarrow> int \<times> int \<Rightarrow> int \<times> int" where
  "mul_pairs (a, b) (c, d) = ((a * c - b * d) mod p31, (a * d + b * c) mod p31)"

fun square_pair :: "int \<times> int \<Rightarrow> int \<times> int" where
  "square_pair (a, b) = mul_pairs (a, b) (a, b)"

fun pow_pairs :: "int \<times> int \<Rightarrow> num \<Rightarrow> int \<times> int" where
  "pow_pairs z num.One = z"
| "pow_pairs z (num.Bit0 n) = square_pair (pow_pairs z n)"
| "pow_pairs z (num.Bit1 n) = mul_pairs (square_pair (pow_pairs z n)) z"

definition pair_elem :: "int \<times> int \<Rightarrow> c31" where
  "pair_elem z = C31 (f31_of_int (fst z)) (f31_of_int (snd z))"

lemma mul_pairs: "pair_elem (mul_pairs z w) = pair_elem z * pair_elem w"
  by (cases z; cases w) (simp add: pair_elem_def f31_of_int_hom)

lemma square_pair: "square_pair z = mul_pairs z z"
  by (cases z) simp

lemma pow_pairs: "pair_elem (pow_pairs z n) = pair_elem z ^ numeral n"
  by (induction n) (simp_all add: square_pair mul_pairs power_numeral_even power_numeral_odd Let_def mult.commute)

lemma generator_powers:
  "complex_elem TWO_ADIC_GENERATOR ^ 2 ^ 30 = - 1" "complex_elem TWO_ADIC_GENERATOR ^ 2 ^ 31 = 1"
proof -
  have g: "complex_elem TWO_ADIC_GENERATOR = pair_elem (311014874, 1584694829)"
    by (simp add: TWO_ADIC_GENERATOR_def complex_elem_def pair_elem_def m31_elem_def m31_val_def)
  have n: "(2 :: nat) ^ 30 = 1073741824"
    by simp
  have "complex_elem TWO_ADIC_GENERATOR ^ 2 ^ 30 = pair_elem (2147483646, 0)"
    unfolding g n by (simp flip: pow_pairs)
  also have "\<dots> = - 1"
    using f31_of_int_eq_iff [of "2147483646" "- 1"] by (simp add: pair_elem_def one_c31_def f31_of_int_hom)
  finally show *: "complex_elem TWO_ADIC_GENERATOR ^ 2 ^ 30 = - 1" .
  have "(2 :: nat) ^ 31 = 2 ^ 30 * 2"
    by simp
  then show "complex_elem TWO_ADIC_GENERATOR ^ 2 ^ 31 = 1"
    by (simp only: power_mult * power2_minus power_one)
qed

lemma those_map_Some: "\<forall>x \<in> set xs. f x \<noteq> None \<Longrightarrow> those (map f xs) = Some (map (\<lambda>x. the (f x)) xs)"
  by (induction xs) auto

lemma minus_one_complex: "(- 1 :: c31) \<noteq> 1"
  using half_order_values(3) by (simp only: one_c31_def uminus_c31.simps c31.inject not_False_eq_True simp_thms)

lemma order_two_power:
  fixes x :: c31
  assumes "k = 0 \<Longrightarrow> x = 1" "\<And>n. k = Suc n \<Longrightarrow> x ^ 2 ^ n = - 1"
  shows "x ^ j = 1 \<longleftrightarrow> 2 ^ k dvd j"
  using assms
proof (induction k arbitrary: x j)
  case (Suc n)
  have half: "x ^ 2 ^ n = - 1"
    using Suc.prems(2) by blast
  show ?case
  proof (cases "odd j")
    case True
    have "(x ^ j) ^ 2 ^ n = - 1"
      using True half by (metis power_commuting_commutes power_minus_odd power_mult power_one mult.commute)
    then have "x ^ j \<noteq> 1"
      using minus_one_complex by (metis power_one)
    then show ?thesis
      using True by (metis dvd_mult_left power_Suc)
  next
    case False
    then obtain i where i: "j = 2 * i"
      by (auto elim: evenE)
    have "x ^ 2 = 1" if "n = 0"
      using half that by simp
    moreover have "(x ^ 2) ^ 2 ^ m = - 1" if "n = Suc m" for m
      using half that by (simp add: power_mult)
    ultimately have "(x ^ 2) ^ i = 1 \<longleftrightarrow> 2 ^ n dvd i"
      by (rule Suc.IH)
    then show ?thesis
      by (simp add: i power_mult)
  qed
qed simp

text \<open>C22: the tables of roots of unity.  Entry \<open>k\<close> of \<open>TWO_ADICITY_GENERATORS\<close> is well-formed and has multiplicative order
  exactly \<open>2 ^ k\<close>; building the table of inverses never fails, and its entries are the inverses.\<close>

theorem two_adic_generators_correct:
  "\<exists>inv. TWO_ADICITY_GENERATORS_INVERSED = Some inv \<and> length TWO_ADICITY_GENERATORS = 32 \<and> length inv = 32 \<and>
    (\<forall>k < 32. complex_wf (TWO_ADICITY_GENERATORS ! k) \<and>
      (\<forall>j. complex_elem (TWO_ADICITY_GENERATORS ! k) ^ j = 1 \<longleftrightarrow> 2 ^ k dvd j) \<and>
      complex_wf (inv ! k) \<and> complex_elem (inv ! k) * complex_elem (TWO_ADICITY_GENERATORS ! k) = 1)"
proof -
  let ?T = TWO_ADICITY_GENERATORS and ?g = "complex_elem TWO_ADIC_GENERATOR"
  have "complex_wf TWO_ADIC_GENERATOR"
    by (simp add: complex_wf_def TWO_ADIC_GENERATOR_def m31_wf_def ORDER_eq)
  then have tab: "length ?T = 32" "k < 32 \<Longrightarrow> complex_wf (?T ! k) \<and> complex_elem (?T ! k) = ?g ^ 2 ^ (31 - k)" for k
    using two_adicity_loop [of 31 0 "replicate 32 Complex_ZERO"] unfolding TWO_ADICITY_GENERATORS_def by simp_all
  have order: "complex_elem (?T ! k) ^ j = 1 \<longleftrightarrow> 2 ^ k dvd j" if "k < 32" for j k
    using that generator_powers tab(2) [OF that] by (intro order_two_power) (auto simp flip: power_mult power_add)
  have nz: "complex_elem (?T ! k) \<noteq> 0" if "k < 32" for k
    using order [OF that, of "2 ^ k"] by (auto simp: power_0_left)
  have inv: "\<exists>v. Complex_inverse (?T ! k) = Some v \<and> complex_wf v \<and> complex_elem v * complex_elem (?T ! k) = 1" if "k < 32" for k
    using complex_inverse [of "?T ! k"] tab(2) [OF that] nz [OF that] by (cases "Complex_inverse (?T ! k)") auto
  then have "TWO_ADICITY_GENERATORS_INVERSED = Some (map (\<lambda>x. the (Complex_inverse x)) ?T)"
    unfolding TWO_ADICITY_GENERATORS_INVERSED_def
    by (intro those_map_Some) (fastforce simp: in_set_conv_nth tab(1))
  then show ?thesis
    using tab order inv by fastforce
qed

theorem two_adic_generators_correct_witness:
  "complex_elem (TWO_ADICITY_GENERATORS ! 31) ^ 2147483648 = 1 \<and> complex_elem (TWO_ADICITY_GENERATORS ! 31) ^ 2147483647 \<noteq> 1"
proof -
  have "(31 :: nat) < 32" "(2 :: nat) ^ 31 dvd 2147483648" "\<not> (2 :: nat) ^ 31 dvd 2147483647"
    by simp_all
  then show ?thesis
    using two_adic_generators_correct by metis
qed

end
