(* ===== verification/Transcript.thy ===== *)
theory Transcript
  imports Blake2s
begin

text \<open>
  The Fiat-Shamir transcript (\<open>transcript/src/lib.rs\<close>, \<open>pow.rs\<close>) over the host hasher: commitments, drawing
  randomness, the proof of work and the buffering transcript.  A seed is the list of its eight words.
  Pointer accesses outside a buffer, which are undefined behaviour, are \<open>panic\<close> in the model.
\<close>

section \<open>Copies\<close>

definition spec_memzero_u32 :: "u32 list \<Rightarrow> nat \<Rightarrow> u32 list" where
  "spec_memzero_u32 buffer dst = take dst buffer @ replicate (length buffer - dst) 0"

definition spec_memcopy_u32_nonoverlapping :: "u32 list \<Rightarrow> u32 list \<Rightarrow> nat \<Rightarrow> nat \<Rightarrow> u32 list option" where
  "spec_memcopy_u32_nonoverlapping src buffer dst count =
    (if count \<le> length src \<and> dst + count \<le> length buffer
     then Some (take dst buffer @ take count src @ drop (dst + count) buffer) else panic)"

definition USE_REDUCED_BLAKE2_ROUNDS :: bool where "USE_REDUCED_BLAKE2_ROUNDS = True"
definition BLAKE2S_BLOCK_SIZE_U32_WORDS :: nat where "BLAKE2S_BLOCK_SIZE_U32_WORDS = 16"
definition BLAKE2S_DIGEST_SIZE_U32_WORDS :: nat where "BLAKE2S_DIGEST_SIZE_U32_WORDS = 8"

definition read_state_for_output :: "blake2s_state \<Rightarrow> u32 list" where
  "read_state_for_output self = bs_state self"

section \<open>Commitments\<close>

type_synonym seed = "u32 list"

text \<open>The loop of \<open>commit_inner\<close>: the rest of the input and the offset into the buffer.\<close>

fun commit_rounds :: "nat \<Rightarrow> blake2s_state \<Rightarrow> u32 list \<Rightarrow> nat \<Rightarrow> (blake2s_state \<times> nat) option" where
  "commit_rounds 0 hasher input buffer_offset = Some (hasher, buffer_offset)"
| "commit_rounds (Suc n) hasher input buffer_offset = do {
     let words_to_use = min (length input) (BLAKE2S_BLOCK_SIZE_U32_WORDS - buffer_offset);
     buffer \<leftarrow> spec_memcopy_u32_nonoverlapping input (bs_input_buffer hasher) buffer_offset words_to_use;
     let input = drop words_to_use input;
     let buffer_offset = buffer_offset + words_to_use;
     let hasher = hasher\<lparr>bs_input_buffer := spec_memzero_u32 buffer buffer_offset\<rparr>;
     if length input > 0 then
       commit_rounds n (run_round_function USE_REDUCED_BLAKE2_ROUNDS hasher (of_nat BLAKE2S_BLOCK_SIZE_U32_WORDS) False) input 0
     else commit_rounds n hasher input buffer_offset }"

definition commit_inner :: "blake2s_state \<Rightarrow> u32 list \<Rightarrow> nat \<Rightarrow> (blake2s_state \<times> nat) option" where
  "commit_inner hasher input offset =
    (let effective_input_len = offset + length input;
         num_rounds = effective_input_len div BLAKE2S_BLOCK_SIZE_U32_WORDS +
           (if effective_input_len mod BLAKE2S_BLOCK_SIZE_U32_WORDS > 0 then 1 else 0)
     in commit_rounds num_rounds hasher input offset)"

definition transcript_flush :: "blake2s_state \<Rightarrow> nat \<Rightarrow> blake2s_state" where
  "transcript_flush hasher offset = run_round_function USE_REDUCED_BLAKE2_ROUNDS hasher (of_nat offset) True"

definition commit_initial_using_hasher :: "blake2s_state \<Rightarrow> u32 list \<Rightarrow> (seed \<times> blake2s_state) option" where
  "commit_initial_using_hasher hasher input = do {
     let hasher = Blake2sState_reset hasher;
     (hasher, offset) \<leftarrow> commit_inner hasher input 0;
     let hasher = transcript_flush hasher offset;
     Some (read_state_for_output hasher, hasher) }"

definition commit_initial :: "u32 list \<Rightarrow> seed option" where
  "commit_initial input = do {
     (hasher, offset) \<leftarrow> commit_inner Blake2sState_new input 0;
     Some (read_state_for_output (transcript_flush hasher offset)) }"

definition commit_with_seed_using_hasher :: "blake2s_state \<Rightarrow> seed \<Rightarrow> u32 list \<Rightarrow> (seed \<times> blake2s_state) option" where
  "commit_with_seed_using_hasher hasher seed input = do {
     let hasher = Blake2sState_reset hasher;
     (hasher, offset) \<leftarrow> commit_inner hasher seed 0;
     (hasher, offset) \<leftarrow> commit_inner hasher input offset;
     let hasher = transcript_flush hasher offset;
     Some (read_state_for_output hasher, hasher) }"

definition commit_with_seed :: "seed \<Rightarrow> u32 list \<Rightarrow> seed option" where
  "commit_with_seed seed input = do {
     (hasher, offset) \<leftarrow> commit_inner Blake2sState_new seed 0;
     (hasher, offset) \<leftarrow> commit_inner hasher input offset;
     Some (read_state_for_output (transcript_flush hasher offset)) }"

section \<open>Randomness\<close>

definition draw_randomness_inner :: "blake2s_state \<Rightarrow> seed \<Rightarrow> (seed \<times> blake2s_state) option" where
  "draw_randomness_inner hasher seed = do {
     let hasher = Blake2sState_reset hasher;
     buffer \<leftarrow> spec_memcopy_u32_nonoverlapping seed (bs_input_buffer hasher) 0 BLAKE2S_DIGEST_SIZE_U32_WORDS;
     let hasher = hasher\<lparr>bs_input_buffer := spec_memzero_u32 buffer BLAKE2S_DIGEST_SIZE_U32_WORDS\<rparr>;
     let hasher = run_round_function USE_REDUCED_BLAKE2_ROUNDS hasher (of_nat BLAKE2S_DIGEST_SIZE_U32_WORDS) True;
     Some (read_state_for_output hasher, hasher) }"

text \<open>The iterations \<open>1..num_rounds\<close>; the result is the seed, the hasher and the filled destination.\<close>

fun draw_rounds :: "nat \<Rightarrow> blake2s_state \<Rightarrow> seed \<Rightarrow> u32 list \<Rightarrow> nat \<Rightarrow> (seed \<times> blake2s_state \<times> u32 list) option" where
  "draw_rounds 0 hasher seed dst dst_ptr = Some (seed, hasher, dst)"
| "draw_rounds (Suc n) hasher seed dst dst_ptr = do {
     (seed, hasher) \<leftarrow> draw_randomness_inner hasher seed;
     dst \<leftarrow> spec_memcopy_u32_nonoverlapping seed dst dst_ptr BLAKE2S_DIGEST_SIZE_U32_WORDS;
     draw_rounds n hasher seed dst (dst_ptr + BLAKE2S_DIGEST_SIZE_U32_WORDS) }"

definition draw_randomness_using_hasher ::
  "blake2s_state \<Rightarrow> seed \<Rightarrow> u32 list \<Rightarrow> (seed \<times> blake2s_state \<times> u32 list) option" where
  "draw_randomness_using_hasher hasher seed dst = do {
     let num_rounds = length dst div BLAKE2S_DIGEST_SIZE_U32_WORDS;
     dst \<leftarrow> spec_memcopy_u32_nonoverlapping seed dst 0 BLAKE2S_DIGEST_SIZE_U32_WORDS;
     draw_rounds (unat (of_nat num_rounds :: u32) - 1) hasher seed dst BLAKE2S_DIGEST_SIZE_U32_WORDS }"

definition draw_randomness :: "seed \<Rightarrow> u32 list \<Rightarrow> (seed \<times> u32 list) option" where
  "draw_randomness seed dst = do {
     (seed, hasher, dst) \<leftarrow> draw_randomness_using_hasher Blake2sState_new seed dst;
     Some (seed, dst) }"

section \<open>Proof of work\<close>

text \<open>A shift of a \<open>u32\<close> by a variable amount takes the amount modulo 32 in a release build.\<close>

definition shr_u32 :: "u32 \<Rightarrow> u32 \<Rightarrow> u32" where
  "shr_u32 x n = drop_bit (unat n mod 32) x"

definition verify_pow_using_hasher :: "blake2s_state \<Rightarrow> seed \<Rightarrow> u64 \<Rightarrow> u32 \<Rightarrow> (seed \<times> blake2s_state) option" where
  "verify_pow_using_hasher hasher seed nonce pow_bits = do {
     rust_assert (pow_bits \<le> 32);
     let hasher = Blake2sState_reset hasher;
     buffer \<leftarrow> spec_memcopy_u32_nonoverlapping seed (bs_input_buffer hasher) 0 BLAKE2S_DIGEST_SIZE_U32_WORDS;
     let buffer = buffer[8 := ucast nonce];
     let buffer = buffer[9 := ucast (drop_bit 32 nonce)];
     let hasher = hasher\<lparr>bs_input_buffer := spec_memzero_u32 buffer (BLAKE2S_DIGEST_SIZE_U32_WORDS + 2)\<rparr>;
     let hasher = run_round_function USE_REDUCED_BLAKE2_ROUNDS hasher (of_nat (BLAKE2S_DIGEST_SIZE_U32_WORDS + 2)) True;
     rust_assert (bs_state hasher ! 0 \<le> shr_u32 0xffffffff pow_bits);
     Some (read_state_for_output hasher, hasher) }"

definition verify_pow :: "seed \<Rightarrow> u64 \<Rightarrow> u32 \<Rightarrow> seed option" where
  "verify_pow seed nonce pow_bits = do {
     (seed, hasher) \<leftarrow> verify_pow_using_hasher Blake2sState_new seed nonce pow_bits;
     Some seed }"

definition BLAKE2S_NO_RESULT :: u64 where "BLAKE2S_NO_RESULT = - 1"
definition BLAKE2S_ROUNDS_PER_INVOCAITON_log2 :: u32 where "BLAKE2S_ROUNDS_PER_INVOCAITON_log2 = 16"

definition pow_initial_state :: "u32 list" where
  "pow_initial_state =
    [CONFIGURED_IV ! 0, CONFIGURED_IV ! 1, CONFIGURED_IV ! 2, CONFIGURED_IV ! 3,
     CONFIGURED_IV ! 4, CONFIGURED_IV ! 5, CONFIGURED_IV ! 6, CONFIGURED_IV ! 7,
     IV ! 0, IV ! 1, IV ! 2, IV ! 3,
     IV ! 4 XOR of_nat ((BLAKE2S_DIGEST_SIZE_U32_WORDS + 2) * 4), IV ! 5, IV ! 6 XOR 0xffffffff, IV ! 7]"

text \<open>The serial loop over the challenges: at most \<open>n\<close> of them, from \<open>challenge\<close> on.\<close>

fun search_pow_serial :: "u32 list \<Rightarrow> u32 \<Rightarrow> nat \<Rightarrow> u64 \<Rightarrow> (seed \<times> u64) option" where
  "search_pow_serial input pow_bits 0 challenge = None"
| "search_pow_serial input pow_bits (Suc n) challenge =
    (let input = input[8 := ucast challenge, 9 := ucast (drop_bit 32 challenge)];
         state = run_rounds USE_REDUCED_BLAKE2_ROUNDS pow_initial_state input;
         word_to_test = (CONFIGURED_IV ! 0 XOR state ! 0) XOR state ! 8
     in if word_to_test \<le> shr_u32 0xffffffff pow_bits
        then Some (map (\<lambda>i. (CONFIGURED_IV ! i XOR state ! i) XOR state ! (i + 8)) [0..<8], challenge)
        else search_pow_serial input pow_bits n (challenge + 1))"

text \<open>
  The threaded search.  A worker is at the head of its loop over \<open>i\<close>, inside the loop over \<open>j\<close>, or has
  left; \<open>pool_result\<close> is the shared atomic.  A relaxed load may still see the initial value.  Every
  step of a worker is one load or one tested challenge, so that the steps of the workers interleave
  freely.
\<close>

datatype pow_worker = At_i nat | At_j nat nat | Finished

record pow_pool =
  pool_result :: u64
  pool_workers :: "pow_worker list"

definition pow_word_to_test :: "seed \<Rightarrow> u64 \<Rightarrow> u32" where
  "pow_word_to_test seed challenge =
    (let input = (seed @ replicate 8 0)[8 := ucast challenge, 9 := ucast (drop_bit 32 challenge)];
         state = run_rounds USE_REDUCED_BLAKE2_ROUNDS pow_initial_state input
     in (CONFIGURED_IV ! 0 XOR state ! 0) XOR state ! 8)"

definition pow_passes :: "seed \<Rightarrow> u32 \<Rightarrow> u64 \<Rightarrow> bool" where
  "pow_passes seed pow_bits challenge \<longleftrightarrow> pow_word_to_test seed challenge \<le> shr_u32 0xffffffff pow_bits"

definition BLAKE2S_ROUNDS_PER_INVOCAITON :: nat where "BLAKE2S_ROUNDS_PER_INVOCAITON = 2 ^ 16"

definition pow_iterations :: "nat \<Rightarrow> nat" where
  "pow_iterations num_workers =
    unat (BLAKE2S_NO_RESULT - 1) div num_workers div BLAKE2S_ROUNDS_PER_INVOCAITON"

definition pow_challenge :: "nat \<Rightarrow> nat \<Rightarrow> nat \<Rightarrow> nat \<Rightarrow> u64" where
  "pow_challenge num_workers worker_idx i j =
    (of_nat worker_idx + of_nat i * of_nat num_workers) * of_nat BLAKE2S_ROUNDS_PER_INVOCAITON + of_nat j"

definition compare_exchange :: "u64 \<Rightarrow> u64 \<Rightarrow> u64 \<Rightarrow> u64" where
  "compare_exchange current expected new = (if current = expected then new else current)"

definition pow_pool_start :: "nat \<Rightarrow> pow_pool" where
  "pow_pool_start num_workers = \<lparr>pool_result = BLAKE2S_NO_RESULT, pool_workers = replicate num_workers (At_i 0)\<rparr>"

inductive pow_pool_step :: "seed \<Rightarrow> u32 \<Rightarrow> pow_pool \<Rightarrow> pow_pool \<Rightarrow> bool" for seed pow_bits where
  pool_exhausted:
    "w < length (pool_workers p) \<Longrightarrow> pool_workers p ! w = At_i i \<Longrightarrow> \<not> i < pow_iterations (length (pool_workers p)) \<Longrightarrow>
     pow_pool_step seed pow_bits p (p\<lparr>pool_workers := (pool_workers p)[w := Finished]\<rparr>)"
| pool_enter:
    "w < length (pool_workers p) \<Longrightarrow> pool_workers p ! w = At_i i \<Longrightarrow> i < pow_iterations (length (pool_workers p)) \<Longrightarrow>
     current_flag \<in> {pool_result p, BLAKE2S_NO_RESULT} \<Longrightarrow> current_flag = BLAKE2S_NO_RESULT \<Longrightarrow>
     pow_pool_step seed pow_bits p (p\<lparr>pool_workers := (pool_workers p)[w := At_j i 0]\<rparr>)"
| pool_leave:
    "w < length (pool_workers p) \<Longrightarrow> pool_workers p ! w = At_i i \<Longrightarrow> i < pow_iterations (length (pool_workers p)) \<Longrightarrow>
     current_flag \<in> {pool_result p, BLAKE2S_NO_RESULT} \<Longrightarrow> current_flag \<noteq> BLAKE2S_NO_RESULT \<Longrightarrow>
     pow_pool_step seed pow_bits p (p\<lparr>pool_workers := (pool_workers p)[w := Finished]\<rparr>)"
| pool_next_i:
    "w < length (pool_workers p) \<Longrightarrow> pool_workers p ! w = At_j i j \<Longrightarrow> \<not> j < BLAKE2S_ROUNDS_PER_INVOCAITON \<Longrightarrow>
     pow_pool_step seed pow_bits p (p\<lparr>pool_workers := (pool_workers p)[w := At_i (i + 1)]\<rparr>)"
| pool_next_j:
    "w < length (pool_workers p) \<Longrightarrow> pool_workers p ! w = At_j i j \<Longrightarrow> j < BLAKE2S_ROUNDS_PER_INVOCAITON \<Longrightarrow>
     \<not> pow_passes seed pow_bits (pow_challenge (length (pool_workers p)) w i j) \<Longrightarrow>
     pow_pool_step seed pow_bits p (p\<lparr>pool_workers := (pool_workers p)[w := At_j i (j + 1)]\<rparr>)"
| pool_found:
    "w < length (pool_workers p) \<Longrightarrow> pool_workers p ! w = At_j i j \<Longrightarrow> j < BLAKE2S_ROUNDS_PER_INVOCAITON \<Longrightarrow>
     pow_passes seed pow_bits (pow_challenge (length (pool_workers p)) w i j) \<Longrightarrow>
     pow_pool_step seed pow_bits p
       (p\<lparr>pool_result := compare_exchange (pool_result p) BLAKE2S_NO_RESULT (pow_challenge (length (pool_workers p)) w i j),
          pool_workers := (pool_workers p)[w := At_i (i + 1)]\<rparr>)"

text \<open>\<open>challenge_u64\<close> is the value the threaded search leaves in the atomic, when it runs.\<close>

definition search_pow :: "u64 \<Rightarrow> seed \<Rightarrow> u32 \<Rightarrow> (seed \<times> u64) option" where
  "search_pow challenge_u64 seed pow_bits = do {
     rust_assert (pow_bits \<le> 32);
     let base_input = seed @ replicate 8 0;
     let serial = (if pow_bits \<le> BLAKE2S_ROUNDS_PER_INVOCAITON_log2
                   then search_pow_serial base_input pow_bits (unat (BLAKE2S_NO_RESULT - 1)) 0 else None);
     case serial of
       Some result \<Rightarrow> Some result
     | None \<Rightarrow> do {
         new_seed \<leftarrow> verify_pow seed challenge_u64 pow_bits;
         Some (new_seed, challenge_u64) } }"

section \<open>The buffering transcript\<close>

record buffering_transcript =
  bt_state :: blake2s_state
  bt_buffer_offset :: nat

definition BufferingTranscript_new :: buffering_transcript where
  "BufferingTranscript_new = \<lparr>bt_state = Blake2sState_new, bt_buffer_offset = 0\<rparr>"

definition run_absorb :: "buffering_transcript \<Rightarrow> buffering_transcript" where
  "run_absorb self = self\<lparr>
     bt_state := run_round_function USE_REDUCED_BLAKE2_ROUNDS (bt_state self) (of_nat BLAKE2S_BLOCK_SIZE_U32_WORDS) False,
     bt_buffer_offset := 0\<rparr>"

function buffering_absorb :: "buffering_transcript \<Rightarrow> u32 list \<Rightarrow> buffering_transcript option" where
  "buffering_absorb self values =
    (if length values > 0 then do {
       let absorb_this_round = min (length values) (BLAKE2S_BLOCK_SIZE_U32_WORDS - bt_buffer_offset self);
       buffer \<leftarrow> spec_memcopy_u32_nonoverlapping values (bs_input_buffer (bt_state self)) (bt_buffer_offset self) absorb_this_round;
       let values = drop absorb_this_round values;
       let self = self\<lparr>bt_state := (bt_state self)\<lparr>bs_input_buffer := buffer\<rparr>,
         bt_buffer_offset := bt_buffer_offset self + absorb_this_round\<rparr>;
       if length values > 0 then buffering_absorb (run_absorb self) values else Some self }
     else Some self)"
  by pat_completeness auto
termination
  by (relation "measure (\<lambda>(self, values). 2 * length values + (if bt_buffer_offset self < BLAKE2S_BLOCK_SIZE_U32_WORDS then 0 else 1))")
    (auto simp: run_absorb_def BLAKE2S_BLOCK_SIZE_U32_WORDS_def min_def split: if_splits)

declare buffering_absorb.simps [simp del]

definition transcript_pad :: "buffering_transcript \<Rightarrow> buffering_transcript" where
  "transcript_pad self = self\<lparr>
     bt_state := (bt_state self)\<lparr>bs_input_buffer := spec_memzero_u32 (bs_input_buffer (bt_state self)) (bt_buffer_offset self)\<rparr>,
     bt_buffer_offset := BLAKE2S_BLOCK_SIZE_U32_WORDS\<rparr>"

definition finalize_reset :: "buffering_transcript \<Rightarrow> seed \<times> buffering_transcript" where
  "finalize_reset self =
    (let state = (bt_state self)\<lparr>bs_input_buffer := spec_memzero_u32 (bs_input_buffer (bt_state self)) (bt_buffer_offset self)\<rparr>;
         state = run_round_function USE_REDUCED_BLAKE2_ROUNDS state (of_nat (bt_buffer_offset self)) True;
         seed = read_state_for_output state
     in (seed, \<lparr>bt_state = Blake2sState_reset state, bt_buffer_offset = 0\<rparr>))"

definition finalize :: "buffering_transcript \<Rightarrow> seed" where
  "finalize self =
    (let state = (bt_state self)\<lparr>bs_input_buffer := spec_memzero_u32 (bs_input_buffer (bt_state self)) (bt_buffer_offset self)\<rparr>;
         state = run_round_function USE_REDUCED_BLAKE2_ROUNDS state (of_nat (bt_buffer_offset self)) True
     in read_state_for_output state)"

section \<open>The hash of a sequence of words\<close>

text \<open>
  The reference: BLAKE2s with the reduced number of rounds over a sequence of words, the last block
  padded with zeros.  A sequence whose length is a multiple of the block size ends in a full block.
\<close>

function absorb_words :: "u32 list \<Rightarrow> u32 \<Rightarrow> u32 list \<Rightarrow> u32 list" where
  "absorb_words h t ws =
    (if length ws \<le> 16 then blake2s_F True h (ws @ replicate (16 - length ws) 0) (t + 4 * of_nat (length ws)) True
     else absorb_words (blake2s_F True h (take 16 ws) (t + 64) False) (t + 64) (drop 16 ws))"
  by pat_completeness auto
termination by (relation "measure (\<lambda>(h, t, ws). length ws)") auto

declare absorb_words.simps [simp del]

definition hash_words :: "u32 list \<Rightarrow> u32 list" where
  "hash_words ws = absorb_words CONFIGURED_IV 0 ws"

lemma absorb_words_last:
  "length ws \<le> 16 \<Longrightarrow>
   absorb_words h t ws = blake2s_F True h (ws @ replicate (16 - length ws) 0) (t + 4 * of_nat (length ws)) True"
  by (simp add: absorb_words.simps)

lemma absorb_words_block:
  "length b = 16 \<Longrightarrow> ws \<noteq> [] \<Longrightarrow>
   absorb_words h t (b @ ws) = absorb_words (blake2s_F True h b (t + 64) False) (t + 64) ws"
  by (subst absorb_words.simps) simp

lemma length_blake2s_F [simp]: "length (blake2s_F rr h m t fin) = 8"
  by (simp add: blake2s_F_def)

lemma length_absorb_words [simp]: "length (absorb_words h t ws) = 8"
  by (induction h t ws rule: absorb_words.induct) (subst absorb_words.simps, simp)

lemmas word_sizes = BLAKE2S_BLOCK_SIZE_U32_WORDS_def BLAKE2S_DIGEST_SIZE_U32_WORDS_def USE_REDUCED_BLAKE2_ROUNDS_def

text \<open>A hasher with \<open>off\<close> words in its buffer, and what it yields on the words still to come.\<close>

definition hasher_ok :: "blake2s_state \<Rightarrow> nat \<Rightarrow> bool" where
  "hasher_ok h off \<longleftrightarrow> blake2s_wf h \<and> off \<le> 16"

definition pending :: "blake2s_state \<Rightarrow> nat \<Rightarrow> u32 list \<Rightarrow> u32 list" where
  "pending h off rest = absorb_words (bs_state h) (bs_t h) (take off (bs_input_buffer h) @ rest)"

definition zero_tail :: "blake2s_state \<Rightarrow> nat \<Rightarrow> bool" where
  "zero_tail h off \<longleftrightarrow> drop off (bs_input_buffer h) = replicate (16 - off) 0"

lemma run_round_buffer [simp]:
  "bs_input_buffer (run_round_function rr s n fin) = bs_input_buffer s"
  by (simp add: run_round_function_def run_round_function_F)

lemma run_round_wf [simp]: "blake2s_wf s \<Longrightarrow> blake2s_wf (run_round_function rr s n fin)"
  by (simp add: blake2s_wf_def)

lemma ucast_of_nat: "(ucast (of_nat n :: usize) :: u32) = of_nat n"
  by (rule bit_word_eqI) (auto simp: bit_simps)

lemma ucast_words: "(ucast ((of_nat n :: usize) * 4) :: u32) = 4 * of_nat n"
  using ucast_of_nat [of "4 * n"] by (simp add: mult.commute)

text \<open>A full buffer is compressed as soon as more words follow.\<close>

lemma pending_round:
  "blake2s_wf h \<Longrightarrow> ws \<noteq> [] \<Longrightarrow>
   pending (run_round_function True h 16 False) 0 ws = pending h 16 ws"
  by (simp add: pending_def blake2s_wf_def absorb_words_block)

lemma pending_flush:
  "hasher_ok h off \<Longrightarrow> zero_tail h off \<Longrightarrow>
   read_state_for_output (transcript_flush h off) = pending h off []"
  using append_take_drop_id [of off "bs_input_buffer h"]
  by (simp add: read_state_for_output_def transcript_flush_def pending_def word_sizes ucast_words absorb_words_last
      hasher_ok_def blake2s_wf_def zero_tail_def)

lemma memcopy_fits:
  "count \<le> length src \<Longrightarrow> dst + count \<le> length buffer \<Longrightarrow>
   spec_memcopy_u32_nonoverlapping src buffer dst count = Some (take dst buffer @ take count src @ drop (dst + count) buffer)"
  by (simp add: spec_memcopy_u32_nonoverlapping_def)

lemma commit_rounds_spec:
  "hasher_ok h off \<Longrightarrow> input = [] \<or> off + length input \<le> 16 * n \<Longrightarrow>
   \<exists>h' off'. commit_rounds n h input off = Some (h', off') \<and> hasher_ok h' off' \<and>
     (n > 0 \<or> zero_tail h off \<longrightarrow> zero_tail h' off') \<and> (\<forall>rest. pending h' off' rest = pending h off (input @ rest))"
proof (induction n arbitrary: h input off)
  case 0
  then show ?case by (auto simp: hasher_ok_def)
next
  case (Suc n)
  define w where "w = min (length input) (16 - off)"
  define buf where "buf = take off (bs_input_buffer h) @ take w input @ replicate (16 - (off + w)) 0"
  define h1 where "h1 = h\<lparr>bs_input_buffer := buf\<rparr>"
  have len: "length (bs_input_buffer h) = 16" "off \<le> 16" and w: "w \<le> length input" "off + w \<le> 16"
    using Suc.prems(1) by (auto simp: hasher_ok_def blake2s_wf_def w_def)
  have buf16: "length buf = 16" and buf_take: "take (off + w) buf = take off (bs_input_buffer h) @ take w input"
    using len w by (simp_all add: buf_def)
  have h1: "hasher_ok h1 (off + w)" "zero_tail h1 (off + w)"
    using Suc.prems(1) w buf16 len by (simp_all add: hasher_ok_def blake2s_wf_def h1_def zero_tail_def buf_def)
  have pend: "pending h1 (off + w) (drop w input @ rest) = pending h off (input @ rest)" for rest
    by (simp add: pending_def h1_def buf_take) (simp flip: append_assoc)
  have copy: "commit_rounds (Suc n) h input off =
      (if drop w input \<noteq> [] then commit_rounds n (run_round_function True h1 16 False) (drop w input) 0
       else commit_rounds n h1 (drop w input) (off + w))"
    using w len by (simp add: Let_def word_sizes memcopy_fits spec_memzero_u32_def h1_def buf_def flip: w_def)
  show ?case
  proof (cases "drop w input = []")
    case True
    show ?thesis unfolding copy using Suc.IH [OF h1(1), of "drop w input"] True h1(2) pend by auto
  next
    case False
    then have full: "off + w = 16" and le: "length (drop w input) \<le> 16 * n"
      using Suc.prems(2) len(2) by (auto simp: w_def)
    have "hasher_ok (run_round_function True h1 16 False) 0" using h1 by (simp add: hasher_ok_def)
    from Suc.IH [OF this, of "drop w input"] le obtain h' off' where
      r: "commit_rounds n (run_round_function True h1 16 False) (drop w input) 0 = Some (h', off')" "hasher_ok h' off'"
        "n > 0 \<longrightarrow> zero_tail h' off'"
        "\<And>rest. pending h' off' rest = pending (run_round_function True h1 16 False) 0 (drop w input @ rest)"
      by auto
    have "n > 0" using le False by (cases n) auto
    moreover have "pending h' off' rest = pending h off (input @ rest)" for rest
      using pending_round [of h1 "drop w input @ rest"] False h1(1) full pend [of rest] r(4) [of rest]
      by (simp add: hasher_ok_def)
    ultimately show ?thesis unfolding copy using False r by simp
  qed
qed

lemma commit_inner_spec:
  assumes "hasher_ok h off"
  obtains h' off' where "commit_inner h input off = Some (h', off')" "hasher_ok h' off'"
    "input \<noteq> [] \<or> zero_tail h off \<longrightarrow> zero_tail h' off'" "\<And>rest. pending h' off' rest = pending h off (input @ rest)"
proof -
  define k where "k = (off + length input) div 16 + (if (off + length input) mod 16 > 0 then 1 else 0)"
  have "off + length input \<le> 16 * k" "input \<noteq> [] \<longrightarrow> k > 0"
    unfolding k_def using div_mult_mod_eq [of "off + length input" 16] by (auto simp: div_greater_zero_iff dest: dvd_imp_le)
  with commit_rounds_spec [OF assms, of input k] that show thesis
    by (auto simp: commit_inner_def Let_def word_sizes simp flip: k_def)
qed

lemma fresh_hasher [simp]:
  "hasher_ok Blake2sState_new 0" "zero_tail Blake2sState_new 0" "pending Blake2sState_new 0 rest = hash_words rest"
  "blake2s_wf h \<Longrightarrow> hasher_ok (Blake2sState_reset h) 0" "pending (Blake2sState_reset h) 0 rest = hash_words rest"
  by (simp_all add: hasher_ok_def blake2s_wf_def Blake2sState_new_def zero_tail_def pending_def hash_words_def Blake2sState_reset_def)



text \<open>Drawing: eight words at a time, the seed itself first and then its iterated hashes.\<close>

lemma draw_randomness_inner_spec:
  assumes "blake2s_wf h" "length seed = 8"
  obtains h' where "draw_randomness_inner h seed = Some (hash_words seed, h')" "blake2s_wf h'"
  using assms that
  by (simp add: draw_randomness_inner_def word_sizes memcopy_fits blake2s_wf_def Blake2sState_reset_def spec_memzero_u32_def
      read_state_for_output_def hash_words_def absorb_words_last)

fun seed_chain :: "nat \<Rightarrow> seed \<Rightarrow> u32 list" where
  "seed_chain 0 seed = []"
| "seed_chain (Suc n) seed = seed @ seed_chain n (hash_words seed)"

lemma length_hash_words [simp]: "length (hash_words ws) = 8"
  by (simp add: hash_words_def)

lemma draw_rounds_spec:
  "blake2s_wf h \<Longrightarrow> length seed = 8 \<Longrightarrow> ptr + 8 * n \<le> length dst \<Longrightarrow>
   map_option (\<lambda>(seed, h, dst). (seed, dst)) (draw_rounds n h seed dst ptr) =
     Some ((hash_words ^^ n) seed, take ptr dst @ seed_chain n (hash_words seed) @ drop (ptr + 8 * n) dst)"
proof (induction n arbitrary: h seed dst ptr)
  case (Suc n)
  obtain h' where h': "draw_randomness_inner h seed = Some (hash_words seed, h')" "blake2s_wf h'"
    using Suc.prems(1,2) by (rule draw_randomness_inner_spec)
  define dst' where "dst' = take ptr dst @ hash_words seed @ drop (ptr + 8) dst"
  have d: "take (ptr + 8) dst' = take ptr dst @ hash_words seed" "drop (ptr + 8 + 8 * n) dst' = drop (ptr + 8 + 8 * n) dst"
    "ptr + 8 + 8 * n \<le> length dst'"
    using Suc.prems by (simp_all add: dst'_def add.commute add.left_commute)
  have "draw_rounds (Suc n) h seed dst ptr = draw_rounds n h' (hash_words seed) dst' (ptr + 8)"
    using Suc.prems by (simp add: h' word_sizes memcopy_fits dst'_def)
  with Suc.IH [OF h'(2) _ d(3), of "hash_words seed"] d show ?case
    by (simp add: funpow_swap1 add.assoc)
qed simp

text \<open>C13: \<open>draw_randomness\<close> fills the destination with the seed, its hash, the hash of that and so on,
  and leaves the last of them as the new seed; nothing but the seed enters the hashes.  A
  destination shorter than one digest is written out of bounds.\<close>

theorem draw_randomness_chain:
  assumes "length seed = 8" "length dst = 8 * Suc n" "Suc n < 2 ^ 32"
  shows "draw_randomness seed dst = Some ((hash_words ^^ n) seed, seed_chain (Suc n) seed) \<and>
    (length short < 8 \<longrightarrow> draw_randomness seed short = panic)"
proof (intro conjI impI)
  have r: "unat (word_of_nat (length dst div 8) :: u32) - 1 = n"
    using assms(2,3) by (simp only: unsigned_of_nat) (simp add: take_bit_nat_eq_self)
  have wf: "blake2s_wf Blake2sState_new" by (simp add: blake2s_wf_def Blake2sState_new_def)
  have "length (seed @ drop 8 dst) = 8 + 8 * n" using assms by simp
  with draw_rounds_spec [OF wf assms(1), of 8 n "seed @ drop 8 dst"] r assms
  show "draw_randomness seed dst = Some ((hash_words ^^ n) seed, seed_chain (Suc n) seed)"
    by (auto simp: draw_randomness_def draw_randomness_using_hasher_def word_sizes memcopy_fits)
  show "draw_randomness seed short = panic" if "length short < 8"
    using that
    by (simp add: draw_randomness_def draw_randomness_using_hasher_def word_sizes spec_memcopy_u32_nonoverlapping_def)
qed

theorem draw_randomness_chain_witness:
  "draw_randomness (replicate 8 3) (replicate 16 0) = Some (hash_words (replicate 8 3), replicate 8 3 @ hash_words (replicate 8 3)) \<and>
   draw_randomness (replicate 8 3) [] = panic"
  using draw_randomness_chain [of "replicate 8 3" "replicate 16 0" 1 "[]"] by simp

section \<open>The proof of work\<close>

definition pow_digest :: "seed \<Rightarrow> u64 \<Rightarrow> u32 list" where
  "pow_digest seed nonce = hash_words (seed @ [ucast nonce, ucast (drop_bit 32 nonce)])"

lemma pow_buffer:
  "length seed = 8 \<Longrightarrow> (seed @ replicate 8 0)[8 := a, 9 := b] = seed @ [a, b] @ replicate 6 (0 :: u32)"
  by (simp add: list_update_append numeral_eq_Suc)

lemma verify_pow_spec:
  assumes "blake2s_wf h" "length seed = 8"
  shows "map_option fst (verify_pow_using_hasher h seed nonce pow_bits) =
    (if pow_bits \<le> 32 \<and> pow_digest seed nonce ! 0 \<le> shr_u32 0xffffffff pow_bits then Some (pow_digest seed nonce) else panic)"
proof -
  define buf where "buf = seed @ [ucast nonce, ucast (drop_bit 32 nonce)] @ replicate 6 (0 :: u32)"
  have upd: "take 10 ((seed @ drop 8 (bs_input_buffer h))[8 := ucast nonce, 9 := ucast (drop_bit 32 nonce)]) =
      seed @ [ucast nonce, ucast (drop_bit 32 nonce)]"
    using assms by (simp add: blake2s_wf_def list_update_append take_update_swap) (rule nth_equalityI; auto simp: nth_list_update nth_Cons split: nat.split)
  have "blake2s_F True CONFIGURED_IV buf 40 True = pow_digest seed nonce"
    using assms by (simp add: pow_digest_def hash_words_def absorb_words_last buf_def)
  with upd assms show ?thesis
    by (simp add: verify_pow_using_hasher_def word_sizes memcopy_fits blake2s_wf_def Blake2sState_reset_def spec_memzero_u32_def
        read_state_for_output_def Let_def buf_def rust_assert_def)
qed

lemma verify_pow_digest:
  "length seed = 8 \<Longrightarrow> verify_pow seed nonce pow_bits =
    (if pow_bits \<le> 32 \<and> pow_digest seed nonce ! 0 \<le> shr_u32 0xffffffff pow_bits then Some (pow_digest seed nonce) else panic)"
  using verify_pow_spec [of Blake2sState_new seed nonce pow_bits]
  by (auto simp: verify_pow_def blake2s_wf_def Blake2sState_new_def split: option.splits)

lemma shr_ones:
  assumes "b < 32"
  shows "x \<le> drop_bit b (0xffffffff :: u32) \<longleftrightarrow> drop_bit (32 - b) x = 0"
proof -
  have pow: "(2 :: nat) ^ 32 = 2 ^ (32 - b) * 2 ^ b" using assms by (simp flip: power_add)
  have "x \<le> drop_bit b (0xffffffff :: u32) \<longleftrightarrow> unat x \<le> (2 ^ 32 - 1) div 2 ^ b"
    by (simp only: word_le_nat_alt unsigned_drop_bit_eq) (simp add: drop_bit_eq_div)
  also have "\<dots> \<longleftrightarrow> unat x * 2 ^ b < 2 ^ 32"
    by (simp add: less_eq_div_iff_mult_less_eq) linarith
  also have "\<dots> \<longleftrightarrow> unat x < 2 ^ (32 - b)"
    unfolding pow by simp
  also have "\<dots> \<longleftrightarrow> drop_bit (32 - b) x = 0"
    by (simp only: word_eq_iff_unsigned [where 'a = nat] unsigned_drop_bit_eq)
      (simp add: drop_bit_eq_div div_eq_0_iff take_bit_nat_eq_self unsigned_less [where 'a = nat and 'b = 32, simplified])
  finally show ?thesis .
qed

lemma u32_ones: "x \<le> (0xffffffff :: u32)"
proof -
  have "(0xffffffff :: u32) = - 1" by simp
  then show ?thesis by (simp only: word_order.extremum)
qed

text \<open>C12: \<open>verify_pow\<close> accepts a nonce exactly when the top \<open>pow_bits\<close> bits of the first word of the
  hash of seed and nonce are zero, and then leaves that hash as the seed.  Below 32 bits this is the
  promised work.  At 32 bits, which the assertion lets through, the shift amount is reduced modulo 32
  and every nonce is accepted; above 32 bits it panics.\<close>

theorem verify_pow_checks_work:
  assumes "length seed = 8"
  shows "(pow_bits < 32 \<longrightarrow> verify_pow seed nonce pow_bits =
      (if drop_bit (32 - unat pow_bits) (pow_digest seed nonce ! 0) = 0 then Some (pow_digest seed nonce) else panic)) \<and>
    verify_pow seed nonce 32 = Some (pow_digest seed nonce) \<and>
    (pow_bits > 32 \<longrightarrow> verify_pow seed nonce pow_bits = panic)"
proof (intro conjI impI)
  assume "pow_bits < 32"
  then have "unat pow_bits < 32" "pow_bits \<le> 32" by (simp_all add: word_less_nat_alt word_le_nat_alt)
  then show "verify_pow seed nonce pow_bits =
      (if drop_bit (32 - unat pow_bits) (pow_digest seed nonce ! 0) = 0 then Some (pow_digest seed nonce) else panic)"
    by (simp add: verify_pow_digest assms shr_u32_def shr_ones)
next
  show "verify_pow seed nonce 32 = Some (pow_digest seed nonce)"
    by (simp add: u32_ones verify_pow_digest assms shr_u32_def)
next
  show "verify_pow seed nonce pow_bits = panic" if "pow_bits > 32"
    using that leD [of pow_bits 32] by (auto simp: verify_pow_digest assms)
qed

theorem verify_pow_checks_work_witness:
  "verify_pow (replicate 8 0) 7 0 = Some (pow_digest (replicate 8 0) 7) \<and>
   verify_pow (replicate 8 0) 7 32 = Some (pow_digest (replicate 8 0) 7) \<and> verify_pow (replicate 8 0) 7 33 = panic"
  using verify_pow_checks_work [of "replicate 8 0" 0 7] verify_pow_checks_work [of "replicate 8 0" 33 7] by simp

lemma pow_state_F:
  "length seed = 8 \<Longrightarrow>
   xor_halves CONFIGURED_IV (run_rounds True pow_initial_state (seed @ [ucast nonce, ucast (drop_bit 32 nonce)] @ replicate 6 0))
     = pow_digest seed nonce"
  by (simp add: pow_digest_def hash_words_def absorb_words_last blake2s_F_def pow_initial_state_def extended_state_of_def
      BLAKE2S_DIGEST_SIZE_U32_WORDS_def xor.commute)

lemma pow_word_digest: "length seed = 8 \<Longrightarrow> pow_word_to_test seed nonce = pow_digest seed nonce ! 0"
  using pow_state_F [of seed nonce, symmetric]
  by (simp add: Let_def pow_word_to_test_def pow_buffer word_sizes xor_halves_def)

lemma pow_passes_verify:
  "length seed = 8 \<Longrightarrow> pow_bits \<le> 32 \<Longrightarrow> pow_passes seed pow_bits nonce \<Longrightarrow>
   verify_pow seed nonce pow_bits = Some (pow_digest seed nonce)"
  by (simp add: verify_pow_digest pow_passes_def pow_word_digest)

lemma search_pow_serial_step:
  assumes "length seed = 8"
  shows "search_pow_serial (seed @ [a, b] @ replicate 6 0) pow_bits (Suc n) challenge =
    (if pow_passes seed pow_bits challenge then Some (pow_digest seed challenge, challenge)
     else search_pow_serial (seed @ [ucast challenge, ucast (drop_bit 32 challenge)] @ replicate 6 0) pow_bits n (challenge + 1))"
proof -
  have "(seed @ [a, b] @ replicate 6 0)[8 := x, 9 := y] = seed @ [x, y] @ replicate 6 0" for x y
    using assms by (simp add: list_update_append)
  then show ?thesis
    using pow_state_F [OF assms, of challenge]
    by (simp add: Let_def word_sizes xor_halves_def pow_passes_def pow_word_to_test_def pow_buffer [OF assms] del: append_Cons)
qed

lemma search_pow_serial_sound:
  "length seed = 8 \<Longrightarrow> search_pow_serial (seed @ [a, b] @ replicate 6 0) pow_bits n challenge = Some (s', c) \<Longrightarrow>
   s' = pow_digest seed c \<and> pow_passes seed pow_bits c"
  by (induction n arbitrary: challenge a b)
    (auto simp add: search_pow_serial_step simp del: search_pow_serial.simps(2) append_Cons append_assoc split: if_splits)

text \<open>The threads: whatever their interleaving, the atomic holds nothing or a nonce that passes.\<close>

definition pool_sound :: "seed \<Rightarrow> u32 \<Rightarrow> pow_pool \<Rightarrow> bool" where
  "pool_sound seed pow_bits p \<longleftrightarrow> pool_result p = BLAKE2S_NO_RESULT \<or> pow_passes seed pow_bits (pool_result p)"

fun tested :: "pow_worker \<Rightarrow> nat \<Rightarrow> nat \<Rightarrow> nat \<Rightarrow> bool" where
  "tested (At_i i') limit i j \<longleftrightarrow> i < i'"
| "tested (At_j i' j') limit i j \<longleftrightarrow> i < i' \<or> i = i' \<and> j < j'"
| "tested Finished limit i j \<longleftrightarrow> i < limit"

fun in_range :: "nat \<Rightarrow> pow_worker \<Rightarrow> bool" where
  "in_range limit (At_j i j) \<longleftrightarrow> i < limit"
| "in_range limit _ \<longleftrightarrow> True"

definition none_found :: "seed \<Rightarrow> u32 \<Rightarrow> nat \<Rightarrow> nat \<Rightarrow> pow_worker \<Rightarrow> bool" where
  "none_found seed pow_bits n w v \<longleftrightarrow> (\<forall>i j. j < BLAKE2S_ROUNDS_PER_INVOCAITON \<longrightarrow> tested v (pow_iterations n) i j \<longrightarrow>
     \<not> pow_passes seed pow_bits (pow_challenge n w i j))"

definition pool_inv :: "seed \<Rightarrow> u32 \<Rightarrow> pow_pool \<Rightarrow> bool" where
  "pool_inv seed pow_bits p \<longleftrightarrow> pool_sound seed pow_bits p \<and>
    list_all (in_range (pow_iterations (length (pool_workers p)))) (pool_workers p) \<and>
    (pool_result p = BLAKE2S_NO_RESULT \<longrightarrow>
      (\<forall>w < length (pool_workers p). none_found seed pow_bits (length (pool_workers p)) w (pool_workers p ! w)))"

lemma pool_step_length: "pow_pool_step seed pow_bits p p' \<Longrightarrow> length (pool_workers p') = length (pool_workers p)"
  by (induction rule: pow_pool_step.induct) auto

lemma pow_challenge_result:
  assumes "w < n" "i < pow_iterations n" "j < BLAKE2S_ROUNDS_PER_INVOCAITON"
  shows "pow_challenge n w i j \<noteq> BLAKE2S_NO_RESULT"
proof
  define c where "c = (w + i * n) * 2 ^ 16 + j"
  assume "pow_challenge n w i j = BLAKE2S_NO_RESULT"
  then have eq: "(of_nat c :: u64) = - 1"
    by (simp add: pow_challenge_def c_def BLAKE2S_NO_RESULT_def BLAKE2S_ROUNDS_PER_INVOCAITON_def)
  have "(i + 1) * 2 ^ 16 \<le> (2 ^ 64 - 2) div n"
    using assms(2) by (simp add: pow_iterations_def BLAKE2S_NO_RESULT_def BLAKE2S_ROUNDS_PER_INVOCAITON_def
        less_eq_div_iff_mult_less_eq less_iff_succ_less_eq)
  then have "(i + 1) * 2 ^ 16 * n \<le> 2 ^ 64 - 2"
    using assms(1) by (simp add: less_eq_div_iff_mult_less_eq)
  moreover have "c < (i + 1) * 2 ^ 16 * n"
  proof -
    have "c < (w + i * n) * 2 ^ 16 + 2 ^ 16" using assms(3) by (simp add: c_def BLAKE2S_ROUNDS_PER_INVOCAITON_def)
    also have "\<dots> = (w + 1 + i * n) * 2 ^ 16" by (simp add: algebra_simps)
    also have "\<dots> \<le> (n + i * n) * 2 ^ 16" using assms(1) by simp
    finally show ?thesis by (simp add: algebra_simps)
  qed
  ultimately have "c < 2 ^ 64 - 1" by simp
  then have "unat (of_nat c :: u64) = c" by (simp only: unsigned_of_nat) (simp add: take_bit_nat_eq_self)
  moreover have "unat (- 1 :: u64) = 2 ^ 64 - 1" by (simp add: unsigned_minus_1_eq_mask mask_eq_exp_minus_1)
  ultimately show False using eq \<open>c < 2 ^ 64 - 1\<close> by simp
qed

lemma list_all_update: "list_all P xs \<Longrightarrow> P v \<Longrightarrow> list_all P (xs[w := v])"
  using set_update_subset_insert [of xs w v] by (auto simp: list_all_iff)

lemma pool_update_inv:
  assumes "pool_inv seed pow_bits p" "w < length (pool_workers p)" "in_range (pow_iterations (length (pool_workers p))) v"
    "pool_result p = BLAKE2S_NO_RESULT \<Longrightarrow> none_found seed pow_bits (length (pool_workers p)) w v"
  shows "pool_inv seed pow_bits (p\<lparr>pool_workers := (pool_workers p)[w := v]\<rparr>)"
  using assms by (auto simp: pool_inv_def pool_sound_def nth_list_update intro: list_all_update)

lemma pool_inv_at:
  assumes "pool_inv seed pow_bits p" "w < length (pool_workers p)"
  shows "in_range (pow_iterations (length (pool_workers p))) (pool_workers p ! w)"
    and "pool_result p = BLAKE2S_NO_RESULT \<Longrightarrow>
      none_found seed pow_bits (length (pool_workers p)) w (pool_workers p ! w)"
  using assms by (auto simp: pool_inv_def list_all_length)

lemma pool_step_inv: "pow_pool_step seed pow_bits p p' \<Longrightarrow> pool_inv seed pow_bits p \<Longrightarrow> pool_inv seed pow_bits p'"
proof (induction rule: pow_pool_step.induct)
  case (pool_exhausted w p i)
  then show ?case using pool_inv_at [of seed pow_bits p w] by (intro pool_update_inv) (auto simp: none_found_def)
next
  case (pool_enter w p i current_flag)
  then show ?case using pool_inv_at [of seed pow_bits p w] by (intro pool_update_inv) (auto simp: none_found_def)
next
  case (pool_leave w p i current_flag)
  then show ?case by (intro pool_update_inv) auto
next
  case (pool_next_i w p i j)
  then show ?case using pool_inv_at [of seed pow_bits p w]
    by (intro pool_update_inv) (auto simp: none_found_def less_Suc_eq)
next
  case (pool_next_j w p i j)
  then show ?case using pool_inv_at [of seed pow_bits p w]
    by (intro pool_update_inv) (auto simp: none_found_def less_Suc_eq)
next
  case (pool_found w p i j)
  let ?c = "pow_challenge (length (pool_workers p)) w i j"
  have "i < pow_iterations (length (pool_workers p))" using pool_inv_at(1) [OF pool_found.prems, of w] pool_found by simp
  then have "?c \<noteq> BLAKE2S_NO_RESULT" using pool_found by (simp add: pow_challenge_result)
  then show ?case using pool_found
    by (auto simp: pool_inv_def pool_sound_def compare_exchange_def intro: list_all_update)
qed

lemma pool_start_inv: "pool_inv seed pow_bits (pow_pool_start n)"
  by (simp add: pool_inv_def pool_sound_def pow_pool_start_def none_found_def list_all_length)

lemma pool_reachable_inv:
  "(pow_pool_step seed pow_bits)\<^sup>*\<^sup>* (pow_pool_start n) p \<Longrightarrow> pool_inv seed pow_bits p \<and> length (pool_workers p) = n"
  by (induction rule: rtranclp_induct)
    (auto simp: pool_start_inv pool_step_length intro: pool_step_inv, simp add: pow_pool_start_def)

text \<open>C11: the search for a nonce is sound under every interleaving of the threads.  Whatever state
  the threads reach, a pair that \<open>search_pow\<close> returns passes \<open>verify_pow\<close> with the same new seed; a value
  found by a thread is always accepted; and if all threads finish without a value then none of the
  challenges they cover passes.\<close>

theorem search_pow_sound:
  assumes "length seed = 8" "pow_bits \<le> 32" "(pow_pool_step seed pow_bits)\<^sup>*\<^sup>* (pow_pool_start n) p"
  shows "(\<forall>s' c. search_pow (pool_result p) seed pow_bits = Some (s', c) \<longrightarrow> verify_pow seed c pow_bits = Some s') \<and>
    (pool_result p \<noteq> BLAKE2S_NO_RESULT \<longrightarrow> search_pow (pool_result p) seed pow_bits \<noteq> panic) \<and>
    (pool_result p = BLAKE2S_NO_RESULT \<and> set (pool_workers p) \<subseteq> {Finished} \<longrightarrow>
      (\<forall>w i j. w < n \<and> i < pow_iterations n \<and> j < BLAKE2S_ROUNDS_PER_INVOCAITON \<longrightarrow>
        \<not> pow_passes seed pow_bits (pow_challenge n w i j)))"
proof -
  have inv: "pool_inv seed pow_bits p" "length (pool_workers p) = n" using pool_reachable_inv [OF assms(3)] by simp_all
  have buf: "seed @ replicate 8 0 = seed @ [0, 0] @ replicate 6 (0 :: u32)" by (simp add: numeral_eq_Suc)
  have serial: "verify_pow seed c pow_bits = Some s'"
    if "search_pow_serial (seed @ replicate 8 0) pow_bits k 0 = Some (s', c)" for k s' c
    using search_pow_serial_sound [OF assms(1), of 0 0 pow_bits k 0 s' c] that assms
    by (simp only: buf) (auto intro: pow_passes_verify)
  have found: "pool_result p = BLAKE2S_NO_RESULT \<or> (\<exists>s. verify_pow seed (pool_result p) pow_bits = Some s)"
    using inv(1) assms by (auto simp: pool_inv_def pool_sound_def pow_passes_verify)
  have "\<not> pow_passes seed pow_bits (pow_challenge n w i j)"
    if "pool_result p = BLAKE2S_NO_RESULT" "set (pool_workers p) \<subseteq> {Finished}"
      "w < n" "i < pow_iterations n" "j < BLAKE2S_ROUNDS_PER_INVOCAITON" for w i j
  proof -
    have "pool_workers p ! w = Finished" using that(2,3) inv(2) nth_mem [of w "pool_workers p"] by blast
    then show ?thesis using pool_inv_at(2) [OF inv(1), of w] inv(2) that by (simp add: none_found_def)
  qed
  with serial found show ?thesis
    using assms(2) by (auto simp: search_pow_def Let_def split: option.splits if_splits bind_splits)
qed

theorem search_pow_sound_witness:
  "pow_passes (replicate 8 0) 0 (pow_challenge 1 0 0 0) \<and>
   search_pow (pow_challenge 1 0 0 0) (replicate 8 0) 0 \<noteq> panic"
proof -
  let ?seed = "replicate 8 0 :: seed" and ?c = "pow_challenge 1 0 0 0"
  let ?p1 = "\<lparr>pool_result = BLAKE2S_NO_RESULT, pool_workers = [At_j 0 0]\<rparr>"
  let ?p2 = "\<lparr>pool_result = ?c, pool_workers = [At_i 1]\<rparr>"
  have pass: "pow_passes ?seed 0 ?c"
    by (simp add: pow_passes_def shr_u32_def u32_ones)
  have "pow_pool_step ?seed 0 (pow_pool_start 1) ?p1"
    using pow_pool_step.pool_enter [of 0 "pow_pool_start 1" 0 BLAKE2S_NO_RESULT ?seed 0]
    by (simp add: pow_pool_start_def pow_iterations_def BLAKE2S_NO_RESULT_def BLAKE2S_ROUNDS_PER_INVOCAITON_def)
  moreover have "pow_pool_step ?seed 0 ?p1 ?p2"
    using pow_pool_step.pool_found [of 0 ?p1 0 0 ?seed 0] pass
    by (simp add: BLAKE2S_ROUNDS_PER_INVOCAITON_def compare_exchange_def)
  ultimately have "(pow_pool_step ?seed 0)\<^sup>*\<^sup>* (pow_pool_start 1) ?p2" by (rule converse_rtranclp_into_rtranclp [OF _ r_into_rtranclp])
  then have "pool_result ?p2 \<noteq> BLAKE2S_NO_RESULT \<longrightarrow> search_pow (pool_result ?p2) ?seed 0 \<noteq> panic"
    using search_pow_sound [of ?seed 0 1 ?p2] by simp
  moreover have "?c \<noteq> BLAKE2S_NO_RESULT" by (simp add: pow_challenge_def BLAKE2S_NO_RESULT_def)
  ultimately show ?thesis using pass by simp
qed

text \<open>Every step of a worker brings it closer to the end of its loops.\<close>

fun worker_rank :: "nat \<Rightarrow> pow_worker \<Rightarrow> nat" where
  "worker_rank limit (At_i i) = (limit - i) * (BLAKE2S_ROUNDS_PER_INVOCAITON + 2) + 1"
| "worker_rank limit (At_j i j) =
    (limit - Suc i) * (BLAKE2S_ROUNDS_PER_INVOCAITON + 2) + (BLAKE2S_ROUNDS_PER_INVOCAITON - j) + 2"
| "worker_rank limit Finished = 0"

definition pool_rank :: "pow_pool \<Rightarrow> nat" where
  "pool_rank p = sum_list (map (worker_rank (pow_iterations (length (pool_workers p)))) (pool_workers p))"

lemma sum_list_update_less:
  "w < length xs \<Longrightarrow> f v < f (xs ! w) \<Longrightarrow> sum_list (map f (xs[w := v])) < (sum_list (map f xs) :: nat)"
proof (induction xs arbitrary: w)
  case (Cons x xs)
  then show ?case by (cases w) auto
qed simp

lemma worker_rank_enter: "i < limit \<Longrightarrow> worker_rank limit (At_j i 0) < worker_rank limit (At_i i)"
proof -
  assume "i < limit"
  then have "limit - i = Suc (limit - Suc i)" by simp
  then show ?thesis by (simp only: worker_rank.simps) simp
qed

lemma pool_step_rank: "pow_pool_step seed pow_bits p p' \<Longrightarrow> pool_rank p' < pool_rank p"
  by (induction rule: pow_pool_step.induct)
    (auto simp: pool_rank_def simp del: worker_rank.simps(1,2) intro!: sum_list_update_less worker_rank_enter, simp_all)


section \<open>The buffering transcript\<close>

definition bt_ok :: "buffering_transcript \<Rightarrow> bool" where
  "bt_ok b \<longleftrightarrow> hasher_ok (bt_state b) (bt_buffer_offset b)"

definition bt_pending :: "buffering_transcript \<Rightarrow> u32 list \<Rightarrow> u32 list" where
  "bt_pending b rest = pending (bt_state b) (bt_buffer_offset b) rest"

definition next_offset :: "nat \<Rightarrow> nat \<Rightarrow> nat" where
  "next_offset off n = (if n = 0 then off else if (off + n) mod 16 = 0 then 16 else (off + n) mod 16)"

lemma absorb_spec:
  "bt_ok b \<Longrightarrow> \<exists>b'. buffering_absorb b values = Some b' \<and> bt_ok b' \<and>
   bt_buffer_offset b' = next_offset (bt_buffer_offset b) (length values) \<and>
   (\<forall>rest. bt_pending b' rest = bt_pending b (values @ rest))"
proof (induction b "values" rule: buffering_absorb.induct)
  case (1 b vs)
  define w where "w = min (length vs) (16 - bt_buffer_offset b)"
  define buf where "buf = take (bt_buffer_offset b) (bs_input_buffer (bt_state b)) @ take w vs @
    drop (bt_buffer_offset b + w) (bs_input_buffer (bt_state b))"
  define b1 where "b1 = b\<lparr>bt_state := (bt_state b)\<lparr>bs_input_buffer := buf\<rparr>, bt_buffer_offset := bt_buffer_offset b + w\<rparr>"
  have len: "length (bs_input_buffer (bt_state b)) = 16" "bt_buffer_offset b \<le> 16" "w \<le> length vs" "bt_buffer_offset b + w \<le> 16"
    using 1(2) by (auto simp: bt_ok_def hasher_ok_def blake2s_wf_def w_def)
  have b1: "bt_ok b1" using 1(2) len by (simp add: bt_ok_def hasher_ok_def blake2s_wf_def b1_def buf_def)
  have pend: "bt_pending b1 (drop w vs @ rest) = bt_pending b (vs @ rest)" for rest
    using len by (simp add: bt_pending_def pending_def b1_def buf_def) (simp flip: append_assoc)
  have eq: "buffering_absorb b vs = (if vs = [] then Some b
      else if drop w vs \<noteq> [] then buffering_absorb (run_absorb b1) (drop w vs) else Some b1)"
    by (subst buffering_absorb.simps) (use len in \<open>simp add: Let_def word_sizes memcopy_fits b1_def buf_def flip: w_def\<close>)
  show ?case
  proof (cases "drop w vs = []")
    case True
    then have "bt_buffer_offset b1 = next_offset (bt_buffer_offset b) (length vs)" if "vs \<noteq> []"
      using len that by (cases "bt_buffer_offset b + w = 16") (auto simp: next_offset_def b1_def w_def)
    with True show ?thesis using 1(2) b1 pend [where rest = "_"] by (auto simp: eq next_offset_def)
  next
    case False
    then have full: "bt_buffer_offset b + w = 16" using len by (auto simp: w_def)
    have ok: "bt_ok (run_absorb b1)" using b1 by (simp add: bt_ok_def hasher_ok_def run_absorb_def)
    have "bt_pending (run_absorb b1) (drop w vs @ rest) = bt_pending b1 (drop w vs @ rest)" for rest
      using pending_round [of "bt_state b1" "drop w vs @ rest"] b1 False full
      by (simp add: bt_pending_def run_absorb_def word_sizes bt_ok_def hasher_ok_def b1_def)
    moreover have "\<exists>b'. buffering_absorb (run_absorb b1) (drop w vs) = Some b' \<and> bt_ok b' \<and>
        bt_buffer_offset b' = next_offset (bt_buffer_offset (run_absorb b1)) (length (drop w vs)) \<and>
        (\<forall>rest. bt_pending b' rest = bt_pending (run_absorb b1) (drop w vs @ rest))"
      by (rule 1(1) [of w buf "drop w vs" b1, OF _ _ _ _ _ _ ok]) (use False len in \<open>auto simp: word_sizes memcopy_fits w_def b1_def buf_def\<close>)
    moreover have "next_offset (bt_buffer_offset (run_absorb b1)) (length (drop w vs)) = next_offset (bt_buffer_offset b) (length vs)"
    proof -
      define k where "k = length (drop w vs)"
      have "bt_buffer_offset b + length vs = k + 16" "k > 0" "vs \<noteq> []" using full len False by (auto simp: k_def)
      then show ?thesis unfolding k_def [symmetric] by (simp add: next_offset_def run_absorb_def)
    qed
    ultimately show ?thesis using False pend by (auto simp: eq)
  qed
qed

lemma finalize_pending:
  assumes "bt_ok b"
  shows "finalize b = bt_pending b []"
proof -
  define h where "h = (bt_state b)\<lparr>bs_input_buffer := spec_memzero_u32 (bs_input_buffer (bt_state b)) (bt_buffer_offset b)\<rparr>"
  have "hasher_ok h (bt_buffer_offset b)" "zero_tail h (bt_buffer_offset b)"
    using assms by (simp_all add: bt_ok_def hasher_ok_def blake2s_wf_def h_def spec_memzero_u32_def zero_tail_def)
  from pending_flush [OF this] assms show ?thesis
    by (simp add: finalize_def bt_pending_def pending_def Let_def transcript_flush_def h_def spec_memzero_u32_def
        bt_ok_def hasher_ok_def blake2s_wf_def)
qed

lemma finalize_reset_spec:
  "bt_ok b \<Longrightarrow> fst (finalize_reset b) = finalize b \<and> bt_ok (snd (finalize_reset b)) \<and>
   bt_pending (snd (finalize_reset b)) rest = hash_words rest"
  by (simp add: finalize_reset_def finalize_def Let_def bt_ok_def bt_pending_def hasher_ok_def blake2s_wf_def
      spec_memzero_u32_def Blake2sState_reset_def pending_def hash_words_def)

lemma pad_absorbs_zeros:
  assumes "bt_ok b"
  shows "buffering_absorb b (replicate (16 - bt_buffer_offset b) 0) = Some (transcript_pad b)"
  using assms
  by (subst buffering_absorb.simps)
    (auto simp: Let_def word_sizes memcopy_fits transcript_pad_def spec_memzero_u32_def bt_ok_def hasher_ok_def blake2s_wf_def)

text \<open>A use of a transcript: chunks absorbed and paddings, in any order.\<close>

datatype transcript_op = Absorb "u32 list" | Pad

fun run_transcript :: "transcript_op list \<Rightarrow> buffering_transcript \<Rightarrow> buffering_transcript option" where
  "run_transcript [] b = Some b"
| "run_transcript (Absorb vs # ops) b = do { b \<leftarrow> buffering_absorb b vs; run_transcript ops b }"
| "run_transcript (Pad # ops) b = run_transcript ops (transcript_pad b)"

text \<open>The words a use stands for, from a buffer that holds \<open>off\<close> words.\<close>

fun transcript_words :: "transcript_op list \<Rightarrow> nat \<Rightarrow> u32 list" where
  "transcript_words [] off = []"
| "transcript_words (Absorb vs # ops) off = vs @ transcript_words ops (next_offset off (length vs))"
| "transcript_words (Pad # ops) off = replicate (16 - off) 0 @ transcript_words ops 16"

lemma transcript_pad_spec:
  assumes "bt_ok b"
  shows "bt_ok (transcript_pad b) \<and> bt_buffer_offset (transcript_pad b) = 16 \<and>
    bt_pending (transcript_pad b) rest = bt_pending b (replicate (16 - bt_buffer_offset b) 0 @ rest)"
  using absorb_spec [OF assms, of "replicate (16 - bt_buffer_offset b) 0"] pad_absorbs_zeros [OF assms]
  by (auto simp: transcript_pad_def word_sizes)

lemma run_transcript_spec:
  "bt_ok b \<Longrightarrow> \<exists>b'. run_transcript ops b = Some b' \<and> bt_ok b' \<and>
     (\<forall>rest. bt_pending b' rest = bt_pending b (transcript_words ops (bt_buffer_offset b) @ rest))"
proof (induction ops arbitrary: b)
  case (Cons op ops)
  show ?case
  proof (cases op)
    case (Absorb vs)
    obtain b1 where b1: "buffering_absorb b vs = Some b1" "bt_ok b1" "bt_buffer_offset b1 = next_offset (bt_buffer_offset b) (length vs)"
      "\<And>rest. bt_pending b1 rest = bt_pending b (vs @ rest)"
      using absorb_spec [OF Cons.prems, of vs] by auto
    then show ?thesis using Cons.IH [OF b1(2)] Absorb by simp
  next
    case Pad
    then show ?thesis using Cons.IH [of "transcript_pad b"] transcript_pad_spec [OF Cons.prems] by simp
  qed
qed simp

text \<open>C10: the buffering transcript computes the hash of everything absorbed.  However the words are cut
  into chunks and wherever it is padded, a transcript that is new or was finalised with a reset
  never fails and ends in the hash of all words, a padding counting as the zeros that fill the
  block; \<open>finalize\<close> and \<open>finalize_reset\<close> return the same seed.\<close>

theorem buffering_transcript_hashes:
  assumes "bt_ok old"
  shows "\<forall>start \<in> {BufferingTranscript_new, snd (finalize_reset old)}. \<exists>b. run_transcript ops start = Some b \<and>
    finalize b = hash_words (transcript_words ops 0) \<and> fst (finalize_reset b) = hash_words (transcript_words ops 0)"
proof
  fix start assume "start \<in> {BufferingTranscript_new, snd (finalize_reset old)}"
  then have "bt_ok start \<and> bt_buffer_offset start = 0 \<and> (\<forall>rest. bt_pending start rest = hash_words rest)"
    using finalize_reset_spec [OF assms]
    by (auto simp: BufferingTranscript_new_def bt_ok_def bt_pending_def finalize_reset_def Let_def)
  then show "\<exists>b. run_transcript ops start = Some b \<and>
    finalize b = hash_words (transcript_words ops 0) \<and> fst (finalize_reset b) = hash_words (transcript_words ops 0)"
    using run_transcript_spec [of start ops] finalize_pending finalize_reset_spec by fastforce
qed

theorem buffering_transcript_hashes_witness:
  "\<exists>b. run_transcript [Absorb [1, 2], Pad, Absorb (replicate 20 3)] (snd (finalize_reset BufferingTranscript_new)) = Some b \<and>
     finalize b = hash_words ([1, 2] @ replicate 14 0 @ replicate 20 3)"
proof -
  have "bt_ok BufferingTranscript_new" by (simp add: bt_ok_def BufferingTranscript_new_def)
  moreover have "transcript_words [Absorb [1, 2], Pad, Absorb (replicate 20 3)] 0 = [1, 2] @ replicate 14 0 @ replicate 20 3"
    by (simp add: next_offset_def)
  ultimately show ?thesis
    using buffering_transcript_hashes [of BufferingTranscript_new "[Absorb [1, 2], Pad, Absorb (replicate 20 3)]"] by auto
qed

end
