(* ===== verification/Worker.thy ===== *)
theory Worker
  imports Prelude
begin

text \<open>
  The split of a piece of work among the threads of the pool (\<open>worker/src/lib.rs\<close>): the geometry and the
  iterators over the chunks of a slice.  Sizes are natural numbers; the one product that can exceed a
  machine word is taken modulo \<open>2 ^ 64\<close>.  The thread pool itself is a library.
\<close>

section \<open>Geometry\<close>

record worker_geometry =
  num_chunks :: nat
  ordinary_chunk_size :: nat
  remainder :: nat

definition get_chunk_size :: "worker_geometry \<Rightarrow> nat \<Rightarrow> nat option" where
  "get_chunk_size self chunk_idx = do {
     rust_assert (chunk_idx < num_chunks self);
     Some (if remainder self = 0 then ordinary_chunk_size self
           else if chunk_idx = num_chunks self - 1 then remainder self
           else ordinary_chunk_size self) }"

definition geometry_len :: "worker_geometry \<Rightarrow> nat" where
  "geometry_len self = num_chunks self"

definition get_chunk_start_pos :: "worker_geometry \<Rightarrow> nat \<Rightarrow> nat option" where
  "get_chunk_start_pos self chunk_idx = do {
     rust_assert (chunk_idx < num_chunks self);
     Some (ordinary_chunk_size self * chunk_idx) }"

text \<open>The two methods of \<open>usize\<close>; \<open>next_power_of_two\<close> of a number above \<open>2 ^ 63\<close> wraps to 0.\<close>

definition is_power_of_two_usize :: "nat \<Rightarrow> bool" where
  "is_power_of_two_usize n = (\<exists>k \<in> set [0..<64]. n = 2 ^ k)"

definition next_power_of_two :: "nat \<Rightarrow> nat" where
  "next_power_of_two n = (case find (\<lambda>k. n \<le> 2 ^ k) [0..<64] of Some k \<Rightarrow> 2 ^ k | None \<Rightarrow> 0)"

definition get_geometry_for_num_cores :: "nat \<Rightarrow> nat \<Rightarrow> worker_geometry option" where
  "get_geometry_for_num_cores num_cores work_size = do {
     let num_chunks = min num_cores work_size;
     rust_assert (num_chunks \<noteq> 0);
     let ordinary_chunk_size = work_size div num_chunks;
     let remainder = work_size mod num_chunks;
     result \<leftarrow>
       (if remainder = 0 then
          Some \<lparr>num_chunks = num_chunks, ordinary_chunk_size = ordinary_chunk_size, remainder = remainder\<rparr>
        else do {
          rust_assert (num_chunks > 1);
          let ordinary_chunk_size =
            (if is_power_of_two_usize ordinary_chunk_size = False \<and>
                next_power_of_two ordinary_chunk_size - ordinary_chunk_size < 32
             then next_power_of_two ordinary_chunk_size else ordinary_chunk_size);
          let main_part = ((num_chunks - 1) * ordinary_chunk_size) mod 2 ^ 64;
          if main_part < work_size then
            Some \<lparr>num_chunks = num_chunks, ordinary_chunk_size = ordinary_chunk_size, remainder = work_size - main_part\<rparr>
          else if work_size mod (num_chunks - 1) \<noteq> 0 then do {
            let ordinary_chunk_size = work_size div (num_chunks - 1);
            let main_part = (num_chunks - 1) * ordinary_chunk_size;
            rust_assert (main_part < work_size);
            Some \<lparr>num_chunks = num_chunks, ordinary_chunk_size = ordinary_chunk_size, remainder = work_size - main_part\<rparr> }
          else do {
            let ordinary_chunk_size = work_size div num_chunks;
            let main_part = (num_chunks - 1) * ordinary_chunk_size;
            rust_assert (main_part < work_size);
            Some \<lparr>num_chunks = num_chunks, ordinary_chunk_size = ordinary_chunk_size, remainder = work_size - main_part\<rparr> } });
     if worker_geometry.remainder result > worker_geometry.ordinary_chunk_size result \<and>
        worker_geometry.remainder result > num_cores - 1
     then do {
       let result = result\<lparr>remainder := worker_geometry.remainder result - (num_cores - 1),
                           ordinary_chunk_size := worker_geometry.ordinary_chunk_size result + 1\<rparr>;
       rust_assert (worker_geometry.ordinary_chunk_size result > worker_geometry.remainder result);
       Some result }
     else Some result }"

section \<open>Iterators over chunks\<close>

record 'a geometry_chunks =
  gc_v :: "'a list"
  gc_geometry :: worker_geometry
  gc_scale :: nat
  gc_cur_idx :: nat

definition GeometryAwareChunks_new :: "'a list \<Rightarrow> worker_geometry \<Rightarrow> nat \<Rightarrow> 'a geometry_chunks" where
  "GeometryAwareChunks_new items geometry scale =
    \<lparr>gc_v = items, gc_geometry = geometry, gc_scale = scale, gc_cur_idx = 0\<rparr>"

definition get_cur_chunk_size :: "'a geometry_chunks \<Rightarrow> nat option" where
  "get_cur_chunk_size self = do { n \<leftarrow> get_chunk_size (gc_geometry self) (gc_cur_idx self); Some (n * gc_scale self) }"

definition split_at :: "'a list \<Rightarrow> nat \<Rightarrow> ('a list \<times> 'a list) option" where
  "split_at v mid = (if mid \<le> length v then Some (take mid v, drop mid v) else panic)"

text \<open>One call of \<open>next\<close>: the item, if there is one, and the iterator after the call.\<close>

definition GeometryAwareChunks_next :: "'a geometry_chunks \<Rightarrow> ('a list option \<times> 'a geometry_chunks) option" where
  "GeometryAwareChunks_next self =
    (if gc_v self = [] then Some (None, self)
     else do {
       chunksz \<leftarrow> get_cur_chunk_size self;
       (fst, snd) \<leftarrow> split_at (gc_v self) chunksz;
       Some (Some fst, self\<lparr>gc_v := snd, gc_cur_idx := gc_cur_idx self + 1\<rparr>) })"

text \<open>The mutable iterator advances its index before it splits.\<close>

definition GeometryAwareChunksMut_next :: "'a geometry_chunks \<Rightarrow> ('a list option \<times> 'a geometry_chunks) option" where
  "GeometryAwareChunksMut_next self =
    (if gc_v self = [] then Some (None, self)
     else do {
       sz \<leftarrow> get_cur_chunk_size self;
       let self = self\<lparr>gc_cur_idx := gc_cur_idx self + 1\<rparr>;
       (head, tail) \<leftarrow> split_at (gc_v self) sz;
       Some (Some head, self\<lparr>gc_v := tail\<rparr>) })"

record 'a geometry_windows = "'a geometry_chunks" +
  gc_first_elem :: 'a

definition GeometryAwareChunksCyclicWindow_new ::
  "'a list \<Rightarrow> worker_geometry \<Rightarrow> nat \<Rightarrow> 'a geometry_windows option" where
  "GeometryAwareChunksCyclicWindow_new items geometry scale =
    (case items of
       [] \<Rightarrow> panic
     | first_elem # _ \<Rightarrow> Some \<lparr>gc_v = items, gc_geometry = geometry, gc_scale = scale, gc_cur_idx = 0,
                             gc_first_elem = first_elem\<rparr>)"

definition GeometryAwareChunksCyclicWindow_next ::
  "'a geometry_windows \<Rightarrow> (('a list \<times> 'a) option \<times> 'a geometry_windows) option" where
  "GeometryAwareChunksCyclicWindow_next self =
    (if gc_v self = [] then Some (None, self)
     else do {
       chunksz \<leftarrow> get_cur_chunk_size (geometry_chunks.truncate self);
       (fst, snd) \<leftarrow> split_at (gc_v self) chunksz;
       let self = self\<lparr>gc_v := snd, gc_cur_idx := gc_cur_idx self + 1\<rparr>;
       case gc_v self of
         [] \<Rightarrow> Some (Some (fst, gc_first_elem self), self)
       | x # _ \<Rightarrow> Some (Some (fst, x), self) })"

definition GeometryAwareChunksRev_new :: "'a list \<Rightarrow> worker_geometry \<Rightarrow> nat \<Rightarrow> 'a geometry_chunks" where
  "GeometryAwareChunksRev_new items geometry scale =
    \<lparr>gc_v = items, gc_geometry = geometry, gc_scale = scale,
     gc_cur_idx = (if length items = 0 then 2 ^ 64 - 1 else length items - 1)\<rparr>"

definition GeometryAwareChunksRev_next :: "'a geometry_chunks \<Rightarrow> ('a list option \<times> 'a geometry_chunks) option" where
  "GeometryAwareChunksRev_next self =
    (if gc_v self = [] then Some (None, self)
     else do {
       chunksz \<leftarrow> get_cur_chunk_size self;
       rust_assert (chunksz \<le> length (gc_v self));
       (fst, snd) \<leftarrow> split_at (gc_v self) (length (gc_v self) - chunksz);
       Some (Some snd, self\<lparr>gc_v := fst, gc_cur_idx := gc_cur_idx self + 1\<rparr>) })"

text \<open>
  A \<open>for\<close> loop over an iterator collects its items.  The index of the iterators grows with every item and
  \<open>get_chunk_size\<close> panics beyond the last chunk, so that \<open>num_chunks + 1\<close> calls reach the end or the panic.
\<close>

fun collect_items :: "('it \<Rightarrow> ('item option \<times> 'it) option) \<Rightarrow> nat \<Rightarrow> 'it \<Rightarrow> 'item list option" where
  "collect_items next_item 0 it = panic"
| "collect_items next_item (Suc n) it = do {
     (item, it) \<leftarrow> next_item it;
     case item of
       None \<Rightarrow> Some []
     | Some x \<Rightarrow> do { xs \<leftarrow> collect_items next_item n it; Some (x # xs) } }"

section \<open>The chunks cover the work\<close>

lemma next_power_of_two_bounds:
  assumes "0 < n" "n \<le> 2 ^ 63"
  shows "n \<le> next_power_of_two n" "next_power_of_two n \<le> 2 * n"
proof -
  have "\<exists>k < 64. find (\<lambda>k. n \<le> 2 ^ k) [0..<64] = Some k \<and> n \<le> 2 ^ k \<and> (\<forall>j < k. \<not> n \<le> 2 ^ j)"
  proof (cases "find (\<lambda>k. n \<le> 2 ^ k) [0..<64]")
    case None
    then have "\<forall>k < 64. \<not> n \<le> 2 ^ k" by (auto simp: find_None_iff)
    then have "\<not> n \<le> 2 ^ 63" by (rule allE [of _ 63]) simp
    with assms show ?thesis by simp
  next
    case (Some k)
    then obtain i where "i < 64" "n \<le> 2 ^ i" "k = i" "\<forall>j<i. \<not> n \<le> 2 ^ j" by (auto simp: find_Some_iff)
    with Some show ?thesis by auto
  qed
  then obtain k where k: "find (\<lambda>k. n \<le> 2 ^ k) [0..<64] = Some k" "n \<le> 2 ^ k" "\<forall>j < k. \<not> n \<le> 2 ^ j" by auto
  then show "n \<le> next_power_of_two n" by (simp add: next_power_of_two_def)
  show "next_power_of_two n \<le> 2 * n"
  proof (cases k)
    case 0
    then show ?thesis using k assms by (simp add: next_power_of_two_def)
  next
    case (Suc j)
    then have "2 ^ j < n" using k(3) by (auto simp: not_le)
    then show ?thesis using k Suc by (simp add: next_power_of_two_def)
  qed
qed

text \<open>A geometry of \<open>n\<close> chunks for \<open>w\<close> units: all but the last chunk are ordinary, none is empty.\<close>

definition covers :: "worker_geometry \<Rightarrow> nat \<Rightarrow> nat \<Rightarrow> bool" where
  "covers g n w \<longleftrightarrow> num_chunks g = n \<and> 0 < n \<and> 0 < ordinary_chunk_size g \<and>
    (n - 1) * ordinary_chunk_size g + (if remainder g = 0 then ordinary_chunk_size g else remainder g) = w"

lemma covers_last:
  "0 < n \<Longrightarrow> 0 < q \<Longrightarrow> (n - 1) * q < w \<Longrightarrow>
   covers \<lparr>num_chunks = n, ordinary_chunk_size = q, remainder = w - (n - 1) * q\<rparr> n w"
  by (simp add: covers_def)

lemma covers_enlarge:
  assumes "covers g n w" "n - 1 < remainder g"
  shows "covers (g\<lparr>remainder := remainder g - (n - 1), ordinary_chunk_size := ordinary_chunk_size g + 1\<rparr>) n w"
  using assms by (cases n) (auto simp: covers_def)

text \<open>The balance that the last assertion relies on.\<close>

lemma last_chunk_bound:
  fixes w n q :: nat
  assumes "0 < n" "w div n \<le> q"
  shows "w - (n - 1) * q < q + n"
proof -
  have "(n - 1) * (w div n) \<le> (n - 1) * q" using assms(2) by simp
  moreover have "w < (n - 1) * (w div n) + w div n + n"
  proof -
    define d r where "d = w div n" and "r = w mod n"
    have "w = d * n + r" "r < n" using assms(1) by (simp_all add: d_def r_def)
    then show ?thesis unfolding d_def [symmetric] using assms(1) by (cases n) (simp_all add: algebra_simps)
  qed
  ultimately show ?thesis using assms(2) by linarith
qed

lemma geometry_exists:
  assumes "0 < num_cores" "0 < work_size" "work_size < 2 ^ 63"
  obtains g where "get_geometry_for_num_cores num_cores work_size = Some g" "covers g (min num_cores work_size) work_size"
proof -
  define n where "n = min num_cores work_size"
  define q where "q = work_size div n"
  have n: "0 < n" "n \<le> work_size" "n \<le> num_cores" using assms by (auto simp: n_def)
  have q: "0 < q" using n by (simp add: q_def div_greater_zero_iff)
  define fin where "fin = (\<lambda>g :: worker_geometry. if remainder g > ordinary_chunk_size g \<and> remainder g > num_cores - 1
     then rust_assert (ordinary_chunk_size g + 1 > remainder g - (num_cores - 1)) \<bind>
       (\<lambda>_. Some (g\<lparr>remainder := remainder g - (num_cores - 1), ordinary_chunk_size := ordinary_chunk_size g + 1\<rparr>))
     else Some g)"
  show thesis
  proof (cases "work_size mod n = 0")
    case True
    then have "covers \<lparr>num_chunks = n, ordinary_chunk_size = q, remainder = 0\<rparr> n work_size"
      using n q div_mult_mod_eq [of work_size n] by (cases n) (auto simp: covers_def q_def algebra_simps)
    with that show thesis using True n
      by (simp add: get_geometry_for_num_cores_def q_def flip: n_def)
  next
    case False
    have small: "n = num_cores" using False n by (auto simp: n_def min_def split: if_splits)
    have "n > 1" using False n by (cases "n = 1") auto
    have step: "\<exists>g. fin \<lparr>num_chunks = n, ordinary_chunk_size = o', remainder = work_size - (n - 1) * o'\<rparr> = Some g \<and> covers g n work_size"
      if "0 < o'" "(n - 1) * o' < work_size" "q \<le> o'" for o'
    proof -
      define r where "r = work_size - (n - 1) * o'"
      have c: "covers \<lparr>num_chunks = n, ordinary_chunk_size = o', remainder = r\<rparr> n work_size"
        using covers_last that n by (simp add: r_def)
      have "r < o' + n" using last_chunk_bound [of n work_size o'] that n by (auto simp: q_def r_def)
      then have b: "r - (num_cores - 1) < o' + 1" using small by linarith
      show ?thesis unfolding r_def [symmetric] using c covers_enlarge [OF c] b small by (auto simp: fin_def)
    qed
    define o1 where "o1 = (if is_power_of_two_usize q = False \<and> next_power_of_two q - q < 32 then next_power_of_two q else q)"
    have "q \<le> 2 ^ 63" unfolding q_def using assms(3) div_le_dividend [of work_size n] by linarith
    then have o1: "q \<le> o1" "o1 \<le> 2 * q" using next_power_of_two_bounds [OF q] by (auto simp: o1_def)
    have wq: "work_size = (n - 1) * q + q + work_size mod n"
      using div_mult_mod_eq [of work_size n] n(1) by (cases n) (auto simp: q_def algebra_simps)
    have "(n - 1) * o1 \<le> 2 * ((n - 1) * q)" using mult_le_mono2 [OF o1(2), of "n - 1"] by (simp add: algebra_simps)
    also have "\<dots> \<le> 2 * work_size" using wq by linarith
    also have "2 * work_size < 2 ^ 64" using assms(3) by simp
    finally have "(n - 1) * o1 < 2 ^ 64" .
    then have unwrap: "((n - 1) * o1) mod 2 ^ 64 = (n - 1) * o1" by simp
    let ?pick = "if (n - 1) * o1 < work_size then o1 else if work_size mod (n - 1) \<noteq> 0 then work_size div (n - 1) else q"
    have "q \<le> work_size div (n - 1)" using \<open>n > 1\<close> by (simp add: q_def div_le_mono2)
    then have pick3: "q \<le> ?pick" using o1 by simp
    then have pick1: "0 < ?pick" using q by linarith
    have m1: "(n - 1) * (work_size div (n - 1)) < work_size" if "work_size mod (n - 1) \<noteq> 0"
      using that mult_div_mod_eq [of "n - 1" work_size] by linarith
    have m2: "(n - 1) * q < work_size" using wq q False by linarith
    have pick2: "(n - 1) * ?pick < work_size" using m1 m2 by simp
    have "get_geometry_for_num_cores num_cores work_size =
        fin \<lparr>num_chunks = n, ordinary_chunk_size = ?pick, remainder = work_size - (n - 1) * ?pick\<rparr>"
      using False n m1 m2 \<open>n > 1\<close> unfolding get_geometry_for_num_cores_def n_def [symmetric] Let_def q_def [symmetric]
        o1_def [symmetric] unwrap
      by (cases "(n - 1) * o1 < work_size"; cases "work_size mod (n - 1) = 0") (simp_all add: fin_def)
    then show thesis using that step [OF pick1 pick2 pick3] by (auto simp: n_def)
  qed
qed

lemma geometry_covers:
  "0 < num_cores \<Longrightarrow> 0 < work_size \<Longrightarrow> work_size < 2 ^ 63 \<Longrightarrow> get_geometry_for_num_cores num_cores work_size = Some g \<Longrightarrow>
   covers g (min num_cores work_size) work_size"
  by (erule (2) geometry_exists) simp

lemma covers_chunk:
  assumes "covers g n w" "i < n"
  obtains z where "get_chunk_size g i = Some z" "0 < z" "get_chunk_start_pos g i = Some (ordinary_chunk_size g * i)"
    "ordinary_chunk_size g * i + z = (if Suc i < n then ordinary_chunk_size g * Suc i else w)"
proof -
  define q where "q = ordinary_chunk_size g"
  have *: "num_chunks g = n" "0 < q" "(n - 1) * q + (if remainder g = 0 then q else remainder g) = w"
    using assms by (simp_all only: covers_def q_def)
  show thesis
  proof (cases "Suc i < n")
    case True
    then have "i \<noteq> n - 1" by simp
    with True show thesis using * that [of q] by (simp add: get_chunk_size_def get_chunk_start_pos_def q_def)
  next
    case False
    then have "i = n - 1" using assms(2) by simp
    then show thesis using * that [of "if remainder g = 0 then q else remainder g"] False assms(2)
      by (auto simp: get_chunk_size_def get_chunk_start_pos_def q_def mult.commute)
  qed
qed



section \<open>The iterators\<close>

lemma chunks_mut_next: "GeometryAwareChunksMut_next = GeometryAwareChunks_next"
  by (rule ext) (auto simp: GeometryAwareChunksMut_next_def GeometryAwareChunks_next_def Let_def split: prod.splits bind_splits)

text \<open>The size of every chunk, and their sum.\<close>

definition chunk_sizes :: "worker_geometry \<Rightarrow> nat list" where
  "chunk_sizes g = replicate (num_chunks g - 1) (ordinary_chunk_size g) @
     [if remainder g = 0 then ordinary_chunk_size g else remainder g]"

lemma covers_sizes:
  assumes "covers g n w"
  shows "length (chunk_sizes g) = n" "sum_list (chunk_sizes g) = w" "0 \<notin> set (chunk_sizes g)"
    and "i < n \<Longrightarrow> get_chunk_size g i = Some (chunk_sizes g ! i)"
  using assms by (auto simp: chunk_sizes_def covers_def sum_list_replicate get_chunk_size_def nth_append)

fun cut :: "nat list \<Rightarrow> 'a list \<Rightarrow> 'a list list" where
  "cut [] v = []"
| "cut (z # zs) v = take z v # cut zs (drop z v)"

lemma length_cut [simp]: "length (cut zs v) = length zs"
  by (induction zs v rule: cut.induct) auto

lemma concat_cut: "length v = sum_list zs \<Longrightarrow> concat (cut zs v) = v"
  by (induction zs v rule: cut.induct) auto

lemma cut_nonempty: "length v = sum_list zs \<Longrightarrow> 0 \<notin> set zs \<Longrightarrow> [] \<notin> set (cut zs v)"
  by (induction zs v rule: cut.induct) auto

text \<open>Both iterators walk the same chunks; \<open>g\<close> and \<open>i\<close> are the geometry and the current index.\<close>

lemma get_cur_chunk_size_at:
  assumes "covers g n w" "drop i (chunk_sizes g) = z # zs"
  shows "get_chunk_size g i = Some z" "drop (Suc i) (chunk_sizes g) = zs"
proof -
  have "i < length (chunk_sizes g)" using assms(2) by (metis drop_eq_Nil leI list.distinct(1))
  then show "get_chunk_size g i = Some z" "drop (Suc i) (chunk_sizes g) = zs"
    using covers_sizes [OF assms(1)] assms(2) by (simp_all add: Cons_nth_drop_Suc [symmetric])
qed

lemma scaled_positive: "(0 :: nat) < scale \<Longrightarrow> 0 \<notin> set zs \<Longrightarrow> 0 \<notin> set (map (\<lambda>z. z * scale) zs)"
  by auto

lemma collect_chunks:
  assumes "covers g n w" "0 < scale"
  shows "drop i (chunk_sizes g) = zs \<Longrightarrow> 0 \<notin> set zs \<Longrightarrow> length v = sum_list (map (\<lambda>z. z * scale) zs) \<Longrightarrow>
    collect_items GeometryAwareChunks_next (Suc (length zs))
      \<lparr>gc_v = v, gc_geometry = g, gc_scale = scale, gc_cur_idx = i\<rparr> = Some (cut (map (\<lambda>z. z * scale) zs) v)"
proof (induction zs arbitrary: i v)
  case Nil
  then show ?case by (simp add: GeometryAwareChunks_next_def)
next
  case (Cons z zs)
  note at = get_cur_chunk_size_at [OF assms(1) Cons.prems(1)]
  have v: "v \<noteq> []" "z * scale \<le> length v" using Cons.prems assms(2) by auto
  have IH: "collect_items GeometryAwareChunks_next (Suc (length zs))
      \<lparr>gc_v = drop (z * scale) v, gc_geometry = g, gc_scale = scale, gc_cur_idx = Suc i\<rparr> =
      Some (cut (map (\<lambda>z. z * scale) zs) (drop (z * scale) v))"
    by (rule Cons.IH) (use Cons.prems at in auto)
  have "GeometryAwareChunks_next \<lparr>gc_v = v, gc_geometry = g, gc_scale = scale, gc_cur_idx = i\<rparr> =
      Some (Some (take (z * scale) v), \<lparr>gc_v = drop (z * scale) v, gc_geometry = g, gc_scale = scale, gc_cur_idx = Suc i\<rparr>)"
    using v at by (simp add: GeometryAwareChunks_next_def get_cur_chunk_size_def split_at_def)
  with IH show ?case
    unfolding list.size(4) add_Suc_right add_0_right by (subst collect_items.simps(2)) (simp del: collect_items.simps)
qed

lemma collect_windows:
  assumes "covers g n w" "0 < scale"
  shows "drop i (chunk_sizes g) = zs \<Longrightarrow> 0 \<notin> set zs \<Longrightarrow> length v = sum_list (map (\<lambda>z. z * scale) zs) \<Longrightarrow>
    collect_items GeometryAwareChunksCyclicWindow_next (Suc (length zs))
      \<lparr>gc_v = v, gc_geometry = g, gc_scale = scale, gc_cur_idx = i, gc_first_elem = x\<rparr> =
      Some (zip (cut (map (\<lambda>z. z * scale) zs) v) (map hd (tl (cut (map (\<lambda>z. z * scale) zs) v)) @ [x]))"
proof (induction zs arbitrary: i v)
  case Nil
  then show ?case by (simp add: GeometryAwareChunksCyclicWindow_next_def)
next
  case (Cons z zs)
  note at = get_cur_chunk_size_at [OF assms(1) Cons.prems(1)]
  have v: "v \<noteq> []" "z * scale \<le> length v" using Cons.prems assms(2) by auto
  have IH: "collect_items GeometryAwareChunksCyclicWindow_next (Suc (length zs))
      \<lparr>gc_v = drop (z * scale) v, gc_geometry = g, gc_scale = scale, gc_cur_idx = Suc i, gc_first_elem = x\<rparr> =
      Some (zip (cut (map (\<lambda>z. z * scale) zs) (drop (z * scale) v)) (map hd (tl (cut (map (\<lambda>z. z * scale) zs) (drop (z * scale) v))) @ [x]))"
    by (rule Cons.IH) (use Cons.prems at in auto)
  show ?case
  proof (cases zs)
    case Nil
    then show ?thesis using v at Cons.prems
      by (simp add: GeometryAwareChunksCyclicWindow_next_def get_cur_chunk_size_def split_at_def geometry_chunks.defs)
  next
    case (Cons z' zs')
    then have "0 < z' * scale" using Cons.prems assms(2) by auto
    then obtain y ys where y: "drop (z * scale) v = y # ys" "take (z' * scale) (y # ys) = y # take (z' * scale - 1) ys"
      using Cons.prems Cons by (cases "drop (z * scale) v") (auto simp: take_Cons')
    have "GeometryAwareChunksCyclicWindow_next
        \<lparr>gc_v = v, gc_geometry = g, gc_scale = scale, gc_cur_idx = i, gc_first_elem = x\<rparr> =
        Some (Some (take (z * scale) v, y),
          \<lparr>gc_v = drop (z * scale) v, gc_geometry = g, gc_scale = scale, gc_cur_idx = Suc i, gc_first_elem = x\<rparr>)"
      using v at y(1)
      by (simp add: GeometryAwareChunksCyclicWindow_next_def get_cur_chunk_size_def split_at_def geometry_chunks.defs)
    with IH show ?thesis
      unfolding list.size(4) add_Suc_right add_0_right
      by (subst collect_items.simps(2)) (simp add: Cons y del: collect_items.simps)
  qed
qed

text \<open>C16: iterating over a slice by chunks visits every element once, in order.  The shared and the
  mutable iterator give as many non-empty chunks as the geometry has, whose concatenation is the
  slice; the cyclic windows give the same chunks, each with the first element of the next one and
  the last with the first element of the slice.  The reversed iterator starts at the wrong index and
  panics on every slice of at least two elements.\<close>

theorem chunk_iterators_cover:
  assumes "0 < num_cores" "0 < work_size" "work_size < 2 ^ 63" "0 < scale" "length v = work_size * scale" "2 \<le> length u"
    "get_geometry_for_num_cores num_cores work_size = Some g" "get_geometry_for_num_cores num_cores (length u) = Some h"
    "length u < 2 ^ 63"
  shows "\<exists>cs. collect_items GeometryAwareChunks_next (Suc (num_chunks g)) (GeometryAwareChunks_new v g scale) = Some cs \<and>
      collect_items GeometryAwareChunksMut_next (Suc (num_chunks g)) (GeometryAwareChunks_new v g scale) = Some cs \<and>
      concat cs = v \<and> length cs = min num_cores work_size \<and> [] \<notin> set cs \<and>
      (do { it \<leftarrow> GeometryAwareChunksCyclicWindow_new v g scale;
            collect_items GeometryAwareChunksCyclicWindow_next (Suc (num_chunks g)) it })
        = Some (zip cs (map hd (tl cs) @ [hd v])) \<and>
      collect_items GeometryAwareChunksRev_next (Suc (num_chunks h)) (GeometryAwareChunksRev_new u h 1) = panic"
proof -
  have g: "covers g (min num_cores work_size) work_size"
    using assms by (simp add: geometry_covers)
  have h: "covers h (min num_cores (length u)) (length u)"
    by (rule geometry_covers [OF assms(1) _ assms(9,8)]) (use assms(6) in linarith)
  let ?zs = "map (\<lambda>z. z * scale) (chunk_sizes g)"
  note sizes = covers_sizes [OF g]
  have len: "length v = sum_list ?zs" using sizes(2) assms(5) by (simp add: sum_list_mult_const)
  obtain x xs where v: "v = x # xs" using assms(2,4,5) by (cases v) auto
  have n: "num_chunks g = length (chunk_sizes g)" using g sizes(1) by (simp add: covers_def)
  have cs: "collect_items GeometryAwareChunks_next (Suc (num_chunks g)) (GeometryAwareChunks_new v g scale) = Some (cut ?zs v)"
    using collect_chunks [OF g assms(4), of 0 "chunk_sizes g" v] sizes(3) len n by (simp add: GeometryAwareChunks_new_def)
  have ws: "collect_items GeometryAwareChunksCyclicWindow_next (Suc (num_chunks g))
      \<lparr>gc_v = v, gc_geometry = g, gc_scale = scale, gc_cur_idx = 0, gc_first_elem = x\<rparr> =
      Some (zip (cut ?zs v) (map hd (tl (cut ?zs v)) @ [x]))"
    using collect_windows [OF g assms(4), of 0 "chunk_sizes g" v x] sizes(3) len n by simp
  have hn: "num_chunks h \<le> length u" using h by (simp add: covers_def)
  have "collect_items GeometryAwareChunksRev_next (Suc (num_chunks h)) (GeometryAwareChunksRev_new u h 1) = panic"
  proof (cases "num_chunks h = length u")
    case True
    then have i: "length u - 1 < min num_cores (length u)" "Suc (length u - 1) = length u"
      using assms(6) h by (auto simp: covers_def)
    obtain z where z: "get_chunk_size h (length u - 1) = Some z" "0 < z"
      "ordinary_chunk_size h * (length u - 1) + z = length u"
      by (rule covers_chunk [OF h i(1)]) (use i True h in \<open>auto simp: covers_def split: if_splits\<close>)
    moreover have "0 < ordinary_chunk_size h * (length u - 1)" using h assms(6) by (simp add: covers_def)
    ultimately have "z < length u" by linarith
    moreover have "get_chunk_size h (length u) = panic" using True by (simp add: get_chunk_size_def)
    ultimately show ?thesis using z i assms(6)
      by (cases u rule: rev_cases)
        (auto simp: GeometryAwareChunksRev_new_def GeometryAwareChunksRev_next_def get_cur_chunk_size_def split_at_def True)
  next
    case False
    then have "\<not> length u - 1 < num_chunks h" using hn by linarith
    then have "get_chunk_size h (length u - 1) = panic" by (simp add: get_chunk_size_def)
    moreover have "u \<noteq> []" using assms(6) by auto
    ultimately show ?thesis
      by (simp add: GeometryAwareChunksRev_new_def GeometryAwareChunksRev_next_def get_cur_chunk_size_def)
  qed
  moreover have first: "hd v = x" "GeometryAwareChunksCyclicWindow_new v g scale =
      Some \<lparr>gc_v = v, gc_geometry = g, gc_scale = scale, gc_cur_idx = 0, gc_first_elem = x\<rparr>"
    by (simp_all add: v GeometryAwareChunksCyclicWindow_new_def)
  moreover have "length (cut ?zs v) = min num_cores work_size" by (simp only: length_cut length_map sizes(1))
  ultimately show ?thesis
    unfolding chunks_mut_next first bind.bind_lunit ws
    using cs concat_cut [OF len] cut_nonempty [OF len scaled_positive [OF assms(4) sizes(3)]] by blast
qed

theorem chunk_iterators_cover_witness:
  "\<exists>g h. get_geometry_for_num_cores 3 16 = Some g \<and> get_geometry_for_num_cores 3 2 = Some h \<and>
    (\<exists>cs. collect_items GeometryAwareChunks_next (Suc (num_chunks g)) (GeometryAwareChunks_new [0..<32] g 2) = Some cs \<and>
       concat cs = [0..<32] \<and> length cs = 3) \<and>
    collect_items GeometryAwareChunksRev_next (Suc (num_chunks h)) (GeometryAwareChunksRev_new [0, 1 :: nat] h 1) = panic"
proof -
  obtain g where g: "get_geometry_for_num_cores 3 16 = Some g" by (rule geometry_exists [of 3 16]) simp_all
  obtain h where h: "get_geometry_for_num_cores 3 2 = Some h" by (rule geometry_exists [of 3 2]) simp_all
  show ?thesis
    using g h h [unfolded numeral_2_eq_2] chunk_iterators_cover [of 3 16 2 "[0..<32]" "[0, 1 :: nat]" g h]
    by (auto simp del: collect_items.simps upt_rec_numeral)
qed

end
