(* ===== verification/Spec2Isabelle.thy ===== *)
theory Spec2Isabelle
  imports Prelude Bits Config Memory Mmu NonDet Mersenne M31 M31_Laws Blake2s State Delegations U256 Alu MachineV1
    MachineUnrolled Agreement Refine Sim Runs Isa IsaExec Programs Invariants M31_Fields FieldTrait Extensions Roots Transcript Worker
begin

text \<open>
  \<^bold>\<open>What this development is about.\<close>  The repository holds a zero-knowledge proof system for RISC-V programs.
  A guest program is compiled to RV32IM, run by a simulator that records what the prover needs
  (\<open>risc_v_simulator\<close>), and proved over the Mersenne-31 field (\<open>field\<close>) with a transcript and Merkle trees
  that hash with BLAKE2s (\<open>blake2s_u32\<close>, \<open>transcript\<close>); long loops are spread over threads (\<open>worker\<close>).
  The theories below translate these crates function by function and prove what makes them correct.

  \<^bold>\<open>Conventions.\<close>  A struct is a record, an enum a datatype, an integer a word of its width (\<open>usize\<close> has 64
  bits; sizes of slices are natural numbers, with the wrap-around written out where it can occur).  The
  model follows the release profile: arithmetic wraps and \<open>debug_assert!\<close> is absent.  A function that can
  panic returns an option and \<open>None\<close> is the panic; accesses outside a buffer through raw pointers, which
  are undefined behaviour, are \<open>None\<close> as well.  A trait is a record of its methods, passed to the
  definitions that are generic over it.  The tracer is the list of the calls it receives.

  \<^bold>\<open>The theories.\<close>
  \<^item> \<open>Prelude\<close>: word types, panics, the fact collections the proofs use.
  \<^item> \<open>Bits\<close>: \<open>utils/mod.rs\<close>, \<open>cycle/opcode_formats\<close>, \<open>cycle/decoder_utils.rs\<close>, \<open>cycle/status_registers\<close>.  Every
    immediate decodes to what an assembler encoded.
  \<^item> \<open>Config\<close>: traps, access types, modes, the machine configurations of \<open>cycle/mod.rs\<close>.
  \<^item> \<open>Memory\<close>: \<open>abstractions/memory.rs\<close>, \<open>abstractions/mod.rs\<close>, \<open>cycle/utils.rs\<close>.  The locale \<open>word_memory\<close> is the
    contract of a memory, interpreted on \<open>VectorMemoryImpl\<close>; a load after a store reads the stored bytes.
  \<^item> \<open>Mmu\<close>: \<open>mmu/mod.rs\<close>.  The locale \<open>bare_mmu\<close> is translation switched off, interpreted on both implementations;
    with translation on, a store panics.
  \<^item> \<open>NonDet\<close>: \<open>abstractions/non_determinism.rs\<close> and the printing half of \<open>riscv_common\<close>.  A printed message
    arrives unchanged, except after an empty one.
  \<^item> \<open>Blake2s\<close>: \<open>blake2s_u32\<close>, on the host.  All entry points compute one chain of compressions.
  \<^item> \<open>Transcript\<close>: \<open>transcript/src/lib.rs\<close> and \<open>pow.rs\<close>.  \<open>hash_words\<close> is the hash of a sequence of words; commitments and
    the buffering transcript compute it whatever the chunking, randomness is its iteration, and the threads
    searching for a nonce, whose steps interleave in \<open>pow_pool_step\<close>, end and return only nonces that verify.
  \<^item> \<open>Worker\<close>: \<open>worker/src/lib.rs\<close>.  The chunks of a geometry partition the work, the iterators visit every element.
  \<^item> \<open>State\<close>, \<open>Delegations\<close>, \<open>Alu\<close>, \<open>MachineV1\<close>, \<open>MachineUnrolled\<close>: \<open>cycle/state.rs\<close>, \<open>cycle/state_new.rs\<close>,
    \<open>delegations\<close>, \<open>abstractions/csr_processor.rs\<close>: the states of the two machines, the computations delegated
    through custom CSRs, and one definition per opcode composed into the whole cycle of each machine.
  \<^item> \<open>U256\<close>: the meaning of the 256-bit delegation.  The crate \<open>ruint\<close> is a parameter; its documented behaviour is the
    locale \<open>ruint\<close>, interpreted on 256-bit words.
  \<^item> \<open>Agreement\<close>, \<open>Refine\<close>: whenever a cycle of the first machine succeeds in machine mode without translation, so
    does a cycle of the unrolled machine, with the same registers, program counter, memory and inputs
    (locales \<open>matching_impls\<close> and \<open>matching_machines\<close>).
  \<^item> \<open>Sim\<close>, \<open>Runs\<close>: \<open>sim/mod.rs\<close>, \<open>lib.rs\<close>, \<open>runner/mod.rs\<close>.  The locale \<open>machine_simulation\<close> carries a simulation of cycles
    to whole runs; the interpretations of \<open>Runs\<close> instantiate it with the setups of the sources.
  \<^item> \<open>Isa\<close>, \<open>IsaExec\<close>, \<open>Programs\<close>: a reference semantics of RV32IM, independent of the sources: instructions, their
    encoding, one step as an inductive relation over byte-addressed memory.  A cycle on an encoded
    instruction performs exactly its step, and an execution that ends in a jump to itself is what the
    entry point returns.
  \<^item> \<open>Invariants\<close>: what every reachable state of the first machine satisfies.
  \<^item> \<open>Mersenne\<close>, \<open>M31\<close>, \<open>M31_Laws\<close>: number theory of the modulus; \<open>field/src/ops.rs\<close> and \<open>base.rs\<close> with the laws of each operation.
  \<^item> \<open>M31_Fields\<close>, \<open>FieldTrait\<close>, \<open>Extensions\<close>, \<open>Roots\<close>: the three fields as types of class \<open>field\<close>; the trait of \<open>field.rs\<close>
    as a record with the locale \<open>field_impl\<close>, interpreted on the base field, \<open>complex.rs\<close> and \<open>quartic.rs\<close>; powers and
    batch inversion proved once in the locale; the roots of unity.

  \<^bold>\<open>Bounds and fuel.\<close>  The only definitions with a step count are loops that have one in the sources (the
  number of cycles of a run, of rounds of a commitment, of challenges of the serial search) and
  \<open>collect_items\<close> of \<open>Worker\<close>, the \<open>for\<close> loop over an iterator: \<open>num_chunks + 1\<close> calls are enough since every call
  advances the index and the last chunk empties the slice, which \<open>chunk_iterators_cover\<close> proves.  Work sizes are
  taken below \<open>2 ^ 63\<close>, so that no product of the geometry wraps.

  \<^bold>\<open>Not modelled.\<close>  The circuits, their verifiers and witness evaluators are generated code; the compiler that
  generates them (\<open>cs\<close>, \<open>verifier_generator\<close>, \<open>witness_eval_generator\<close>), the prover stages, the Fourier transforms,
  trace holders and the GPU prover work on layouts and kernels outside a functional model.  SIMD and
  assembly variants of the field and the hasher are processor instructions.  Of the modelled crates,
  printing, timing and the profiler are left out, and the guest's run-time field instructions
  and delegation triggers are single instructions whose effect the machines model.
\<close>

end
